(* ===== verification/Prelude.thy ===== *)
theory Prelude
  imports Main "HOL-Library.AList" "HOL-Library.Multiset" "HOL-Library.Char_ord"
    "HOL-Library.List_Lexorder" "HOL-Library.Sublist"
begin

text \<open>
  Shared vocabulary of the development: the collections of rewrite rules, Go's built-in
  map type with its unspecified iteration order, and the outcome of a call that may panic.

  A Go map is an association list with distinct keys. The list order stands for the order
  in which a range loop visits the entries: Go leaves it unspecified, so a property of a
  loop over an argument map holds for every list that represents the map. A loop over a map
  that the program built itself visits its keys in the order that an arbitrary
  \<^emph>\<open>range order\<close> chooses; the order may differ from loop to loop (the first argument
  numbers the loop in the source).
\<close>

named_theorems gomap_simps \<open>lookup laws of Go maps\<close>
named_theorems gotext_simps \<open>definitions of the string operations, for evaluation\<close>
named_theorems inv_intros \<open>preservation rules of the component invariants\<close>

section \<open>Go maps\<close>

type_synonym ('k, 'v) gomap = "('k \<times> 'v) list"

definition gput :: "'k \<Rightarrow> 'v \<Rightarrow> ('k, 'v) gomap \<Rightarrow> ('k, 'v) gomap" where
  "gput k v m = AList.update k v m"

definition gdel :: "'k \<Rightarrow> ('k, 'v) gomap \<Rightarrow> ('k, 'v) gomap" where
  "gdel k m = AList.delete k m"

text \<open>Reading an absent key gives the zero value of the value type.\<close>

definition gget :: "'v \<Rightarrow> ('k, 'v) gomap \<Rightarrow> 'k \<Rightarrow> 'v" where
  "gget z m k = (case map_of m k of None \<Rightarrow> z | Some v \<Rightarrow> v)"

definition gkeys :: "('k, 'v) gomap \<Rightarrow> 'k list" where
  "gkeys m = map fst m"

definition gwf :: "('k, 'v) gomap \<Rightarrow> bool" where
  "gwf m \<longleftrightarrow> distinct (map fst m)"

definition ghas :: "('k, 'v) gomap \<Rightarrow> 'k \<Rightarrow> bool" where
  "ghas m k \<longleftrightarrow> k \<in> set (map fst m)"

lemma map_of_gput [simp, gomap_simps]: "map_of (gput k v m) = (map_of m)(k \<mapsto> v)"
  by (simp add: gput_def update_conv')

lemma map_of_gdel [simp, gomap_simps]: "map_of (gdel k m) = (map_of m)(k := None)"
  by (simp add: gdel_def delete_conv')

lemma gwf_Nil [simp]: "gwf []"
  by (simp add: gwf_def)

lemma gwf_gput [simp, intro]: "gwf m \<Longrightarrow> gwf (gput k v m)"
  by (simp add: gwf_def gput_def distinct_update)

lemma gwf_gdel [simp, intro]: "gwf m \<Longrightarrow> gwf (gdel k m)"
  by (simp add: gwf_def gdel_def distinct_delete)

lemma set_gkeys: "set (gkeys m) = dom (map_of m)"
  by (simp add: gkeys_def dom_map_of_conv_image_fst)

lemma ghas_iff: "ghas m k \<longleftrightarrow> map_of m k \<noteq> None"
  by (simp add: ghas_def map_of_eq_None_iff)

lemma gget_gput [simp, gomap_simps]: "gget z (gput k v m) k' = (if k' = k then v else gget z m k')"
  by (simp add: gget_def)

lemma gget_gdel [simp, gomap_simps]: "gget z (gdel k m) k' = (if k' = k then z else gget z m k')"
  by (simp add: gget_def)

lemma gget_Nil [simp]: "gget z [] k = z"
  by (simp add: gget_def)

lemma gput_nonempty [simp]: "gput k v m \<noteq> []"
  by (cases m) (auto simp: gput_def)

lemma fst_set_gput: "fst ` set (gput k v m) = insert k (fst ` set m)"
  by (simp add: gput_def dom_update)

lemma gwf_map_of_mem: "gwf m \<Longrightarrow> map_of m k = Some v \<longleftrightarrow> (k, v) \<in> set m"
  by (simp add: gwf_def)

lemma map_of_mset_eq:
  assumes "mset m = mset m'" and "gwf m"
  shows "map_of m = map_of m'"
proof -
  have s: "set m = set m'" using assms(1) by (metis set_mset_mset)
  have "distinct (map fst m')"
    using assms by (metis gwf_def mset_map mset_eq_imp_distinct_iff)
  with s assms(2) show ?thesis
    by (simp add: gwf_def map_of_inject_set)
qed

lemma map_of_fold_gput:
  "distinct (map fst es) \<Longrightarrow>
     map_of (fold (\<lambda>(k, v). gput k v) es m) k = (case map_of es k of None \<Rightarrow> map_of m k | Some v \<Rightarrow> Some v)"
proof (induction es arbitrary: m)
  case (Cons e es)
  obtain a b where e: "e = (a, b)" by force
  from Cons.prems have "map_of es a = None" by (auto simp: e map_of_eq_None_iff)
  then show ?case using Cons.IH [of "gput a b m"] Cons.prems by (auto simp: e split: option.splits)
qed simp

text \<open>
  The interface of a keyed store: what a lookup gives after an insertion or a removal.
  The components that keep a map between runs (checksums, file systems) rely on these laws
  only.
\<close>

locale keyed_store =
  fixes emp :: 'm
    and look :: "'m \<Rightarrow> 'k \<Rightarrow> 'v option"
    and ins :: "'k \<Rightarrow> 'v \<Rightarrow> 'm \<Rightarrow> 'm"
    and rem :: "'k \<Rightarrow> 'm \<Rightarrow> 'm"
  assumes look_emp: "look emp k = None"
    and look_ins: "look (ins k v m) k' = (if k' = k then Some v else look m k')"
    and look_rem: "look (rem k m) k' = (if k' = k then None else look m k')"
begin

lemma look_ins_all:
  "look (foldr (\<lambda>(k, v). ins k v) kvs m) k = (case map_of kvs k of None \<Rightarrow> look m k | Some v \<Rightarrow> Some v)"
  by (induction kvs) (auto simp: look_ins)

lemma look_rem_all:
  "look (foldr rem ks m) k = (if k \<in> set ks then None else look m k)"
  by (induction ks) (auto simp: look_rem)

end

interpretation gm: keyed_store "[] :: ('k, 'v) gomap" map_of gput gdel
  by unfold_locales simp_all

section \<open>Iteration order\<close>

type_synonym range_order = "nat \<Rightarrow> string list \<Rightarrow> string list"

definition range_order_ok :: "range_order \<Rightarrow> bool" where
  "range_order_ok rt \<longleftrightarrow> (\<forall>i ks. mset (rt i ks) = mset ks)"

definition grange :: "range_order \<Rightarrow> nat \<Rightarrow> (string, 'v) gomap \<Rightarrow> (string \<times> 'v) list" where
  "grange rt i m =
     map (\<lambda>k. (k, the (map_of m k))) (filter (ghas m) (rt i (gkeys m)))"

lemma range_order_id: "range_order_ok (\<lambda>_ ks. ks)"
  by (simp add: range_order_ok_def)

lemma range_order_rev: "range_order_ok (\<lambda>_. rev)"
  by (simp add: range_order_ok_def)

lemma grange_mset:
  assumes ok: "range_order_ok rt" and wf: "gwf m"
  shows "mset (grange rt i m) = mset m"
proof -
  have perm: "mset (rt i (gkeys m)) = mset (gkeys m)"
    using ok by (simp add: range_order_ok_def)
  then have keys: "set (rt i (gkeys m)) = set (gkeys m)"
    by (metis set_mset_mset)
  have all: "filter (ghas m) (rt i (gkeys m)) = rt i (gkeys m)"
    using keys by (auto simp: filter_id_conv ghas_def gkeys_def)
  have "map (\<lambda>k. (k, the (map_of m k))) (gkeys m) = m"
    using wf by (auto simp: gkeys_def gwf_def intro!: map_idI)
  then have "image_mset (\<lambda>k. (k, the (map_of m k))) (mset (gkeys m)) = mset m"
    by (metis mset_map)
  then show ?thesis
    by (simp add: grange_def all perm)
qed

lemma grange_set: "range_order_ok rt \<Longrightarrow> gwf m \<Longrightarrow> set (grange rt i m) = set m"
  by (metis grange_mset set_mset_mset)

lemma grange_map_of: "range_order_ok rt \<Longrightarrow> gwf m \<Longrightarrow> map_of (grange rt i m) = map_of m"
  by (metis grange_mset map_of_mset_eq)

lemma grange_distinct: "range_order_ok rt \<Longrightarrow> gwf m \<Longrightarrow> distinct (map fst (grange rt i m))"
  by (metis grange_mset gwf_def mset_map mset_eq_imp_distinct_iff)

lemma grange_Nil_iff: "range_order_ok rt \<Longrightarrow> gwf m \<Longrightarrow> grange rt i m = [] \<longleftrightarrow> m = []"
  by (metis grange_mset mset_zero_iff)

section \<open>Outcomes of a call\<close>

type_synonym gerror = string

text \<open>A call returns a value, or the goroutine panics.\<close>

datatype 'a outcome = Ret 'a | Panic

fun obind :: "'a outcome \<Rightarrow> ('a \<Rightarrow> 'b outcome) \<Rightarrow> 'b outcome" where
  "obind (Ret x) f = f x"
| "obind Panic f = Panic"

lemma obind_Ret_iff: "obind m f = Ret y \<longleftrightarrow> (\<exists>x. m = Ret x \<and> f x = Ret y)"
  by (cases m) auto

lemma obind_Panic_iff: "obind m f = Panic \<longleftrightarrow> m = Panic \<or> (\<exists>x. m = Ret x \<and> f x = Panic)"
  by (cases m) auto

text \<open>A loop whose body may panic.\<close>

fun ofold :: "('a \<Rightarrow> 's \<Rightarrow> 's outcome) \<Rightarrow> 'a list \<Rightarrow> 's \<Rightarrow> 's outcome" where
  "ofold f [] s = Ret s"
| "ofold f (x # xs) s = obind (f x s) (ofold f xs)"

lemma ofold_invariant:
  assumes "ofold f xs s = Ret s'" and "P s" and "\<And>x t t'. x \<in> set xs \<Longrightarrow> P t \<Longrightarrow> f x t = Ret t' \<Longrightarrow> P t'"
  shows "P s'"
  using assms by (induction xs arbitrary: s) (auto simp: obind_Ret_iff)

lemma ofold_returns:
  assumes "P s" and "\<And>x t. x \<in> set xs \<Longrightarrow> P t \<Longrightarrow> \<exists>t'. f x t = Ret t' \<and> P t'"
  shows "\<exists>s'. ofold f xs s = Ret s' \<and> P s'"
  using assms
proof (induction xs arbitrary: s)
  case (Cons x xs)
  then obtain t where "f x s = Ret t" "P t" by (metis list.set_intros(1))
  with Cons show ?case by simp
qed simp

section \<open>List facts shared by the components\<close>

lemma fold_invariant_set:
  assumes "P s" and "\<And>x s. x \<in> set xs \<Longrightarrow> P s \<Longrightarrow> P (f x s)"
  shows "P (fold f xs s)"
  using assms by (induction xs arbitrary: s) auto

lemma sorted_sort_unique: "mset xs = mset ys \<Longrightarrow> sort xs = sort (ys :: 'a :: linorder list)"
  by (metis properties_for_sort mset_sort sorted_sort)

end
