(* ===== verification/Go_Text.thy ===== *)
theory Go_Text
  imports Prelude
begin

text \<open>
  The parts of Go's standard library that the program uses on text: strings, strconv,
  unicode/utf8 and path. A Go string is a sequence of bytes, which is exactly a HOL
  \<^typ>\<open>string\<close>. The operations are executable; the lemmas relate them to the library's
  notions of prefix, sublist and splitting, which is what the component proofs use.
\<close>

section \<open>Package strings\<close>

definition HasPrefix :: "string \<Rightarrow> string \<Rightarrow> bool" where
  "HasPrefix s p \<longleftrightarrow> take (length p) s = p"

definition HasSuffix :: "string \<Rightarrow> string \<Rightarrow> bool" where
  "HasSuffix s p \<longleftrightarrow> length p \<le> length s \<and> drop (length s - length p) s = p"

definition TrimPrefix :: "string \<Rightarrow> string \<Rightarrow> string" where
  "TrimPrefix s p = (if HasPrefix s p then drop (length p) s else s)"

definition TrimSuffix :: "string \<Rightarrow> string \<Rightarrow> string" where
  "TrimSuffix s p = (if HasSuffix s p then take (length s - length p) s else s)"

fun Contains :: "string \<Rightarrow> string \<Rightarrow> bool" where
  "Contains [] sub = (sub = [])"
| "Contains (c # s) sub = (HasPrefix (c # s) sub \<or> Contains s sub)"

fun LastIndexByte :: "string \<Rightarrow> char \<Rightarrow> int" where
  "LastIndexByte [] c = -1"
| "LastIndexByte (x # s) c =
     (let i = LastIndexByte s c in if i \<ge> 0 then i + 1 else if x = c then 0 else -1)"

fun Split :: "string \<Rightarrow> char \<Rightarrow> string list" where
  "Split [] c = [[]]"
| "Split (x # s) c =
     (if x = c then [] # Split s c
      else case Split s c of [] \<Rightarrow> [[x]] | y # ys \<Rightarrow> (x # y) # ys)"

fun SplitN :: "string \<Rightarrow> char \<Rightarrow> nat \<Rightarrow> string list" where
  "SplitN s c 0 = []"
| "SplitN s c (Suc 0) = [s]"
| "SplitN s c (Suc (Suc n)) =
     (if c \<in> set s
      then takeWhile (\<lambda>x. x \<noteq> c) s # SplitN (tl (dropWhile (\<lambda>x. x \<noteq> c) s)) c (Suc n)
      else [s])"

fun JoinSep :: "string list \<Rightarrow> string \<Rightarrow> string" where
  "JoinSep [] sep = []"
| "JoinSep [x] sep = x"
| "JoinSep (x # y # ys) sep = x @ sep @ JoinSep (y # ys) sep"

function ReplaceAll :: "string \<Rightarrow> string \<Rightarrow> string \<Rightarrow> string" where
  "ReplaceAll [] old new = []"
| "ReplaceAll (c # s) old new =
     (if old \<noteq> [] \<and> HasPrefix (c # s) old
      then new @ ReplaceAll (drop (length old) (c # s)) old new
      else c # ReplaceAll s old new)"
  by pat_completeness auto
termination
  by (relation "measure (\<lambda>(s, old, new). length s)") (auto simp: length_greater_0_conv)

text \<open>The byte sequences that encode the code points with the White\_Space property.\<close>

definition space_seqs :: "string list" where
  "space_seqs =
     map (map char_of)
      ([[9], [10], [11], [12], [13], [32], [0xC2, 0x85], [0xC2, 0xA0], [0xE1, 0x9A, 0x80]]
       @ map (\<lambda>b. [0xE2, 0x80, b]) [0x80, 0x81, 0x82, 0x83, 0x84, 0x85, 0x86, 0x87, 0x88, 0x89, 0x8A,
            0xA8, 0xA9, 0xAF]
       @ [[0xE2, 0x81, 0x9F], [0xE3, 0x80, 0x80 :: nat]])"

definition leading_space :: "string \<Rightarrow> nat" where
  "leading_space s = (case filter (HasPrefix s) space_seqs of [] \<Rightarrow> 0 | q # _ \<Rightarrow> length q)"

definition trailing_space :: "string \<Rightarrow> nat" where
  "trailing_space s = (case filter (HasSuffix s) space_seqs of [] \<Rightarrow> 0 | q # _ \<Rightarrow> length q)"

lemma space_seqs_nonempty: "q \<in> set space_seqs \<Longrightarrow> 0 < length q"
  by (auto simp: space_seqs_def)

function TrimLeftSpace :: "string \<Rightarrow> string" where
  "TrimLeftSpace s =
     (let n = leading_space s in if n = 0 \<or> s = [] then s else TrimLeftSpace (drop n s))"
  by pat_completeness auto
termination
  by (relation "measure length") auto

function TrimRightSpace :: "string \<Rightarrow> string" where
  "TrimRightSpace s =
     (let n = trailing_space s
      in if n = 0 \<or> s = [] then s else TrimRightSpace (take (length s - n) s))"
  by pat_completeness auto
termination
  by (relation "measure length") auto

declare TrimLeftSpace.simps [simp del] TrimRightSpace.simps [simp del]

definition TrimSpace :: "string \<Rightarrow> string" where
  "TrimSpace s = TrimRightSpace (TrimLeftSpace s)"

subsection \<open>Laws\<close>

lemma HasPrefix_iff: "HasPrefix s p \<longleftrightarrow> prefix p s"
  by (metis HasPrefix_def append_eq_conv_conj prefix_def take_is_prefix)

lemma HasPrefix_append [simp]: "HasPrefix (p @ s) p"
  by (simp add: HasPrefix_def)

lemma HasPrefix_Nil [simp]: "HasPrefix s []"
  by (simp add: HasPrefix_def)

lemma HasPrefixE:
  assumes "HasPrefix s p"
  obtains t where "s = p @ t"
  using assms by (auto simp: HasPrefix_iff prefix_def)

lemma TrimPrefix_append [simp]: "TrimPrefix (p @ s) p = s"
  by (simp add: TrimPrefix_def)

lemma HasPrefix_TrimPrefix: "HasPrefix s p \<Longrightarrow> s = p @ TrimPrefix s p"
  by (auto simp: TrimPrefix_def elim: HasPrefixE)

lemma Contains_sublist: "Contains s sub \<longleftrightarrow> sublist sub s"
  by (induction s) (auto simp: HasPrefix_iff sublist_Cons_right)

lemma Contains_iff: "Contains s sub \<longleftrightarrow> (\<exists>u v. s = u @ sub @ v)"
  by (simp add: Contains_sublist sublist_def)

lemma Contains_append1: "Contains s sub \<Longrightarrow> Contains (t @ s) sub"
  by (auto simp: Contains_sublist sublist_appendI sublist_append)

lemma Contains_append2: "Contains s sub \<Longrightarrow> Contains (s @ t) sub"
  by (auto simp: Contains_sublist sublist_append)

lemma LastIndexByte_ge: "LastIndexByte s c \<ge> -1"
  by (induction s) (auto simp: Let_def)

lemma LastIndexByte_less: "LastIndexByte s c < int (length s)"
  by (induction s) (auto simp: Let_def)

lemma LastIndexByte_absent: "LastIndexByte s c = -1 \<longleftrightarrow> c \<notin> set s"
proof (induction s)
  case (Cons x s)
  then show ?case using LastIndexByte_ge [of s c] by (auto simp: Let_def)
qed simp

text \<open>The Go idiom \<open>s[strings.LastIndex(s, "/")+1:]\<close> is the segment after the last separator.\<close>

lemma drop_LastIndexByte:
  "drop (nat (LastIndexByte s c + 1)) s = rev (takeWhile (\<lambda>x. x \<noteq> c) (rev s))"
proof (induction s)
  case (Cons x s)
  show ?case
  proof (cases "LastIndexByte s c \<ge> 0")
    case True
    then have "c \<in> set s" using LastIndexByte_absent [of s c] by auto
    then have "takeWhile (\<lambda>x. x \<noteq> c) (rev s @ [x]) = takeWhile (\<lambda>x. x \<noteq> c) (rev s)"
      by (intro takeWhile_append1) auto
    moreover have "nat (LastIndexByte s c + 2) = Suc (nat (LastIndexByte s c + 1))"
      using True by simp
    ultimately show ?thesis using Cons.IH True by (simp add: Let_def add.commute)
  next
    case False
    then have "c \<notin> set s" using LastIndexByte_absent [of s c] LastIndexByte_ge [of s c] by auto
    then show ?thesis using False by (auto simp: Let_def takeWhile_append takeWhile_eq_all_conv)
  qed
qed simp

lemma Split_nonempty [simp]: "Split s c \<noteq> []"
  by (induction s) (auto split: list.splits)

lemma JoinSep_Cons: "ys \<noteq> [] \<Longrightarrow> JoinSep (x # ys) sep = x @ sep @ JoinSep ys sep"
  by (cases ys) auto

lemma JoinSep_Split: "JoinSep (Split s c) [c] = s"
proof (induction s)
  case (Cons x s)
  show ?case
  proof (cases "Split s c")
    case Nil
    then show ?thesis by simp
  next
    case (Cons y ys)
    then show ?thesis using Cons.IH by (cases ys) (auto simp: JoinSep_Cons)
  qed
qed simp

lemma Split_no_sep: "q \<in> set (Split s c) \<Longrightarrow> c \<notin> set q"
  by (induction s arbitrary: q) (auto split: list.splits if_splits)

lemma Split_append_sep: "c \<notin> set a \<Longrightarrow> Split (a @ c # b) c = a # Split b c"
  by (induction a) auto

lemma Split_self: "c \<notin> set a \<Longrightarrow> Split a c = [a]"
  by (induction a) auto

lemma Split_JoinSep:
  "xs \<noteq> [] \<Longrightarrow> \<forall>x\<in>set xs. c \<notin> set x \<Longrightarrow> Split (JoinSep xs [c]) c = xs"
proof (induction xs rule: induct_list012)
  case (3 x y ys)
  then show ?case by (simp add: Split_append_sep)
qed (auto simp: Split_self)

lemma SplitN_3_cases:
  "SplitN s c 3 =
     (if c \<notin> set s then [s]
      else let r = tl (dropWhile (\<lambda>x. x \<noteq> c) s)
           in if c \<notin> set r then [takeWhile (\<lambda>x. x \<noteq> c) s, r]
              else [takeWhile (\<lambda>x. x \<noteq> c) s, takeWhile (\<lambda>x. x \<noteq> c) r,
                    tl (dropWhile (\<lambda>x. x \<noteq> c) r)])"
  by (simp add: numeral_3_eq_3 Let_def)

lemma ReplaceAll_delete_byte: "ReplaceAll s [c] [] = filter (\<lambda>x. x \<noteq> c) s"
  by (induction s) (auto simp: HasPrefix_def)

lemmas [gotext_simps] = HasPrefix_def HasSuffix_def TrimPrefix_def TrimSuffix_def

end
