(* ===== verification/Go_Conv.thy ===== *)
theory Go_Conv
  imports Go_Text
begin

text \<open>
  Conversions of Go's standard library: decimal numbers and booleans (strconv), the UTF-8
  decoding behind a range loop over a string (unicode/utf8), and lexical path processing
  (path). Integers are Go's 64-bit \<^verbatim>\<open>int\<close>: a number outside its range is an error.
\<close>

section \<open>Package strconv\<close>

definition digit_val :: "char \<Rightarrow> nat option" where
  "digit_val c = (let n = of_char c in if 48 \<le> n \<and> n \<le> 57 then Some (n - 48) else None)"

fun parse_digits :: "nat \<Rightarrow> string \<Rightarrow> nat option" where
  "parse_digits acc [] = Some acc"
| "parse_digits acc (c # s) =
     (case digit_val c of None \<Rightarrow> None | Some d \<Rightarrow> parse_digits (acc * 10 + d) s)"

definition int_range :: "int \<Rightarrow> int option" where
  "int_range i = (if -(2 ^ 63) \<le> i \<and> i < 2 ^ 63 then Some i else None)"

text \<open>Arithmetic on 64-bit integers, such as durations in nanoseconds, wraps around.\<close>

definition int64 :: "int \<Rightarrow> int" where
  "int64 i = (i + 2 ^ 63) mod 2 ^ 64 - 2 ^ 63"

definition Atoi :: "string \<Rightarrow> int option" where
  "Atoi s =
     (let (neg, ds) = (case s of [] \<Rightarrow> (False, [])
                        | c # r \<Rightarrow> if c = CHR ''-'' then (True, r)
                                  else if c = CHR ''+'' then (False, r) else (False, s))
      in if ds = [] then None
         else case parse_digits 0 ds of None \<Rightarrow> None
              | Some n \<Rightarrow> int_range (if neg then - int n else int n))"

definition ParseBool :: "string \<Rightarrow> bool option" where
  "ParseBool s =
     (if s \<in> set [''1'', ''t'', ''T'', ''TRUE'', ''true'', ''True''] then Some True
      else if s \<in> set [''0'', ''f'', ''F'', ''FALSE'', ''false'', ''False''] then Some False
      else None)"

fun FormatNat :: "nat \<Rightarrow> string" where
  "FormatNat n = (if n < 10 then [char_of (48 + n)] else FormatNat (n div 10) @ [char_of (48 + n mod 10)])"

declare FormatNat.simps [simp del]

lemma int_range_bounds: "int_range i = Some j \<Longrightarrow> j = i \<and> -(2 ^ 63) \<le> j \<and> j < 2 ^ 63"
  by (auto simp: int_range_def split: if_splits)

lemma int64_range: "-(2 ^ 63) \<le> int64 i \<and> int64 i < 2 ^ 63"
  by (simp add: int64_def)

lemma int64_id: "-(2 ^ 63) \<le> i \<Longrightarrow> i < 2 ^ 63 \<Longrightarrow> int64 i = i"
  by (simp add: int64_def)

lemma Atoi_bounds: "Atoi s = Some i \<Longrightarrow> -(2 ^ 63) \<le> i \<and> i < 2 ^ 63"
  by (auto simp: Atoi_def Let_def dest!: int_range_bounds split: option.splits if_splits list.splits prod.splits)

lemma Atoi_Nil [simp]: "Atoi [] = None"
  by (simp add: Atoi_def)

lemma ParseBool_Nil [simp]: "ParseBool [] = None"
  by (simp add: ParseBool_def)

lemma FormatNat_nonempty [simp]: "FormatNat n \<noteq> []"
  by (subst FormatNat.simps) simp

lemma digit_val_char_of: "d < 10 \<Longrightarrow> digit_val (char_of (48 + d)) = Some d"
  by (simp add: digit_val_def Let_def)

lemma parse_digits_append:
  "parse_digits a (s @ t) = (case parse_digits a s of None \<Rightarrow> None | Some b \<Rightarrow> parse_digits b t)"
  by (induction s arbitrary: a) (auto split: option.splits)

lemma parse_digits_FormatNat: "parse_digits 0 (FormatNat n) = Some n"
proof (induction n rule: FormatNat.induct)
  case (1 n)
  show ?case
  proof (cases "n < 10")
    case True
    then show ?thesis by (subst FormatNat.simps) (simp add: digit_val_char_of)
  next
    case False
    with 1 have "parse_digits 0 (FormatNat (n div 10)) = Some (n div 10)" by simp
    with False show ?thesis
      by (subst FormatNat.simps) (simp add: parse_digits_append digit_val_char_of)
  qed
qed

lemma FormatNat_inject: "FormatNat m = FormatNat n \<longleftrightarrow> m = n"
  by (metis option.inject parse_digits_FormatNat)

lemma FormatNat_digits: "c \<in> set (FormatNat n) \<Longrightarrow> 48 \<le> (of_char c :: nat) \<and> (of_char c :: nat) \<le> 57"
proof (induction n arbitrary: c rule: FormatNat.induct)
  case (1 n)
  then show ?case
    by (subst (asm) (2) FormatNat.simps) (auto split: if_splits)
qed

section \<open>Package unicode/utf8\<close>

definition cont_byte :: "nat \<Rightarrow> nat \<Rightarrow> char \<Rightarrow> bool" where
  "cont_byte lo hi c \<longleftrightarrow> lo \<le> of_char c \<and> of_char c \<le> hi"

text \<open>The first rune of a string and its width; an invalid encoding is U+FFFD of width 1.\<close>

definition DecodeRune :: "string \<Rightarrow> nat \<times> nat" where
  "DecodeRune s =
     (case s of [] \<Rightarrow> (0xFFFD, 0)
      | c0 # r \<Rightarrow>
        (let b0 = of_char c0 in
         if b0 < 0x80 then (b0, 1)
         else if 0xC2 \<le> b0 \<and> b0 \<le> 0xDF then
           (case r of c1 # _ \<Rightarrow>
               if cont_byte 0x80 0xBF c1 then (b0 mod 32 * 64 + of_char c1 mod 64, 2) else (0xFFFD, 1)
            | _ \<Rightarrow> (0xFFFD, 1))
         else if 0xE0 \<le> b0 \<and> b0 \<le> 0xEF then
           (case r of c1 # c2 # _ \<Rightarrow>
               if cont_byte (if b0 = 0xE0 then 0xA0 else 0x80) (if b0 = 0xED then 0x9F else 0xBF) c1
                  \<and> cont_byte 0x80 0xBF c2
               then (b0 mod 16 * 4096 + of_char c1 mod 64 * 64 + of_char c2 mod 64, 3) else (0xFFFD, 1)
            | _ \<Rightarrow> (0xFFFD, 1))
         else if 0xF0 \<le> b0 \<and> b0 \<le> 0xF4 then
           (case r of c1 # c2 # c3 # _ \<Rightarrow>
               if cont_byte (if b0 = 0xF0 then 0x90 else 0x80) (if b0 = 0xF4 then 0x8F else 0xBF) c1
                  \<and> cont_byte 0x80 0xBF c2 \<and> cont_byte 0x80 0xBF c3
               then (b0 mod 8 * 262144 + of_char c1 mod 64 * 4096 + of_char c2 mod 64 * 64
                       + of_char c3 mod 64, 4)
               else (0xFFFD, 1)
            | _ \<Rightarrow> (0xFFFD, 1))
         else (0xFFFD, 1)))"

lemma DecodeRune_width: "s \<noteq> [] \<Longrightarrow> 1 \<le> snd (DecodeRune s) \<and> snd (DecodeRune s) \<le> 4"
  by (auto simp: DecodeRune_def Let_def split: list.splits)

text \<open>The runes that \<^verbatim>\<open>for _, c := range s\<close> visits.\<close>

function runes :: "string \<Rightarrow> nat list" where
  "runes s = (if s = [] then [] else fst (DecodeRune s) # runes (drop (snd (DecodeRune s)) s))"
  by pat_completeness auto
termination
proof (relation "measure length")
  fix s :: string
  assume "s \<noteq> []"
  with DecodeRune_width [of s] show "(drop (snd (DecodeRune s)) s, s) \<in> measure length"
    by (cases s) auto
qed simp

declare runes.simps [simp del]

lemma runes_Nil [simp]: "runes [] = []"
  by (subst runes.simps) simp

lemma runes_ascii_Cons: "of_char c < (0x80 :: nat) \<Longrightarrow> runes (c # s) = of_char c # runes s"
  by (subst runes.simps) (simp add: DecodeRune_def)

lemma runes_ascii: "\<forall>c\<in>set s. of_char c < (0x80 :: nat) \<Longrightarrow> runes s = map of_char s"
  by (induction s) (simp_all add: runes_ascii_Cons)

end
