(* ===== verification/Config.thy ===== *)
theory Config
  imports Go_Conv
begin

text \<open>
  Package config (config.go): validation of Pod annotations, merging of annotations and
  environment variables into settings, validation of the settings and the construction of
  the configuration. The environment (\<^verbatim>\<open>os.Getenv\<close>) and \<^verbatim>\<open>time.ParseDuration\<close> are
  parameters; a failed ParseDuration returns the duration 0 with its error. Log and error
  messages are values of a datatype named after the message codes.
\<close>

section \<open>Constants and data\<close>

abbreviation "K8s \<equiv> ''k8s_secrets''"
abbreviation "File \<equiv> ''file''"
abbreviation "ConjurMapKey \<equiv> ''conjur-map''"

definition DefaultRetryCountLimit :: int where "DefaultRetryCountLimit = 5"
definition DefaultRetryCountLimitStandalone :: int where "DefaultRetryCountLimitStandalone = -1"
definition DefaultRetryIntervalSec :: int where "DefaultRetryIntervalSec = 1"
definition MinRetryCountLimit :: int where "MinRetryCountLimit = -1"
definition MinRetryIntervalSec :: int where "MinRetryIntervalSec = 0"
definition MinRefreshInterval :: int where "MinRefreshInterval = 1000000000"
definition DefaultRefreshIntervalStr :: string where "DefaultRefreshIntervalStr = ''5m''"
definition DefaultSanitizeEnabled :: bool where "DefaultSanitizeEnabled = True"

lemmas config_consts = DefaultRetryCountLimit_def DefaultRetryCountLimitStandalone_def
  DefaultRetryIntervalSec_def MinRetryCountLimit_def MinRetryIntervalSec_def
  MinRefreshInterval_def DefaultRefreshIntervalStr_def DefaultSanitizeEnabled_def

record Config =
  PodNamespace :: string
  RequiredK8sSecrets :: "string list"
  RetryCountLimit :: int
  RetryIntervalSec :: int
  StoreType :: string
  SecretsRefreshInterval :: int
  SanitizeEnabled :: bool
  ContainerMode :: string
  NamespaceAllowlist :: string
  ServerAddress :: string

datatype annotationType = TYPESTRING | TYPEINT | TYPEBOOL

record annotationRestraints =
  allowedType :: annotationType
  allowedValues :: "string list"

datatype message =
    CSPFK004E string | CSPFK005E string | CSPFK011I string | CSPFK012I string string string
  | CSPFK024I | CSPFK037I | CSPFK042E string string string | CSPFK043E string string "string list"
  | CSPFK046E | CSPFK047E | CSPFK050E string string | CSPFK051E string string
  | CSPFK052E string | CSPFK093E string

abbreviation "AuthnIdentityKey \<equiv> ''conjur.org/authn-identity''"
abbreviation "JwtTokenPath \<equiv> ''conjur.org/jwt-token-path''"
abbreviation "ContainerModeKey \<equiv> ''conjur.org/container-mode''"
abbreviation "NamespaceAllowlistKey \<equiv> ''conjur.org/namespace-allowlist''"
abbreviation "SecretsDestinationKey \<equiv> ''conjur.org/secrets-destination''"
abbreviation "k8sSecretsKey \<equiv> ''conjur.org/k8s-secrets''"
abbreviation "retryCountLimitKey \<equiv> ''conjur.org/retry-count-limit''"
abbreviation "retryIntervalSecKey \<equiv> ''conjur.org/retry-interval-sec''"
abbreviation "SecretsRefreshIntervalKey \<equiv> ''conjur.org/secrets-refresh-interval''"
abbreviation "SecretsRefreshEnabledKey \<equiv> ''conjur.org/secrets-refresh-enabled''"
abbreviation "RemoveDeletedSecretsKey \<equiv> ''conjur.org/remove-deleted-secrets-enabled''"
abbreviation "debugLoggingKey \<equiv> ''conjur.org/debug-logging''"
abbreviation "logLevelKey \<equiv> ''conjur.org/log-level''"
abbreviation "logTracesKey \<equiv> ''conjur.org/log-traces''"
abbreviation "jaegerCollectorUrl \<equiv> ''conjur.org/jaeger-collector-url''"
abbreviation "ManagedByProviderKey \<equiv> ''conjur.org/managed-by-provider''"
abbreviation "ServerAddressKey \<equiv> ''conjur.org/server-address''"

abbreviation restraint :: "annotationType \<Rightarrow> string list \<Rightarrow> annotationRestraints" where
  "restraint t vs \<equiv> \<lparr>allowedType = t, allowedValues = vs\<rparr>"

definition secretsProviderAnnotations :: "(string, annotationRestraints) gomap" where
  "secretsProviderAnnotations =
     [(AuthnIdentityKey, restraint TYPESTRING []),
      (JwtTokenPath, restraint TYPESTRING []),
      (ContainerModeKey, restraint TYPESTRING [''init'', ''application'', ''sidecar'', ''standalone'']),
      (NamespaceAllowlistKey, restraint TYPESTRING []),
      (SecretsDestinationKey, restraint TYPESTRING [''file'', ''k8s_secrets'']),
      (k8sSecretsKey, restraint TYPESTRING []),
      (retryCountLimitKey, restraint TYPEINT []),
      (retryIntervalSecKey, restraint TYPEINT []),
      (SecretsRefreshIntervalKey, restraint TYPESTRING []),
      (SecretsRefreshEnabledKey, restraint TYPEBOOL []),
      (RemoveDeletedSecretsKey, restraint TYPEBOOL []),
      (debugLoggingKey, restraint TYPEBOOL []),
      (logLevelKey, restraint TYPESTRING [''debug'', ''info'', ''warn'', ''error'']),
      (logTracesKey, restraint TYPEBOOL []),
      (jaegerCollectorUrl, restraint TYPESTRING []),
      (ServerAddressKey, restraint TYPESTRING [])]"

definition pushToFileAnnotationPrefixes :: "(string, annotationRestraints) gomap" where
  "pushToFileAnnotationPrefixes =
     [(''conjur.org/conjur-secrets.'', restraint TYPESTRING []),
      (''conjur.org/conjur-secrets-policy-path.'', restraint TYPESTRING []),
      (''conjur.org/secret-file-path.'', restraint TYPESTRING []),
      (''conjur.org/secret-file-format.'',
         restraint TYPESTRING [''yaml'', ''json'', ''dotenv'', ''bash'', ''properties'', ''template'']),
      (''conjur.org/secret-file-permissions.'', restraint TYPESTRING []),
      (''conjur.org/secret-file-template.'', restraint TYPESTRING [])]"

definition validEnvVars :: "string list" where
  "validEnvVars =
     [''MY_POD_NAMESPACE'', ''SECRETS_DESTINATION'', ''K8S_SECRETS'', ''RETRY_INTERVAL_SEC'',
      ''RETRY_COUNT_LIMIT'', ''JWT_TOKEN_PATH'', ''REMOVE_DELETED_SECRETS'', ''CONTAINER_MODE'',
      ''NAMESPACE_ALLOWLIST'', ''SERVER_ADDRESS'']"

section \<open>Annotation validation\<close>

fun valueInArray :: "string \<Rightarrow> string list \<Rightarrow> bool" where
  "valueInArray value [] = False"
| "valueInArray value (item # items) = (value = item \<or> valueInArray value items)"

fun valuePrefixInMapKeys :: "string \<Rightarrow> (string, annotationRestraints) gomap \<Rightarrow> string \<times> bool" where
  "valuePrefixInMapKeys value [] = ([], False)"
| "valuePrefixInMapKeys value ((key, r) # m) =
     (if HasPrefix value key then (key, True) else valuePrefixInMapKeys value m)"

text \<open>The key or its prefix, the map it was found in, and the message if it was not found.\<close>

definition validateAnnotationKey ::
  "string \<Rightarrow> string \<times> (string, annotationRestraints) gomap \<times> message option" where
  "validateAnnotationKey key =
     (if HasPrefix key ''conjur.org/'' then
        if ghas secretsProviderAnnotations key then (key, secretsProviderAnnotations, None)
        else case valuePrefixInMapKeys key pushToFileAnnotationPrefixes of
          (pre, True) \<Rightarrow> (pre, pushToFileAnnotationPrefixes, None)
        | (_, False) \<Rightarrow> ([], [], Some (CSPFK011I key))
      else ([], [], None))"

definition validateAnnotationValue ::
  "string \<Rightarrow> string \<Rightarrow> annotationRestraints \<Rightarrow> message option" where
  "validateAnnotationValue key value acceptedValueInfo =
     (case allowedType acceptedValueInfo of
        TYPEINT \<Rightarrow> (case Atoi value of None \<Rightarrow> Some (CSPFK042E key value ''Integer'') | Some _ \<Rightarrow> None)
      | TYPEBOOL \<Rightarrow> (case ParseBool value of None \<Rightarrow> Some (CSPFK042E key value ''Boolean'') | Some _ \<Rightarrow> None)
      | TYPESTRING \<Rightarrow>
          (let acceptedValues = allowedValues acceptedValueInfo
           in if length acceptedValues > 0 \<and> \<not> valueInArray value acceptedValues
              then Some (CSPFK043E key value acceptedValues) else None))"

fun ValidateAnnotations :: "(string, string) gomap \<Rightarrow> message list \<times> message list" where
  "ValidateAnnotations [] = ([], [])"
| "ValidateAnnotations ((key, value) # annotations) =
     (let (errorList, infoList) = ValidateAnnotations annotations in
      case validateAnnotationKey key of
        (match, foundMap, None) \<Rightarrow>
          (case validateAnnotationValue key value (gget (restraint TYPESTRING []) foundMap match) of
             Some err \<Rightarrow> (err # errorList, infoList)
           | None \<Rightarrow> (errorList, infoList))
      | (_, _, Some err) \<Rightarrow> (errorList, err # infoList))"

section \<open>Settings\<close>

definition GatherSecretsProviderSettings ::
  "(string \<Rightarrow> string) \<Rightarrow> (string, string) gomap \<Rightarrow> (string, string) gomap" where
  "GatherSecretsProviderSettings Getenv annotations =
     (let masterMap = fold (\<lambda>(annotation, value) m.
              if ghas secretsProviderAnnotations annotation then gput annotation value m else m)
            annotations []
      in fold (\<lambda>envVar m. if Getenv envVar \<noteq> [] then gput envVar (Getenv envVar) m else m)
           validEnvVars masterMap)"

definition validStoreType :: "string \<Rightarrow> bool" where
  "validStoreType storeType \<longleftrightarrow> storeType \<in> set [K8s, File]"

definition validateStore :: "string \<Rightarrow> string \<times> message option" where
  "validateStore envStoreType =
     (if envStoreType = K8s then (envStoreType, None)
      else if envStoreType = File then ([], Some CSPFK047E)
      else if envStoreType = [] then ([], Some CSPFK046E)
      else ([], Some (CSPFK005E ''SECRETS_DESTINATION'')))"

text \<open>A setting that may come from an annotation or from the environment.\<close>

abbreviation setting :: "(string, string) gomap \<Rightarrow> string \<Rightarrow> string" where
  "setting settings k \<equiv> gget [] settings k"

definition annot_or_env :: "(string, string) gomap \<Rightarrow> string \<Rightarrow> string \<Rightarrow> string" where
  "annot_or_env settings annot env =
     (if setting settings annot = [] then setting settings env else setting settings annot)"

definition validRefreshInterval ::
  "(string \<Rightarrow> gerror + int) \<Rightarrow> string \<Rightarrow> string \<Rightarrow> (string, string) gomap \<Rightarrow> message option" where
  "validRefreshInterval ParseDuration intervalStr enableStr envAndAnnots =
     (let containerMode = annot_or_env envAndAnnots ContainerModeKey ''CONTAINER_MODE'' in
      if intervalStr \<noteq> [] \<or> enableStr \<noteq> [] then
        if containerMode \<noteq> ''sidecar'' \<and> containerMode \<noteq> ''standalone''
        then Some (CSPFK051E ''Secrets refresh is enabled while container mode is set to'' containerMode)
        else
          let enabled = (case ParseBool enableStr of Some b \<Rightarrow> b | None \<Rightarrow> False) in
          if intervalStr = [] \<and> enableStr \<noteq> [] then None
          else case ParseDuration intervalStr of
            Inl e \<Rightarrow> Some (CSPFK050E intervalStr e)
          | Inr duration \<Rightarrow>
              if \<not> enabled \<and> enableStr \<noteq> [] \<and> intervalStr \<noteq> []
              then Some (CSPFK050E intervalStr ''Secrets refresh interval set to value while enable is false'')
              else if duration < MinRefreshInterval
              then Some (CSPFK050E intervalStr ''Secrets refresh interval must be at least one second'')
              else None
      else None)"

text \<open>
  ValidateSecretsProviderSettings, in the order of the source: each step yields the errors
  and the infos it appends.
\<close>

definition validate_store_settings ::
  "(string, string) gomap \<Rightarrow> string \<times> message list \<times> message list" where
  "validate_store_settings envAndAnnots =
     (let envStoreType = setting envAndAnnots ''SECRETS_DESTINATION'';
          annotStoreType = setting envAndAnnots SecretsDestinationKey
      in if annotStoreType = [] then
           (case validateStore envStoreType of (storeType, err) \<Rightarrow>
              (storeType, (case err of Some e \<Rightarrow> [e] | None \<Rightarrow> []), []))
         else if validStoreType annotStoreType then
           (annotStoreType, [],
            if validStoreType envStoreType
            then [CSPFK012I ''StoreType'' ''SECRETS_DESTINATION'' SecretsDestinationKey] else [])
         else ([], [CSPFK043E SecretsDestinationKey annotStoreType [File, K8s]], []))"

definition validate_standalone ::
  "(string, string) gomap \<Rightarrow> string \<Rightarrow> message list \<times> message list" where
  "validate_standalone envAndAnnots storeType =
     (let namespaceAllowlist = annot_or_env envAndAnnots NamespaceAllowlistKey ''NAMESPACE_ALLOWLIST''
      in ((if TrimSpace namespaceAllowlist = [] then [CSPFK052E ''Namespace allowlist''] else [])
          @ (if TrimSpace (setting envAndAnnots k8sSecretsKey) \<noteq> []
                \<or> TrimSpace (setting envAndAnnots ''K8S_SECRETS'') \<noteq> []
             then [CSPFK093E ''Required K8s secrets''] else [])
          @ (if storeType = ''file'' then [CSPFK093E ''File store type''] else []),
          if TrimSpace namespaceAllowlist \<noteq> [] \<and> TrimSpace namespaceAllowlist = ''*''
          then [CSPFK037I] else []))"

definition both_set :: "(string, string) gomap \<Rightarrow> string \<Rightarrow> string \<Rightarrow> string \<Rightarrow> message list" where
  "both_set envAndAnnots what env annot =
     (if setting envAndAnnots annot \<noteq> [] \<and> setting envAndAnnots env \<noteq> []
      then [CSPFK012I what env annot] else [])"

definition ValidateSecretsProviderSettings ::
  "(string \<Rightarrow> gerror + int) \<Rightarrow> (string, string) gomap \<Rightarrow> message list \<times> message list" where
  "ValidateSecretsProviderSettings ParseDuration envAndAnnots =
     (let nsErrs = (if setting envAndAnnots ''MY_POD_NAMESPACE'' = []
                    then [CSPFK004E ''MY_POD_NAMESPACE''] else []);
          (storeType, storeErrs, storeInfos) = validate_store_settings envAndAnnots;
          envK8sSecretsStr = setting envAndAnnots ''K8S_SECRETS'';
          annotK8sSecretsStr = setting envAndAnnots k8sSecretsKey;
          secretsInfos =
            (if storeType = ''k8s_secrets'' then
               if envK8sSecretsStr = [] \<and> annotK8sSecretsStr = [] then [CSPFK024I]
               else both_set envAndAnnots ''RequiredK8sSecrets'' ''K8S_SECRETS'' k8sSecretsKey
             else []);
          retryInfos = both_set envAndAnnots ''RetryCountLimit'' ''RETRY_COUNT_LIMIT'' retryCountLimitKey
                     @ both_set envAndAnnots ''RetryIntervalSec'' ''RETRY_INTERVAL_SEC'' retryIntervalSecKey;
          refreshErrs =
            (case validRefreshInterval ParseDuration (setting envAndAnnots SecretsRefreshIntervalKey)
                    (setting envAndAnnots SecretsRefreshEnabledKey) envAndAnnots of
               Some e \<Rightarrow> [e] | None \<Rightarrow> []);
          containerMode = annot_or_env envAndAnnots ContainerModeKey ''CONTAINER_MODE'';
          modeInfos = both_set envAndAnnots ''ContainerMode'' ''CONTAINER_MODE'' ContainerModeKey;
          (saErrs, saInfos) = (if containerMode = ''standalone''
                               then validate_standalone envAndAnnots storeType else ([], []))
      in (nsErrs @ storeErrs @ refreshErrs @ saErrs,
          storeInfos @ secretsInfos @ retryInfos @ modeInfos @ saInfos))"

section \<open>NewConfig\<close>

definition parseIntFromStringOrDefault :: "string \<Rightarrow> int \<Rightarrow> int \<Rightarrow> int" where
  "parseIntFromStringOrDefault value defaultValue minValue =
     (case Atoi value of None \<Rightarrow> defaultValue
      | Some valueInt \<Rightarrow> if valueInt < minValue then defaultValue else valueInt)"

definition parseBoolFromStringOrDefault :: "string \<Rightarrow> bool \<Rightarrow> bool" where
  "parseBoolFromStringOrDefault value defaultValue =
     (case ParseBool value of None \<Rightarrow> defaultValue | Some b \<Rightarrow> b)"

text \<open>The in-place filter loop: the read index runs ahead of the write index.\<close>

function compact_from :: "nat \<Rightarrow> nat \<Rightarrow> string list \<Rightarrow> string list" where
  "compact_from i writeIndex arr =
     (if i < length arr then
        if arr ! i \<noteq> [] then compact_from (Suc i) (Suc writeIndex) (arr[writeIndex := arr ! i])
        else compact_from (Suc i) writeIndex arr
      else take writeIndex arr)"
  by pat_completeness auto
termination
  by (relation "measure (\<lambda>(i, w, arr). length arr - i)") auto

declare compact_from.simps [simp del]

definition parseK8sSecretsList :: "(string, string) gomap \<Rightarrow> string list" where
  "parseK8sSecretsList settings =
     (let k8sSecretsStr = setting settings k8sSecretsKey in
      compact_from 0 0
       (if k8sSecretsStr \<noteq> []
        then Split (ReplaceAll k8sSecretsStr ''- '' []) (CHR 0x0A)
        else Split (ReplaceAll (setting settings ''K8S_SECRETS'') '' '' []) (CHR '','')))"

definition NewConfig :: "(string \<Rightarrow> gerror + int) \<Rightarrow> (string, string) gomap \<Rightarrow> Config" where
  "NewConfig ParseDuration settings =
     (let storeType = annot_or_env settings SecretsDestinationKey ''SECRETS_DESTINATION'';
          k8sSecretsArr = (if storeType \<noteq> ''file'' then parseK8sSecretsList settings else []);
          containerMode = annot_or_env settings ContainerModeKey ''CONTAINER_MODE'';
          retryCountLimitStr = annot_or_env settings retryCountLimitKey ''RETRY_COUNT_LIMIT'';
          defaultRetryLimit = (if retryCountLimitStr = [] \<and> containerMode = ''standalone''
                               then DefaultRetryCountLimitStandalone else DefaultRetryCountLimit);
          retryIntervalSecStr = annot_or_env settings retryIntervalSecKey ''RETRY_INTERVAL_SEC'';
          refreshEnableStr = setting settings SecretsRefreshEnabledKey;
          refreshIntervalStr =
            (if setting settings SecretsRefreshIntervalKey = [] \<and> refreshEnableStr = ''true''
             then DefaultRefreshIntervalStr else setting settings SecretsRefreshIntervalKey)
      in \<lparr>PodNamespace = setting settings ''MY_POD_NAMESPACE'',
          RequiredK8sSecrets = k8sSecretsArr,
          RetryCountLimit =
            parseIntFromStringOrDefault retryCountLimitStr defaultRetryLimit MinRetryCountLimit,
          RetryIntervalSec =
            parseIntFromStringOrDefault retryIntervalSecStr DefaultRetryIntervalSec MinRetryIntervalSec,
          StoreType = storeType,
          SecretsRefreshInterval = (case ParseDuration refreshIntervalStr of Inr d \<Rightarrow> d | Inl _ \<Rightarrow> 0),
          SanitizeEnabled =
            parseBoolFromStringOrDefault
              (annot_or_env settings RemoveDeletedSecretsKey ''REMOVE_DELETED_SECRETS'')
              DefaultSanitizeEnabled,
          ContainerMode = containerMode,
          NamespaceAllowlist = annot_or_env settings NamespaceAllowlistKey ''NAMESPACE_ALLOWLIST'',
          ServerAddress = annot_or_env settings ServerAddressKey ''SERVER_ADDRESS''\<rparr>)"

section \<open>Lemmas\<close>

lemma valueInArray_iff: "valueInArray v xs \<longleftrightarrow> v \<in> set xs"
  by (induction xs) auto

lemma valuePrefixInMapKeys_sound:
  "valuePrefixInMapKeys v m = (k, True) \<Longrightarrow> k \<in> fst ` set m \<and> HasPrefix v k"
  by (induction v m rule: valuePrefixInMapKeys.induct) (auto split: if_splits)

lemma valuePrefixInMapKeys_None:
  "snd (valuePrefixInMapKeys v m) \<longleftrightarrow> (\<exists>k\<in>fst ` set m. HasPrefix v k)"
  by (induction v m rule: valuePrefixInMapKeys.induct) (auto split: if_splits)

lemma valuePrefixInMapKeys_absent: "\<not> snd (valuePrefixInMapKeys v m) \<Longrightarrow> valuePrefixInMapKeys v m = ([], False)"
  by (induction v m rule: valuePrefixInMapKeys.induct) (auto split: if_splits)

lemma HasPrefix_same_length: "HasPrefix v p \<Longrightarrow> HasPrefix v q \<Longrightarrow> length p \<le> length q \<Longrightarrow> HasPrefix q p"
  by (meson HasPrefix_iff prefix_length_prefix)

text \<open>No prefix of the table is a prefix of another one, so the match is unique.\<close>

lemma push_prefixes_incomparable:
  assumes "p \<in> fst ` set pushToFileAnnotationPrefixes" and "q \<in> fst ` set pushToFileAnnotationPrefixes"
    and "HasPrefix q p"
  shows "p = q"
proof -
  have "\<forall>p\<in>set (gkeys pushToFileAnnotationPrefixes). \<forall>q\<in>set (gkeys pushToFileAnnotationPrefixes).
          HasPrefix q p \<longrightarrow> p = q"
    by code_simp
  with assms show ?thesis by (auto simp: gkeys_def)
qed

lemma push_prefix_unique:
  assumes "p \<in> fst ` set pushToFileAnnotationPrefixes" and "q \<in> fst ` set pushToFileAnnotationPrefixes"
    and "HasPrefix v p" and "HasPrefix v q"
  shows "p = q"
  using assms HasPrefix_same_length [of v p q] HasPrefix_same_length [of v q p]
    push_prefixes_incomparable [of p q] push_prefixes_incomparable [of q p] nat_le_linear by metis

lemma valuePrefixInMapKeys_unique:
  assumes uniq: "\<And>p q. p \<in> fst ` set m \<Longrightarrow> q \<in> fst ` set m \<Longrightarrow> HasPrefix v p \<Longrightarrow> HasPrefix v q \<Longrightarrow> p = q"
    and same: "set m' = set m"
  shows "valuePrefixInMapKeys v m' = valuePrefixInMapKeys v m"
proof (cases "snd (valuePrefixInMapKeys v m)")
  case True
  then have "snd (valuePrefixInMapKeys v m')"
    using same by (simp add: valuePrefixInMapKeys_None)
  with True obtain k k' where k: "valuePrefixInMapKeys v m = (k, True)"
    and k': "valuePrefixInMapKeys v m' = (k', True)"
    by (metis prod.collapse)
  then have "k = k'"
    using uniq same valuePrefixInMapKeys_sound [OF k] valuePrefixInMapKeys_sound [OF k'] by auto
  then show ?thesis using k k' by simp
next
  case False
  then have "\<not> snd (valuePrefixInMapKeys v m')"
    using same by (simp add: valuePrefixInMapKeys_None)
  then show ?thesis using False by (simp add: valuePrefixInMapKeys_absent)
qed

lemma compact_from_filter:
  "w \<le> i \<Longrightarrow> compact_from i w arr = take w arr @ filter (\<lambda>s. s \<noteq> []) (drop i arr)"
proof (induction i w arr rule: compact_from.induct)
  case (1 i w arr)
  show ?case
  proof (cases "i < length arr")
    case in_range: True
    then have d: "drop i arr = arr ! i # drop (Suc i) arr"
      by (simp add: Cons_nth_drop_Suc)
    show ?thesis
    proof (cases "arr ! i = []")
      case True
      then show ?thesis using 1 in_range d by (simp add: compact_from.simps [of i w arr])
    next
      case False
      have "take (Suc w) (arr[w := arr ! i]) = take w arr @ [arr ! i]"
        using in_range "1.prems" by (simp add: take_Suc_conv_app_nth)
      then show ?thesis
        using 1 in_range d False by (simp add: compact_from.simps [of i w arr])
    qed
  next
    case False
    then show ?thesis by (simp add: compact_from.simps [of i w arr])
  qed
qed

lemma parseInt_min: "minValue \<le> d \<Longrightarrow> minValue \<le> parseIntFromStringOrDefault v d minValue"
  by (auto simp: parseIntFromStringOrDefault_def split: option.splits)

lemma ValidateSettings_errors:
  "fst (ValidateSecretsProviderSettings pd s) =
     (if setting s ''MY_POD_NAMESPACE'' = [] then [CSPFK004E ''MY_POD_NAMESPACE''] else [])
     @ fst (snd (validate_store_settings s))
     @ (case validRefreshInterval pd (setting s SecretsRefreshIntervalKey)
              (setting s SecretsRefreshEnabledKey) s of Some e \<Rightarrow> [e] | None \<Rightarrow> [])
     @ (if annot_or_env s ContainerModeKey ''CONTAINER_MODE'' = ''standalone''
        then fst (validate_standalone s (fst (validate_store_settings s))) else [])"
  by (simp add: ValidateSecretsProviderSettings_def Let_def split_beta if_distrib [of fst])

lemma validated_parts:
  assumes "fst (ValidateSecretsProviderSettings pd s) = []"
  shows "setting s ''MY_POD_NAMESPACE'' \<noteq> []"
    and "fst (snd (validate_store_settings s)) = []"
    and "validRefreshInterval pd (setting s SecretsRefreshIntervalKey)
           (setting s SecretsRefreshEnabledKey) s = None"
    and "annot_or_env s ContainerModeKey ''CONTAINER_MODE'' = ''standalone'' \<Longrightarrow>
           fst (validate_standalone s (fst (validate_store_settings s))) = []"
  using assms unfolding ValidateSettings_errors append_is_Nil_conv
  by (simp_all split: if_splits option.splits)

lemma validated_store:
  assumes "fst (snd (validate_store_settings s)) = []"
  shows "fst (validate_store_settings s) = annot_or_env s SecretsDestinationKey ''SECRETS_DESTINATION''"
    and "validStoreType (fst (validate_store_settings s))"
  using assms
  by (auto simp: validate_store_settings_def validateStore_def annot_or_env_def validStoreType_def Let_def
      split: if_splits option.splits)

lemma validated_refresh:
  assumes ok: "validRefreshInterval pd i en s = None" and i: "i \<noteq> []"
  shows "\<exists>d. pd i = Inr d \<and> MinRefreshInterval \<le> d"
    and "annot_or_env s ContainerModeKey ''CONTAINER_MODE'' \<in> {''sidecar'', ''standalone''}"
  using ok i by (auto simp: validRefreshInterval_def Let_def split: if_splits sum.splits)

lemma validated_refresh_mode:
  assumes ok: "validRefreshInterval pd i en s = None" and "en \<noteq> []"
  shows "annot_or_env s ContainerModeKey ''CONTAINER_MODE'' \<in> {''sidecar'', ''standalone''}"
  using assms by (auto simp: validRefreshInterval_def Let_def split: if_splits sum.splits)

lemma NewConfig_refresh:
  assumes ok: "validRefreshInterval pd (setting s SecretsRefreshIntervalKey)
                 (setting s SecretsRefreshEnabledKey) s = None"
    and empty: "pd [] = Inl e0" and def: "pd DefaultRefreshIntervalStr = Inr 300000000000"
  shows "SecretsRefreshInterval (NewConfig pd s) = 0
       \<or> MinRefreshInterval \<le> SecretsRefreshInterval (NewConfig pd s)
          \<and> ContainerMode (NewConfig pd s) \<in> {''sidecar'', ''standalone''}"
proof (cases "setting s SecretsRefreshIntervalKey = []")
  case True
  then show ?thesis
    using empty def validated_refresh_mode [OF ok]
    by (simp add: NewConfig_def Let_def MinRefreshInterval_def)
next
  case False
  with validated_refresh [OF ok] show ?thesis
    by (auto simp: NewConfig_def Let_def)
qed

section \<open>Properties\<close>

text \<open>
  (C16) Settings that ValidateSecretsProviderSettings accepts give a usable configuration: a
  namespace, a supported store type, retry values within their bounds, a refresh interval
  that is off or at least one second (and then only in sidecar or standalone mode), and in
  standalone mode the Kubernetes store with a non-blank namespace allowlist.
\<close>

theorem validated_settings_config:
  assumes valid: "fst (ValidateSecretsProviderSettings pd s) = []"
    and empty: "pd [] = Inl e0" and def: "pd DefaultRefreshIntervalStr = Inr 300000000000"
  shows "PodNamespace (NewConfig pd s) \<noteq> []
       \<and> validStoreType (StoreType (NewConfig pd s))
       \<and> -1 \<le> RetryCountLimit (NewConfig pd s) \<and> 0 \<le> RetryIntervalSec (NewConfig pd s)
       \<and> (SecretsRefreshInterval (NewConfig pd s) = 0
          \<or> MinRefreshInterval \<le> SecretsRefreshInterval (NewConfig pd s)
             \<and> ContainerMode (NewConfig pd s) \<in> {''sidecar'', ''standalone''})
       \<and> (ContainerMode (NewConfig pd s) = ''standalone'' \<longrightarrow>
            StoreType (NewConfig pd s) = K8s \<and> TrimSpace (NamespaceAllowlist (NewConfig pd s)) \<noteq> [])"
proof (intro conjI)
  note parts = validated_parts [OF valid]
  note store = validated_store [OF parts(2)]
  show "PodNamespace (NewConfig pd s) \<noteq> []"
    using parts(1) by (simp add: NewConfig_def Let_def)
  show "validStoreType (StoreType (NewConfig pd s))"
    using store by (simp add: NewConfig_def Let_def)
  show "-1 \<le> RetryCountLimit (NewConfig pd s)" "0 \<le> RetryIntervalSec (NewConfig pd s)"
    using parseInt_min by (simp_all add: NewConfig_def Let_def config_consts)
  show "SecretsRefreshInterval (NewConfig pd s) = 0
      \<or> MinRefreshInterval \<le> SecretsRefreshInterval (NewConfig pd s)
         \<and> ContainerMode (NewConfig pd s) \<in> {''sidecar'', ''standalone''}"
    by (rule NewConfig_refresh [OF parts(3) empty def])
  show "ContainerMode (NewConfig pd s) = ''standalone'' \<longrightarrow>
          StoreType (NewConfig pd s) = K8s \<and> TrimSpace (NamespaceAllowlist (NewConfig pd s)) \<noteq> []"
    using parts(4) store
    by (auto simp: NewConfig_def validate_standalone_def validStoreType_def Let_def split: if_splits)
qed

text \<open>Standalone settings with an allowlist are accepted, so the theorem applies to them.\<close>

definition demo_duration :: "string \<Rightarrow> gerror + int" where
  "demo_duration d = (if d = ''5m'' then Inr 300000000000 else if d = ''10s'' then Inr 10000000000
                      else Inl ''invalid duration'')"

definition demo_settings :: "(string, string) gomap" where
  "demo_settings = [(''MY_POD_NAMESPACE'', ''ns''), (''SECRETS_DESTINATION'', ''k8s_secrets''),
     (''conjur.org/container-mode'', ''standalone''), (''conjur.org/namespace-allowlist'', ''ns'')]"

lemma demo_trim: "TrimSpace ''ns'' = ''ns''"
  by code_simp

lemma demo_trim_Nil: "TrimSpace [] = []"
  by code_simp

theorem validated_settings_config_witness:
  "PodNamespace (NewConfig demo_duration demo_settings) = ''ns''
   \<and> validStoreType (StoreType (NewConfig demo_duration demo_settings))"
proof -
  have v: "fst (ValidateSecretsProviderSettings demo_duration demo_settings) = []"
    by (simp add: ValidateSecretsProviderSettings_def validate_store_settings_def validateStore_def
        validRefreshInterval_def validate_standalone_def annot_or_env_def both_set_def gget_def
        demo_settings_def demo_trim demo_trim_Nil)
  have e: "demo_duration [] = Inl ''invalid duration''"
    and d: "demo_duration DefaultRefreshIntervalStr = Inr 300000000000"
    by (simp_all add: demo_duration_def DefaultRefreshIntervalStr_def)
  from validated_settings_config [OF v e d] show ?thesis
    by (simp add: NewConfig_def Let_def gget_def demo_settings_def)
qed

text \<open>
  The result of looking up a push-to-file annotation by prefix does not depend on the
  iteration order of the prefix table: in any order the loop finds the same prefix, because
  no prefix of the table extends another.
\<close>

lemma annotation_prefix_order_irrelevant:
  assumes "mset m = mset pushToFileAnnotationPrefixes"
  shows "valuePrefixInMapKeys key m = valuePrefixInMapKeys key pushToFileAnnotationPrefixes"
  using assms push_prefix_unique by (intro valuePrefixInMapKeys_unique) (auto dest: mset_eq_setD)

text \<open>
  The in-place compaction loop of parseK8sSecretsList returns exactly the non-empty
  entries in order, so no required secret name is empty.
\<close>

lemma parseK8sSecretsList_filter:
  "parseK8sSecretsList settings =
     filter (\<lambda>s. s \<noteq> [])
       (if setting settings k8sSecretsKey \<noteq> []
        then Split (ReplaceAll (setting settings k8sSecretsKey) ''- '' []) (CHR 0x0A)
        else Split (filter (\<lambda>c. c \<noteq> CHR '' '') (setting settings ''K8S_SECRETS'')) (CHR '',''))"
  by (simp add: parseK8sSecretsList_def compact_from_filter Let_def ReplaceAll_delete_byte)

text \<open>
  (C34) A value of secrets-refresh-enabled that both validations accept as true does not turn
  the refresh on unless it is spelt \<^verbatim>\<open>true\<close>: with \<^verbatim>\<open>True\<close> (or 1, t, T, TRUE) and no interval the
  annotations and settings are valid, ParseBool reads the value as true, and the refresh
  interval of the configuration is 0.
\<close>

theorem refresh_enabled_spelling:
  assumes en: "en \<in> {''1'', ''t'', ''T'', ''TRUE'', ''True''}" and empty: "pd [] = Inl e0"
    and s: "setting s SecretsRefreshEnabledKey = en" "setting s SecretsRefreshIntervalKey = []"
      "setting s ContainerModeKey = ''sidecar''"
  shows "ParseBool en = Some True
       \<and> validateAnnotationValue SecretsRefreshEnabledKey en (restraint TYPEBOOL []) = None
       \<and> validRefreshInterval pd (setting s SecretsRefreshIntervalKey) en s = None
       \<and> SecretsRefreshInterval (NewConfig pd s) = 0"
  using assms
  by (auto simp: ParseBool_def validateAnnotationValue_def validRefreshInterval_def annot_or_env_def
      NewConfig_def Let_def)

theorem refresh_enabled_spelling_witness:
  "SecretsRefreshInterval (NewConfig demo_duration
     [(SecretsRefreshEnabledKey, ''True''), (ContainerModeKey, ''sidecar'')]) = 0"
  using refresh_enabled_spelling [of "''True''" demo_duration "''invalid duration''"
      "[(SecretsRefreshEnabledKey, ''True''), (ContainerModeKey, ''sidecar'')]"]
  by (simp add: demo_duration_def gget_def)

end
