(* ===== verification/K8s_Client.thy ===== *)
theory K8s_Client
  imports Config
begin

text \<open>
  Package k8s (k8s\_secrets\_client.go): the three operations on Kubernetes Secrets. The API
  server is a parameter: a client whose calls see and change the world, of any type. When the
  client cannot be created the program goes on with a nil client, whose first use panics.
\<close>

section \<open>Kubernetes Secrets\<close>

text \<open>The parts of a Secret object that the program uses; the data map may be nil.\<close>

record v1_secret =
  sec_Name :: string
  sec_Namespace :: string
  sec_Labels :: "(string, string) gomap"
  sec_Annotations :: "(string, string) gomap"
  sec_Data :: "(string, string) gomap option"

definition data_of :: "v1_secret \<Rightarrow> (string, string) gomap" where
  "data_of s = (case sec_Data s of None \<Rightarrow> [] | Some m \<Rightarrow> m)"

text \<open>The client library: configuration and the three API calls.\<close>

record 'w kube_api =
  InClusterConfig :: "'w \<Rightarrow> gerror option"
  NewForConfig :: "'w \<Rightarrow> gerror option"
  api_get :: "string \<Rightarrow> string \<Rightarrow> 'w \<Rightarrow> (gerror + v1_secret) \<times> 'w"
  api_update :: "string \<Rightarrow> v1_secret \<Rightarrow> 'w \<Rightarrow> (gerror + v1_secret) \<times> 'w"
  api_list :: "string \<Rightarrow> string \<Rightarrow> 'w \<Rightarrow> (gerror + v1_secret list) \<times> 'w"

text \<open>\<^verbatim>\<open>log.RecordedError\<close> turns a message into an error.\<close>

type_synonym recorded_error = "string \<Rightarrow> gerror"

definition CSPFK018E :: string where "CSPFK018E = ''CSPFK018E Failed to create Kubernetes client''"
definition CSPFK019E :: string where
  "CSPFK019E = ''CSPFK019E Failed to load in-cluster Kubernetes client config''"
definition CSPFK020E :: string where "CSPFK020E = ''CSPFK020E Failed to retrieve Kubernetes Secret''"
definition CSPFK022E :: string where "CSPFK022E = ''CSPFK022E Failed to update Kubernetes Secret''"
definition CSPFK024E :: string where "CSPFK024E = ''CSPFK024E Failed to list labeled Kubernetes Secrets''"
definition CSPFK034E :: "string \<Rightarrow> string" where
  "CSPFK034E reason = ''CSPFK034E Failed to retrieve DAP/Conjur secrets. Reason: '' @ reason"

section \<open>Operations\<close>

definition configK8sClient :: "recorded_error \<Rightarrow> 'w kube_api \<Rightarrow> 'w \<Rightarrow> gerror + unit" where
  "configK8sClient recorded api w =
     (case InClusterConfig api w of
        Some _ \<Rightarrow> Inl (recorded CSPFK019E)
      | None \<Rightarrow> (case NewForConfig api w of Some _ \<Rightarrow> Inl (recorded CSPFK018E) | None \<Rightarrow> Inr ()))"

definition RetrieveK8sSecret ::
  "recorded_error \<Rightarrow> 'w kube_api \<Rightarrow> string \<Rightarrow> string \<Rightarrow> 'w \<Rightarrow> (gerror + v1_secret) outcome \<times> 'w" where
  "RetrieveK8sSecret recorded api namespace secretName w =
     (case configK8sClient recorded api w of
        Inl _ \<Rightarrow> (Panic, w)
      | Inr _ \<Rightarrow>
          (case api_get api namespace secretName w of
             (Inl _, w1) \<Rightarrow> (Ret (Inl (recorded CSPFK020E)), w1)
           | (Inr k8sSecret, w1) \<Rightarrow> (Ret (Inr k8sSecret), w1)))"

text \<open>The entries are put into the Data of the original object, which is then sent; a nil original panics.\<close>

definition put_entries :: "(string, string) gomap \<Rightarrow> (string, string) gomap \<Rightarrow> (string, string) gomap" where
  "put_entries entries d = fold (\<lambda>(k, v). gput k v) entries d"

definition UpdateK8sSecret ::
  "recorded_error \<Rightarrow> 'w kube_api \<Rightarrow> string \<Rightarrow> string \<Rightarrow> v1_secret option \<Rightarrow> (string, string) gomap \<Rightarrow> 'w
     \<Rightarrow> gerror option outcome \<times> 'w" where
  "UpdateK8sSecret recorded api namespace secretName originalK8sSecret stringDataEntriesMap w =
     (case originalK8sSecret of
        None \<Rightarrow> (Panic, w)
      | Some orig \<Rightarrow>
        (let d = (case sec_Data orig of None \<Rightarrow> [] | Some d \<Rightarrow> d);
             orig1 = orig\<lparr>sec_Data := Some (put_entries stringDataEntriesMap d)\<rparr>
         in case configK8sClient recorded api w of
              Inl _ \<Rightarrow> (Panic, w)
            | Inr _ \<Rightarrow>
                (case api_update api namespace orig1 w of
                   (Inl _, w1) \<Rightarrow> (Ret (Some (recorded CSPFK022E)), w1)
                 | (Inr _, w1) \<Rightarrow> (Ret None, w1))))"

definition ListLabeledK8sSecrets ::
  "recorded_error \<Rightarrow> 'w kube_api \<Rightarrow> string \<Rightarrow> 'w \<Rightarrow> (gerror + v1_secret list) outcome \<times> 'w" where
  "ListLabeledK8sSecrets recorded api namespace w =
     (case configK8sClient recorded api w of
        Inl _ \<Rightarrow> (Panic, w)
      | Inr _ \<Rightarrow>
          (case api_list api namespace (ManagedByProviderKey @ ''=true'') w of
             (Inl _, w1) \<Rightarrow> (Ret (Inl (recorded CSPFK024E)), w1)
           | (Inr secretList, w1) \<Rightarrow> (Ret (Inr secretList), w1)))"

section \<open>Lemmas\<close>

lemma put_entries_lookup:
  "gwf entries \<Longrightarrow> map_of (put_entries entries d) k = (case map_of entries k of None \<Rightarrow> map_of d k | Some v \<Rightarrow> Some v)"
  by (simp add: put_entries_def map_of_fold_gput gwf_def)

section \<open>Properties\<close>

text \<open>
  What an update sends: the API receives the original object with the same name, labels and
  annotations, whose data has every given entry and otherwise the original data; a nil data map
  counts as empty.
\<close>

lemma update_sends_merged_data:
  assumes "gwf entries" and "configK8sClient recorded api w = Inr ()"
  shows "\<exists>sent. UpdateK8sSecret recorded api ns name (Some orig) entries w =
       (case api_update api ns sent w of
          (Inl _, w1) \<Rightarrow> (Ret (Some (recorded CSPFK022E)), w1) | (Inr _, w1) \<Rightarrow> (Ret None, w1))
     \<and> sent = orig\<lparr>sec_Data := sec_Data sent\<rparr>
     \<and> (\<forall>k. map_of (data_of sent) k =
          (case map_of entries k of None \<Rightarrow> map_of (data_of orig) k | Some v \<Rightarrow> Some v))"
  using assms(2)
  by (intro exI [of _ "orig\<lparr>sec_Data := Some (put_entries entries (data_of orig))\<rparr>"])
    (simp add: UpdateK8sSecret_def data_of_def put_entries_lookup [OF assms(1)] Let_def cong: option.case_cong)

text \<open>An API server that stores the last update.\<close>

definition demo_api :: "v1_secret list kube_api" where
  "demo_api = \<lparr>InClusterConfig = (\<lambda>_. None), NewForConfig = (\<lambda>_. None),
     api_get = (\<lambda>ns n w. (case find (\<lambda>s. sec_Name s = n) w of None \<Rightarrow> Inl ''not found'' | Some s \<Rightarrow> Inr s, w)),
     api_update = (\<lambda>ns s w. (Inr s, map (\<lambda>t. if sec_Name t = sec_Name s then s else t) w)),
     api_list = (\<lambda>ns l w. (Inr w, w))\<rparr>"

end
