(* ===== verification/Base64.thy ===== *)
theory Base64
  imports Go_Text
begin

text \<open>
  Base64 as Go's \<^verbatim>\<open>base64.StdEncoding\<close> does it (padded, line breaks ignored on decoding), the
  two template functions built on it, and the interface the components rely on: a codec
  whose decoder undoes its encoder.
\<close>

section \<open>encoding/base64, StdEncoding\<close>

definition b64char :: "nat \<Rightarrow> char" where
  "b64char v = char_of (if v < 26 then v + 65 else if v < 52 then v + 71 else if v < 62 then v - 4
                        else if v = 62 then 43 else 47)"

definition b64val :: "char \<Rightarrow> nat option" where
  "b64val c = (let n = of_char c in
     if 65 \<le> n \<and> n \<le> 90 then Some (n - 65) else if 97 \<le> n \<and> n \<le> 122 then Some (n - 71)
     else if 48 \<le> n \<and> n \<le> 57 then Some (n + 4) else if n = 43 then Some 62
     else if n = 47 then Some 63 else None)"

definition padChar :: char where
  "padChar = CHR ''=''"

fun b64Encode :: "string \<Rightarrow> string" where
  "b64Encode [] = []"
| "b64Encode [x] =
     [b64char (of_char x div 4), b64char (of_char x mod 4 * 16), padChar, padChar]"
| "b64Encode [x, y] =
     [b64char (of_char x div 4), b64char (of_char x mod 4 * 16 + of_char y div 16),
      b64char (of_char y mod 16 * 4), padChar]"
| "b64Encode (x # y # z # r) =
     b64char (of_char x div 4) # b64char (of_char x mod 4 * 16 + of_char y div 16)
      # b64char (of_char y mod 16 * 4 + of_char z div 64) # b64char (of_char z mod 64) # b64Encode r"

text \<open>One quantum of four symbols, with line breaks already removed.\<close>

fun b64Quanta :: "string \<Rightarrow> string option" where
  "b64Quanta [] = Some []"
| "b64Quanta (a # b # c # d # r) =
     (case (b64val a, b64val b, b64val c, b64val d) of
        (Some i, Some j, Some k, Some l) \<Rightarrow>
          map_option (\<lambda>out. char_of (i * 4 + j div 16) # char_of (j mod 16 * 16 + k div 4)
                              # char_of (k mod 4 * 64 + l) # out) (b64Quanta r)
      | (Some i, Some j, Some k, None) \<Rightarrow>
          if d = padChar \<and> r = []
          then Some [char_of (i * 4 + j div 16), char_of (j mod 16 * 16 + k div 4)] else None
      | (Some i, Some j, None, _) \<Rightarrow>
          if c = padChar \<and> d = padChar \<and> r = [] then Some [char_of (i * 4 + j div 16)] else None
      | _ \<Rightarrow> None)"
| "b64Quanta _ = None"

definition is_line_break :: "char \<Rightarrow> bool" where
  "is_line_break c \<longleftrightarrow> c = CHR 0x0A \<or> c = CHR 0x0D"

definition b64Decode :: "string \<Rightarrow> string option" where
  "b64Decode s = b64Quanta (filter (\<lambda>c. \<not> is_line_break c) s)"

section \<open>Template functions (template\_functions.go)\<close>

definition b64encTemplateFunc :: "string \<Rightarrow> string" where
  "b64encTemplateFunc value = b64Encode value"

text \<open>A value that cannot be decoded makes the function panic.\<close>

definition b64decTemplateFunc :: "string \<Rightarrow> string outcome" where
  "b64decTemplateFunc encValue = (case b64Decode encValue of Some d \<Rightarrow> Ret d | None \<Rightarrow> Panic)"

section \<open>The codec interface\<close>

locale codec =
  fixes enc :: "'a \<Rightarrow> 'b" and dec :: "'b \<Rightarrow> 'a option"
  assumes dec_enc: "dec (enc x) = Some x"
begin

lemma enc_inj: "enc x = enc y \<longleftrightarrow> x = y"
  by (metis dec_enc option.inject)

text \<open>Decoding with a fall-back to the undecoded text, as both providers do it.\<close>

lemma dec_or_else: "(case dec (enc x) of Some y \<Rightarrow> y | None \<Rightarrow> d) = x"
  by (simp add: dec_enc)

end

lemma of_char_less [simp]: "of_char c < (256 :: nat)"
  by (cases c) simp

lemma b64val_b64char: "v < 64 \<Longrightarrow> b64val (b64char v) = Some v"
  by (auto simp: b64val_def b64char_def Let_def)

lemma b64char_no_break: "v < 64 \<Longrightarrow> \<not> is_line_break (b64char v)"
proof
  assume v: "v < 64" and "is_line_break (b64char v)"
  then have "b64val (CHR 0x0A) = Some v \<or> b64val (CHR 0x0D) = Some v"
    using b64val_b64char [OF v] by (auto simp: is_line_break_def)
  then show False by (simp add: b64val_def)
qed

lemma b64val_padChar [simp]: "b64val padChar = None"
  by (simp add: b64val_def padChar_def)

lemma pack:
  assumes "b < (n :: nat)"
  shows "(a * n + b) div n = a" and "(a * n + b) mod n = b"
  using assms by simp_all

lemma sextets:
  assumes x: "x < 256" and y: "y < 256" and z: "z < (256 :: nat)"
  shows "x div 4 < 64" and "x mod 4 * 16 < 64" and "x mod 4 * 16 + y div 16 < 64"
    and "y mod 16 * 4 < 64" and "y mod 16 * 4 + z div 64 < 64" and "z mod 64 < 64"
proof -
  have d: "x div 4 < 64" "y div 16 < 16" "z div 64 < 4"
    using x y z by (simp_all add: less_mult_imp_div_less)
  have m: "x mod 4 < 4" "y mod 16 < 16" "z mod 64 < 64"
    by simp_all
  show "x div 4 < 64" "x mod 4 * 16 < 64" "x mod 4 * 16 + y div 16 < 64"
    "y mod 16 * 4 < 64" "y mod 16 * 4 + z div 64 < 64" "z mod 64 < 64"
    using d m by linarith+
qed

lemma octets:
  assumes y: "y < 256" and z: "z < (256 :: nat)"
  shows "x div 4 * 4 + (x mod 4 * 16 + y div 16) div 16 = x"
    and "(x mod 4 * 16 + y div 16) mod 16 * 16 + (y mod 16 * 4 + z div 64) div 4 = y"
    and "(y mod 16 * 4 + z div 64) mod 4 * 64 + z mod 64 = z"
proof -
  have d: "y div 16 < 16" "z div 64 < 4"
    using y z by (simp_all add: less_mult_imp_div_less)
  show "x div 4 * 4 + (x mod 4 * 16 + y div 16) div 16 = x"
    using pack(1) [OF d(1), of "x mod 4"] by (simp add: div_mult_mod_eq)
  show "(x mod 4 * 16 + y div 16) mod 16 * 16 + (y mod 16 * 4 + z div 64) div 4 = y"
    using pack(2) [OF d(1), of "x mod 4"] pack(1) [OF d(2), of "y mod 16"]
    by (simp add: div_mult_mod_eq)
  show "(y mod 16 * 4 + z div 64) mod 4 * 64 + z mod 64 = z"
    using pack(2) [OF d(2), of "y mod 16"] by (simp add: div_mult_mod_eq)
qed

lemmas b64_sextets = sextets [OF of_char_less of_char_less of_char_less]
lemmas b64_octets = octets [OF of_char_less of_char_less]

lemma b64Quanta_Encode: "b64Quanta (b64Encode s) = Some s"
proof (induction s rule: b64Encode.induct)
  case (2 x)
  then show ?case
    by (simp add: b64val_b64char b64_sextets)
next
  case (3 x y)
  have "(of_char x mod 4 * 16 + of_char y div 16) mod 16 * 16 + of_char y mod 16 = (of_char y :: nat)"
    using b64_octets(2) [of "of_char x" y "char_of (0 :: nat)"] by simp
  then show ?case
    using b64_octets(1) [of "of_char x" y] by (simp add: b64val_b64char b64_sextets)
next
  case (4 x y z r)
  then show ?case
    using b64_octets(1) [of "of_char x" y] b64_octets(2) [of "of_char x" y z] b64_octets(3) [of y z]
    by (simp add: b64val_b64char b64_sextets)
qed simp

lemma padChar_no_break: "\<not> is_line_break padChar"
  by (simp add: padChar_def is_line_break_def)

lemma b64Encode_no_break: "c \<in> set (b64Encode s) \<Longrightarrow> \<not> is_line_break c"
  by (induction s arbitrary: c rule: b64Encode.induct)
    (auto simp: b64char_no_break padChar_no_break b64_sextets)

lemma b64Decode_Encode: "b64Decode (b64Encode s) = Some s"
proof -
  have "filter (\<lambda>c. \<not> is_line_break c) (b64Encode s) = b64Encode s"
    using b64Encode_no_break by (simp add: filter_id_conv)
  then show ?thesis by (simp add: b64Decode_def b64Quanta_Encode)
qed

interpretation b64: codec b64Encode b64Decode
  by unfold_locales (rule b64Decode_Encode)

text \<open>
  A base64 value has a length that is a multiple of four once line breaks are gone; anything
  else is refused.
\<close>

lemma b64Quanta_length: "b64Quanta s = Some d \<Longrightarrow> length s mod 4 = 0 \<and> length d \<le> length s div 4 * 3"
proof (induction s arbitrary: d rule: b64Quanta.induct)
  case (2 a b c d r)
  then show ?case by (fastforce split: option.splits if_splits)
qed auto

end
