(* ===== verification/File_Templates.thy ===== *)
theory File_Templates
  imports Go_Conv Base64
begin

text \<open>
  Package filetemplates (secret\_spec.go, secret\_file\_templates.go): secret specifications,
  their YAML unmarshalling and validation, and the template with its helper functions. The
  YAML library and the template engine are parameters: the first hands each list element to
  UnmarshalYAML as a node, the second parses and executes a template.
\<close>

section \<open>Secret specifications\<close>

definition MaxConjurVarNameLen :: nat where
  "MaxConjurVarNameLen = 126"

record SecretSpec =
  Alias :: string
  Path :: string
  ContentType :: string

text \<open>
  A YAML node: its kind, its line and what decoding it into a string or into a map from
  strings to strings gives (None is a decoding error). The order of the map entries is the
  order in which Go visits them.
\<close>

datatype yaml_kind = ScalarNode | MappingNode | OtherNode

record yaml_node =
  Kind :: yaml_kind
  Line :: nat
  decode_string :: "string option"
  decode_map :: "(string, string) gomap option"

definition MarshalYAML :: "SecretSpec \<Rightarrow> (string, string) gomap" where
  "MarshalYAML t = gput ''ContentType'' (ContentType t) (gput (Alias t) (Path t) [])"

definition invalidSecretSpecErr :: "nat \<Rightarrow> gerror" where
  "invalidSecretSpecErr line =
     ''expected a \"string (path)\" or \"single entry map of string to string (alias to path)\" on line ''
     @ FormatNat line"

definition last_segment :: "string \<Rightarrow> string" where
  "last_segment p = drop (nat (LastIndexByte p CHR ''/'' + 1)) p"

definition unmarshalFromLiteralString :: "yaml_node \<Rightarrow> SecretSpec \<Rightarrow> gerror + SecretSpec" where
  "unmarshalFromLiteralString node t =
     (case decode_string node of
        None \<Rightarrow> Inl (invalidSecretSpecErr (Line node))
      | Some literalValue \<Rightarrow>
          Inr (t\<lparr>Path := literalValue, Alias := last_segment literalValue, ContentType := ''text''\<rparr>))"

text \<open>The loop over the map: the count of entries other than content-type stays at most one.\<close>

fun spec_entries :: "nat \<Rightarrow> (string \<times> string) list \<Rightarrow> nat \<Rightarrow> SecretSpec \<Rightarrow> gerror + SecretSpec" where
  "spec_entries line [] n t = Inr t"
| "spec_entries line ((k, v) # kvs) n t =
     (if k = ''content-type'' then spec_entries line kvs n (t\<lparr>ContentType := v\<rparr>)
      else if n + 1 > 1 then Inl (invalidSecretSpecErr line)
      else spec_entries line kvs (n + 1) (t\<lparr>Path := v, Alias := k\<rparr>))"

definition unmarshalFromMap :: "yaml_node \<Rightarrow> SecretSpec \<Rightarrow> gerror + SecretSpec" where
  "unmarshalFromMap node t =
     (case decode_map node of
        None \<Rightarrow> Inl (invalidSecretSpecErr (Line node))
      | Some mapValue \<Rightarrow> spec_entries (Line node) mapValue 0 (t\<lparr>ContentType := ''text''\<rparr>))"

definition UnmarshalYAML :: "yaml_node \<Rightarrow> SecretSpec \<Rightarrow> gerror + SecretSpec" where
  "UnmarshalYAML node t =
     (case Kind node of
        ScalarNode \<Rightarrow> unmarshalFromLiteralString node t
      | MappingNode \<Rightarrow> unmarshalFromMap node t
      | OtherNode \<Rightarrow> Inl (invalidSecretSpecErr (Line node)))"

definition zero_spec :: SecretSpec where
  "zero_spec = \<lparr>Alias = [], Path = [], ContentType = []\<rparr>"

text \<open>
  Unmarshalling a list: the library gives either a syntax error or the nodes for which it
  calls UnmarshalYAML, each on a zero value; the first failing call is the result.
\<close>

type_synonym yaml_list = "string \<Rightarrow> gerror + yaml_node list"

fun unmarshal_specs :: "yaml_node list \<Rightarrow> gerror + SecretSpec list" where
  "unmarshal_specs [] = Inr []"
| "unmarshal_specs (n # ns) =
     (case UnmarshalYAML n zero_spec of Inl e \<Rightarrow> Inl e
      | Inr t \<Rightarrow> (case unmarshal_specs ns of Inl e \<Rightarrow> Inl e | Inr ts \<Rightarrow> Inr (t # ts)))"

definition NewSecretSpecs :: "yaml_list \<Rightarrow> string \<Rightarrow> gerror + SecretSpec list" where
  "NewSecretSpecs yaml raw =
     (if raw = ''*'' then Inr [\<lparr>Alias = ''*'', Path = ''*'', ContentType = ''text''\<rparr>]
      else case (case yaml raw of Inl e \<Rightarrow> Inl e | Inr ns \<Rightarrow> unmarshal_specs ns) of
             Inl e \<Rightarrow> Inl (''yaml: cannot unmarshall to list of secret specs: '' @ e)
           | Inr specs \<Rightarrow> Inr specs)"

datatype spec_error =
    NullPath string
  | TrailingSlash string string
  | NameTooLong string string
  | InvalidContentType string string

definition validateSecretPath :: "string \<Rightarrow> string \<Rightarrow> spec_error option" where
  "validateSecretPath path groupName =
     (if path = [] then Some (NullPath groupName)
      else let varName = last_segment path in
        if varName = [] then Some (TrailingSlash groupName path)
        else if length varName > MaxConjurVarNameLen then Some (NameTooLong groupName varName)
        else None)"

definition validateSecretContent :: "string \<Rightarrow> string \<Rightarrow> spec_error option" where
  "validateSecretContent content groupName =
     (if content = ''text'' \<or> content = ''base64'' then None
      else Some (InvalidContentType groupName content))"

definition ValidateSecretPaths :: "SecretSpec list \<Rightarrow> string \<Rightarrow> spec_error list" where
  "ValidateSecretPaths secretSpecs groupName =
     fold (\<lambda>s errors. case validateSecretPath (Path s) groupName of
             Some e \<Rightarrow> errors @ [e] | None \<Rightarrow> errors) secretSpecs []"

definition ValidateSecretContents :: "SecretSpec list \<Rightarrow> string \<Rightarrow> spec_error list" where
  "ValidateSecretContents secretSpecs groupName =
     fold (\<lambda>s errors. case validateSecretContent (ContentType s) groupName of
             Some e \<Rightarrow> errors @ [e] | None \<Rightarrow> errors) secretSpecs []"

text \<open>Returns the path errors; the content-type errors are only logged (second component).\<close>

definition ValidateSecretPathsAndContents ::
  "SecretSpec list \<Rightarrow> string \<Rightarrow> spec_error list \<times> spec_error list" where
  "ValidateSecretPathsAndContents secretSpecs groupName =
     (ValidateSecretPaths secretSpecs groupName, ValidateSecretContents secretSpecs groupName)"

section \<open>Templates\<close>

abbreviation "SecretGroupPrefix \<equiv> ''conjur.org/conjur-secrets.''"
abbreviation "SecretGroupFileTemplatePrefix \<equiv> ''conjur.org/secret-file-template.''"

record Secret =
  s_Alias :: string
  s_Value :: string

record TemplateData =
  SecretsArray :: "Secret list"
  SecretsMap :: "(string, Secret) gomap"

text \<open>The secrets template group of the Kubernetes provider.\<close>

record TemplateGroup =
  tg_Name :: string
  tg_FileTemplate :: string
  tg_SecretSpecs :: "SecretSpec list"

text \<open>A new template: its name and its function map. A panicking function is \<^const>\<open>Panic\<close>.\<close>

record gotemplate =
  tpl_name :: string
  tpl_secret :: "string \<Rightarrow> string outcome"
  tpl_b64enc :: "string \<Rightarrow> string"
  tpl_b64dec :: "string \<Rightarrow> string outcome"

definition GetTemplate :: "string \<Rightarrow> (string, Secret) gomap \<Rightarrow> gotemplate" where
  "GetTemplate name secretsMap =
     \<lparr>tpl_name = name,
      tpl_secret = (\<lambda>alias. case map_of secretsMap alias of Some v \<Rightarrow> Ret (s_Value v) | None \<Rightarrow> Panic),
      tpl_b64enc = b64encTemplateFunc,
      tpl_b64dec = b64decTemplateFunc\<rparr>"

text \<open>
  The engine: parsing a template text may fail; executing a parsed template gives the output
  written so far and an error, if any. A panic in a template function is such an error.
\<close>

record 'tpl engine =
  parse :: "gotemplate \<Rightarrow> string \<Rightarrow> gerror + 'tpl"
  execute :: "'tpl \<Rightarrow> TemplateData \<Rightarrow> string \<times> gerror option"

definition RenderFile :: "'tpl engine \<Rightarrow> 'tpl \<Rightarrow> TemplateData \<Rightarrow> string \<times> gerror option" where
  "RenderFile eng tpl tplData = execute eng tpl tplData"

section \<open>Lemmas\<close>

lemma last_segment_alt: "last_segment p = rev (takeWhile (\<lambda>c. c \<noteq> CHR ''/'') (rev p))"
  unfolding last_segment_def by (rule drop_LastIndexByte)

lemma last_segment_no_slash: "CHR ''/'' \<notin> set (last_segment p)"
  by (auto simp: last_segment_alt dest: set_takeWhileD)

lemma last_segment_Nil [simp]: "last_segment [] = []"
  by (simp add: last_segment_alt)

lemma last_segment_suffix: "\<exists>d. p = d @ last_segment p"
  unfolding last_segment_def by (metis append_take_drop_id)

lemma fold_errors:
  "fold (\<lambda>s errors. case f s of Some e \<Rightarrow> errors @ [e] | None \<Rightarrow> errors) xs acc = acc @ List.map_filter f xs"
  by (induction xs arbitrary: acc) (auto simp: List.map_filter_simps split: option.splits)

lemma ValidateSecretPaths_Nil_iff:
  "ValidateSecretPaths specs g = [] \<longleftrightarrow> (\<forall>s\<in>set specs. validateSecretPath (Path s) g = None)"
  unfolding ValidateSecretPaths_def fold_errors
  by (induction specs) (auto simp: List.map_filter_simps split: option.splits)

lemma validateSecretPath_None_iff:
  "validateSecretPath path g = None \<longleftrightarrow>
     last_segment path \<noteq> [] \<and> length (last_segment path) \<le> 126"
  by (auto simp: validateSecretPath_def MaxConjurVarNameLen_def Let_def)

lemma unmarshal_specs_Inr_iff:
  "unmarshal_specs ns = Inr ts \<longleftrightarrow> list_all2 (\<lambda>n t. UnmarshalYAML n zero_spec = Inr t) ns ts"
proof (induction ns arbitrary: ts)
  case (Cons n ns)
  then show ?case
    by (cases ts) (auto split: sum.splits, metis sum.inject(2))
qed auto

definition spec_keys :: "(string \<times> string) list \<Rightarrow> (string \<times> string) list" where
  "spec_keys kvs = filter (\<lambda>kv. fst kv \<noteq> ''content-type'') kvs"

lemma spec_entries_full: "spec_keys kvs \<noteq> [] \<Longrightarrow> spec_entries line kvs 1 t = Inl (invalidSecretSpecErr line)"
  by (induction kvs arbitrary: t) (auto simp: spec_keys_def split: if_splits)

lemma spec_entries_content:
  assumes "spec_keys kvs = []" and "distinct (map fst kvs)"
  shows "spec_entries line kvs n t =
     Inr (t\<lparr>ContentType := (case map_of kvs ''content-type'' of None \<Rightarrow> ContentType t | Some v \<Rightarrow> v)\<rparr>)"
  using assms
proof (induction kvs arbitrary: t)
  case (Cons kv kvs)
  moreover from Cons.prems have "map_of kvs (fst kv) = None"
    by (auto simp: map_of_eq_None_iff)
  ultimately show ?case by (cases kv) (auto simp: spec_keys_def split: if_splits)
qed simp

lemma spec_entries_single:
  assumes "spec_keys kvs = [(k, v)]" and "distinct (map fst kvs)"
  shows "spec_entries line kvs 0 t =
     Inr (t\<lparr>Path := v, Alias := k,
            ContentType := (case map_of kvs ''content-type'' of None \<Rightarrow> ContentType t | Some c \<Rightarrow> c)\<rparr>)"
  using assms
proof (induction kvs arbitrary: t)
  case (Cons kv kvs)
  show ?case
  proof (cases "fst kv = ''content-type''")
    case True
    with Cons.prems have "map_of kvs (fst kv) = None" by (auto simp: map_of_eq_None_iff)
    with True Cons show ?thesis by (cases kv) (auto simp: spec_keys_def)
  next
    case False
    with Cons.prems spec_entries_content [of kvs line 1] show ?thesis
      by (cases kv) (auto simp: spec_keys_def split: option.splits)
  qed
qed (simp add: spec_keys_def)

lemma spec_entries_many:
  "length (spec_keys kvs) > 1 \<Longrightarrow> spec_entries line kvs 0 t = Inl (invalidSecretSpecErr line)"
proof (induction kvs arbitrary: t)
  case (Cons kv kvs)
  then show ?case
    using spec_entries_full [of kvs line] by (cases kv) (auto simp: spec_keys_def)
qed (simp add: spec_keys_def)

lemma spec_keys_mset: "mset m = mset m' \<Longrightarrow> mset (spec_keys m) = mset (spec_keys m')"
  by (simp add: spec_keys_def)

section \<open>Properties\<close>

text \<open>
  Decoding a mapping node does not depend on the order in which Go visits the map: two
  nodes that differ only in that order give the same result. It is an error exactly when the
  map has more than one entry besides content-type, and otherwise the single alias and path
  with the given content type (text when there is none).
\<close>

lemma mapping_node_order_irrelevant:
  assumes "Kind n = MappingNode" and "Kind n' = MappingNode" and "Line n' = Line n"
    and "decode_map n = Some m" and "decode_map n' = Some m'" and "mset m = mset m'"
    and "distinct (map fst m)"
  shows "UnmarshalYAML n zero_spec = UnmarshalYAML n' zero_spec
    \<and> UnmarshalYAML n zero_spec =
        (let ct = (case map_of m ''content-type'' of None \<Rightarrow> ''text'' | Some c \<Rightarrow> c) in
         case spec_keys m of
           [] \<Rightarrow> Inr \<lparr>Alias = [], Path = [], ContentType = ct\<rparr>
         | [(k, v)] \<Rightarrow> Inr \<lparr>Alias = k, Path = v, ContentType = ct\<rparr>
         | _ \<Rightarrow> Inl (invalidSecretSpecErr (Line n)))"
proof -
  have d': "distinct (map fst m')" and mo: "map_of m' = map_of m"
    using assms(6,7) map_of_mset_eq [of m m'] mset_eq_imp_distinct_iff [of "map fst m" "map fst m'"]
    by (simp_all add: gwf_def)
  have sk: "mset (spec_keys m) = mset (spec_keys m')"
    using spec_keys_mset [OF assms(6)] .
  have res: "unmarshalFromMap node zero_spec =
        (let ct = (case map_of mm ''content-type'' of None \<Rightarrow> ''text'' | Some c \<Rightarrow> c) in
         case spec_keys mm of
           [] \<Rightarrow> Inr \<lparr>Alias = [], Path = [], ContentType = ct\<rparr>
         | [(k, v)] \<Rightarrow> Inr \<lparr>Alias = k, Path = v, ContentType = ct\<rparr>
         | _ \<Rightarrow> Inl (invalidSecretSpecErr (Line node)))"
    if "decode_map node = Some mm" "distinct (map fst mm)" for node mm
    using that spec_entries_content [OF _ that(2), of "Line node" 0]
      spec_entries_single [OF _ that(2), of _ _ "Line node"] spec_entries_many [of mm "Line node"]
    by (auto simp: unmarshalFromMap_def zero_spec_def Let_def split: list.splits option.splits)
  have "length (spec_keys m) = length (spec_keys m')"
    using sk by (metis size_mset)
  then show ?thesis
    using assms res [OF assms(4,7)] res [OF assms(5) d'] sk mo
    by (auto simp: UnmarshalYAML_def Let_def split: list.splits)
qed

text \<open>
  Marshalling does not round-trip: MarshalYAML writes the content type under the key
  ContentType, which UnmarshalYAML takes for a second alias. Every specification whose alias
  is an ordinary one is refused when its own marshalled form is read back.
\<close>

lemma marshalled_spec_is_refused:
  assumes "Alias t \<noteq> ''ContentType''" and "Alias t \<noteq> ''content-type''"
    and "Kind n = MappingNode" and "decode_map n = Some (MarshalYAML t)"
  shows "UnmarshalYAML n zero_spec = Inl (invalidSecretSpecErr (Line n))"
proof -
  have "length (spec_keys (MarshalYAML t)) > 1"
    using assms by (simp add: MarshalYAML_def spec_keys_def gput_def)
  then show ?thesis
    using assms(3,4) by (simp add: UnmarshalYAML_def unmarshalFromMap_def spec_entries_many)
qed

end
