(* ===== verification/Utils.thy ===== *)
theory Utils
  imports Go_Text
begin

text \<open>
  Package utils: checksums that detect changed content (checksum.go) and the bounded
  constant back-off policy (limited\_backoff.go). Each comes with the interface its clients
  rely on, as a locale interpreted on the definitions below: a change detector (the
  push-to-file writer and the Kubernetes provider) and a back-off policy with a budget (the
  retry loop).
\<close>

section \<open>checksum.go\<close>

type_synonym Checksum = string

text \<open>SHA-256 is a parameter: any function from content to checksum.\<close>

definition FileChecksum :: "(string \<Rightarrow> Checksum) \<Rightarrow> string \<Rightarrow> Checksum" where
  "FileChecksum sha256 buf = sha256 buf"

definition ContentHasChanged :: "string \<Rightarrow> Checksum \<Rightarrow> (string, Checksum) gomap \<Rightarrow> bool" where
  "ContentHasChanged groupName newChecksum prevChecksums =
     (case map_of prevChecksums groupName of
        Some prevChecksum \<Rightarrow> newChecksum \<noteq> prevChecksum
      | None \<Rightarrow> True)"

subsection \<open>The change-detector interface\<close>

locale change_detector =
  fixes changed :: "'n \<Rightarrow> 'c \<Rightarrow> 's \<Rightarrow> bool" and note_sum :: "'n \<Rightarrow> 'c \<Rightarrow> 's \<Rightarrow> 's"
  assumes changed_same: "changed n c (note_sum n c' s) \<longleftrightarrow> c \<noteq> c'"
    and changed_other: "n \<noteq> n' \<Longrightarrow> changed n c (note_sum n' c' s) = changed n c s"
begin

lemma quiet_kept:
  "n \<notin> fst ` set ncs \<Longrightarrow> changed n c (fold (\<lambda>(n, c). note_sum n c) ncs s) = changed n c s"
  by (induction ncs arbitrary: s) (auto simp: changed_other)

text \<open>Content that has been recorded for distinct names counts as unchanged afterwards.\<close>

lemma quiet_after_all:
  assumes "distinct (map fst ncs)" and "(n, c) \<in> set ncs"
  shows "\<not> changed n c (fold (\<lambda>(n, c). note_sum n c) ncs s)"
  using assms
proof (induction ncs arbitrary: s)
  case (Cons x ncs)
  show ?case
  proof (cases "(n, c) = x")
    case True
    with Cons.prems show ?thesis by (auto simp: quiet_kept changed_same)
  next
    case False
    with Cons show ?thesis by auto
  qed
qed simp

end

interpretation sums: change_detector ContentHasChanged gput
  by unfold_locales (auto simp: ContentHasChanged_def)

section \<open>limited\_backoff.go\<close>

record limitedBackOff =
  Interval :: int
  RetryLimit :: int
  retryCount :: int

text \<open>The constant \<^verbatim>\<open>backoff.Stop\<close>.\<close>

definition Stop :: int where
  "Stop = -1"

definition NewLimitedBackOff :: "int \<Rightarrow> int \<Rightarrow> limitedBackOff" where
  "NewLimitedBackOff duration retryLimit =
     \<lparr>Interval = duration, RetryLimit = retryLimit, retryCount = 0\<rparr>"

definition RetryCount :: "limitedBackOff \<Rightarrow> int" where
  "RetryCount b = retryCount b"

definition Reset :: "limitedBackOff \<Rightarrow> limitedBackOff" where
  "Reset b = b\<lparr>retryCount := 0\<rparr>"

definition NextBackOff :: "limitedBackOff \<Rightarrow> int \<times> limitedBackOff" where
  "NextBackOff b =
     (if RetryLimit b \<ge> 0 \<and> retryCount b \<ge> RetryLimit b then (Stop, b)
      else (Interval b, b\<lparr>retryCount := retryCount b + 1\<rparr>))"

subsection \<open>The back-off interface\<close>

text \<open>
  A policy has a budget of retries, \<^const>\<open>None\<close> when it is unlimited. Asking for the next delay
  spends one retry; an empty budget answers \<^const>\<open>Stop\<close>.
\<close>

locale backoff_policy =
  fixes next_delay :: "'b \<Rightarrow> int \<times> 'b" and budget :: "'b \<Rightarrow> nat option" and ok :: "'b \<Rightarrow> bool"
  assumes stop_empty: "ok b \<Longrightarrow> budget b = Some 0 \<Longrightarrow> fst (next_delay b) = Stop"
    and go_nonempty: "ok b \<Longrightarrow> budget b \<noteq> Some 0 \<Longrightarrow> fst (next_delay b) \<noteq> Stop"
    and spend: "ok b \<Longrightarrow> budget b = Some (Suc n) \<Longrightarrow> budget (snd (next_delay b)) = Some n"
    and unlimited: "ok b \<Longrightarrow> budget b = None \<Longrightarrow> budget (snd (next_delay b)) = None"
    and ok_next: "ok b \<Longrightarrow> ok (snd (next_delay b))"
begin

fun spend_all :: "nat \<Rightarrow> 'b \<Rightarrow> 'b" where
  "spend_all 0 b = b"
| "spend_all (Suc n) b = spend_all n (snd (next_delay b))"

lemma goes_on_before_budget:
  "ok b \<Longrightarrow> budget b = Some n \<Longrightarrow> m < n \<Longrightarrow> fst (next_delay (spend_all m b)) \<noteq> Stop"
proof (induction m arbitrary: b n)
  case 0
  then show ?case by (simp add: go_nonempty)
next
  case (Suc m)
  then obtain k where "n = Suc k" and "m < k" by (cases n) auto
  with Suc show ?case by (simp add: spend ok_next)
qed

lemma stops_after_budget: "ok b \<Longrightarrow> budget b = Some n \<Longrightarrow> fst (next_delay (spend_all n b)) = Stop"
  by (induction n arbitrary: b) (auto simp: stop_empty spend ok_next)

lemma never_stops: "ok b \<Longrightarrow> budget b = None \<Longrightarrow> fst (next_delay (spend_all n b)) \<noteq> Stop"
  by (induction n arbitrary: b) (auto simp: go_nonempty unlimited ok_next)

end

definition retry_budget :: "limitedBackOff \<Rightarrow> nat option" where
  "retry_budget b = (if RetryLimit b < 0 then None else Some (nat (RetryLimit b - retryCount b)))"

definition backoff_ok :: "limitedBackOff \<Rightarrow> bool" where
  "backoff_ok b \<longleftrightarrow> 0 \<le> Interval b \<and> 0 \<le> retryCount b"

lemmas backoff_defs = NextBackOff_def Stop_def retry_budget_def backoff_ok_def

interpretation limited: backoff_policy NextBackOff retry_budget backoff_ok
  by unfold_locales (auto simp: backoff_defs split: if_splits)

lemma retry_budget_Reset: "RetryLimit b \<ge> 0 \<Longrightarrow> retry_budget (Reset b) = Some (nat (RetryLimit b))"
  by (simp add: retry_budget_def Reset_def)

lemma backoff_ok_Reset: "0 \<le> Interval b \<Longrightarrow> backoff_ok (Reset b)"
  by (simp add: backoff_ok_def Reset_def)

end
