(* ===== verification/K8s_Provider.thy ===== *)
theory K8s_Provider
  imports K8s_Client File_Templates Utils
begin

text \<open>
  Package k8ssecretsstorage (provide\_conjur\_secrets.go): the provider for Kubernetes Secrets. It
  collects the required Secrets, derives from their conjur-map and annotations which variables
  go where, fetches the variables and updates every Secret whose new data differs from what was
  written last. The Kubernetes operations, the Conjur client, the YAML library, the template
  engine, SHA-256 and the recording of errors are parameters. Tracing and logging are left out;
  the mutex makes runs follow each other, so a run is one function of the provider's state. A
  nil byte slice is an absent map entry.
\<close>

section \<open>State\<close>

record updateDestination =
  k8sSecretName :: string
  secretName :: string
  contentType :: string

type_synonym destinationKey = "string \<times> string"

record K8sProvider =
  podNamespace :: string
  requiredK8sSecrets :: "string list"
  originalK8sSecrets :: "(string, v1_secret) gomap"
  updateDestinations :: "(string, updateDestination list) gomap"
  updateDestinationLookup :: "(string, (destinationKey, unit) gomap) gomap"
  sanitize_on :: bool
  prevSecretsChecksums :: "(string, Checksum) gomap"
  secretsGroups :: "(string, TemplateGroup list) gomap"

text \<open>A value of a conjur-map, as the YAML library decodes it.\<close>

datatype yaml_value = YStr string | YMap "(string \<times> yaml_value) list" | YOther

text \<open>Unmarshalling a conjur-map: the entries and an error, if any.\<close>

type_synonym yaml_map = "string \<Rightarrow> (string, yaml_value) gomap \<times> gerror option"

type_synonym secret_data = "(string, (string, string) gomap) gomap"

text \<open>The dependencies; the world is whatever the calls act on.\<close>

record 'w k8sProviderDeps =
  retrieveSecret :: "string \<Rightarrow> string \<Rightarrow> 'w \<Rightarrow> (gerror + v1_secret) outcome \<times> 'w"
  updateSecret :: "string \<Rightarrow> string \<Rightarrow> v1_secret option \<Rightarrow> (string, string) gomap \<Rightarrow> 'w \<Rightarrow> gerror option outcome \<times> 'w"
  listLabeledSecrets :: "string \<Rightarrow> 'w \<Rightarrow> (gerror + v1_secret list) outcome \<times> 'w"
  retrieveSecrets :: "string list \<Rightarrow> 'w \<Rightarrow> (gerror + (string, string) gomap) outcome \<times> 'w"
  recordedError :: recorded_error

record K8sProviderConfig =
  kc_PodNamespace :: string
  kc_RequiredK8sSecrets :: "string list"

definition newProvider :: "bool \<Rightarrow> K8sProviderConfig \<Rightarrow> K8sProvider" where
  "newProvider sanitizeEnabled config =
     \<lparr>podNamespace = kc_PodNamespace config, requiredK8sSecrets = kc_RequiredK8sSecrets config,
      originalK8sSecrets = [], updateDestinations = [], updateDestinationLookup = [],
      sanitize_on = sanitizeEnabled, prevSecretsChecksums = [], secretsGroups = []\<rparr>"

text \<open>The dependencies of the real program, over the Kubernetes API and the Conjur client.\<close>

definition provider_deps ::
  "recorded_error \<Rightarrow> 'w kube_api \<Rightarrow> (string list \<Rightarrow> 'w \<Rightarrow> (gerror + (string, string) gomap) outcome \<times> 'w) \<Rightarrow> 'w k8sProviderDeps" where
  "provider_deps recorded api retrieveConjurSecrets =
     \<lparr>retrieveSecret = RetrieveK8sSecret recorded api,
      updateSecret = UpdateK8sSecret recorded api,
      listLabeledSecrets = ListLabeledK8sSecrets recorded api,
      retrieveSecrets = retrieveConjurSecrets,
      recordedError = recorded\<rparr>"

definition CSPFK021E :: string where "CSPFK021E = ''CSPFK021E Failed to retrieve Kubernetes Secrets''"
definition CSPFK023E :: string where "CSPFK023E = ''CSPFK023E Failed to update Kubernetes Secrets''"
definition CSPFK025E :: string where "CSPFK025E = ''CSPFK025E PathMap cannot be empty''"
definition CSPFK028E :: "string \<Rightarrow> string" where
  "CSPFK028E name = ''CSPFK028E Unable to update Kubernetes Secret '' @ [CHR 0x27] @ name @ [CHR 0x27]"
definition CSPFK037E :: "string \<Rightarrow> string \<Rightarrow> string" where
  "CSPFK037E sn dest = ''CSPFK037E Failed to parse DAP/Conjur variable ID for secret '' @ [CHR 0x27] @ sn @ [CHR 0x27]
     @ '' in destination '' @ [CHR 0x27] @ dest @ [CHR 0x27]"

section \<open>Collecting destinations\<close>

definition appendDestination :: "string \<Rightarrow> updateDestination \<Rightarrow> K8sProvider \<Rightarrow> K8sProvider" where
  "appendDestination varID dest p =
     (let destLookup = updateDestinationLookup p;
          destLookup1 = (if \<not> ghas destLookup varID then gput varID [] destLookup else destLookup);
          key = (k8sSecretName dest, secretName dest)
      in if ghas (gget [] destLookup1 varID) key then p\<lparr>updateDestinationLookup := destLookup1\<rparr>
         else p\<lparr>updateDestinationLookup := gput varID (gput key () (gget [] destLookup1 varID)) destLookup1,
                updateDestinations := gput varID (gget [] (updateDestinations p) varID @ [dest]) (updateDestinations p)\<rparr>)"

text \<open>The string stored under a key of a decoded map, if it is one.\<close>

definition string_at :: "(string \<times> yaml_value) list \<Rightarrow> string \<Rightarrow> string option" where
  "string_at m k = (case map_of m k of Some (YStr s) \<Rightarrow> Some s | _ \<Rightarrow> None)"

text \<open>The first invalid entry ends the loop; what was added before stays.\<close>

fun refreshUpdateDestinations ::
  "recorded_error \<Rightarrow> (string \<times> yaml_value) list \<Rightarrow> string \<Rightarrow> K8sProvider \<Rightarrow> gerror option \<times> K8sProvider" where
  "refreshUpdateDestinations recorded [] name p = (None, p)"
| "refreshUpdateDestinations recorded ((sn, contents) # conjurMap) name p =
     (case contents of
        YStr value \<Rightarrow>
          refreshUpdateDestinations recorded conjurMap name
            (appendDestination value \<lparr>k8sSecretName = name, secretName = sn, contentType = ''text''\<rparr> p)
      | YMap value \<Rightarrow>
          (case string_at value ''id'' of
             None \<Rightarrow> (Some (recorded (CSPFK037E sn name)), p)
           | Some varId \<Rightarrow>
               if varId = [] then (Some (recorded (CSPFK037E sn name)), p)
               else let ct = (case string_at value ''content-type'' of
                       Some c \<Rightarrow> if c = ''base64'' then c else ''text'' | None \<Rightarrow> ''text'')
                    in refreshUpdateDestinations recorded conjurMap name
                         (appendDestination varId \<lparr>k8sSecretName = name, secretName = sn, contentType = ct\<rparr> p))
      | YOther \<Rightarrow> (Some (recorded (CSPFK028E name)), p))"

definition parseConjurSecretsYAML ::
  "recorded_error \<Rightarrow> yaml_map \<Rightarrow> v1_secret \<Rightarrow> K8sProvider \<Rightarrow> (bool \<times> gerror option) \<times> K8sProvider" where
  "parseConjurSecretsYAML recorded yaml k8sSecret p =
     (case map_of (data_of k8sSecret) ConjurMapKey of
        None \<Rightarrow> ((False, None), p)
      | Some conjurSecretsYAML \<Rightarrow>
          if length conjurSecretsYAML = 0 then ((False, None), p)
          else case yaml conjurSecretsYAML of
            (_, Some e) \<Rightarrow>
              if length (secretsGroups p) > 0 then ((False, None), p)
              else ((False, Some (recorded (CSPFK028E (sec_Name k8sSecret)))), p)
          | (conjurMap, None) \<Rightarrow>
              if length conjurMap = 0 then ((False, None), p)
              else case refreshUpdateDestinations recorded conjurMap (sec_Name k8sSecret) p of
                     (Some e, p1) \<Rightarrow> ((False, Some e), p1)
                   | (None, p1) \<Rightarrow> ((True, None), p1))"

text \<open>The groups of the annotations that have a template annotation; a malformed one is an error.\<close>

fun annotation_groups ::
  "yaml_list \<Rightarrow> (string, string) gomap \<Rightarrow> (string \<times> string) list \<Rightarrow> TemplateGroup list \<Rightarrow> gerror + TemplateGroup list" where
  "annotation_groups yaml annots [] groups = Inr groups"
| "annotation_groups yaml annots ((annotationName, annotationValue) # rest) groups =
     (if \<not> HasPrefix annotationName SecretGroupPrefix then annotation_groups yaml annots rest groups
      else let groupName = TrimPrefix annotationName SecretGroupPrefix in
        if \<not> ghas annots (SecretGroupFileTemplatePrefix @ groupName) then annotation_groups yaml annots rest groups
        else case NewSecretSpecs yaml annotationValue of
          Inl e \<Rightarrow> Inl (''unable to create secret specs from annotation '' @ [CHR 0x22] @ annotationName @ [CHR 0x22] @ '': '' @ e)
        | Inr specs \<Rightarrow>
            if length specs = 0
            then Inl (''annotation '' @ [CHR 0x22] @ annotationName @ [CHR 0x22] @ '' has no secret specs defined'')
            else annotation_groups yaml annots rest
                   (groups @ [\<lparr>tg_Name = groupName, tg_FileTemplate = [], tg_SecretSpecs = specs\<rparr>]))"

definition processSecretGroupAnnotations ::
  "yaml_list \<Rightarrow> v1_secret \<Rightarrow> K8sProvider \<Rightarrow> gerror option \<times> K8sProvider" where
  "processSecretGroupAnnotations yaml k8sSecret p =
     (case annotation_groups yaml (sec_Annotations k8sSecret) (sec_Annotations k8sSecret) [] of
        Inl e \<Rightarrow> (Some e, p)
      | Inr groups \<Rightarrow>
          (None, if length groups > 0 then p\<lparr>secretsGroups := gput (sec_Name k8sSecret) groups (secretsGroups p)\<rparr> else p))"

definition retrieveRequiredK8sSecret ::
  "recorded_error \<Rightarrow> yaml_list \<Rightarrow> yaml_map \<Rightarrow> v1_secret \<Rightarrow> bool \<Rightarrow> K8sProvider \<Rightarrow> gerror option \<times> K8sProvider" where
  "retrieveRequiredK8sSecret recorded yamls yamlm k8sSecret allowEmptyConjurMap p =
     (let p0 = p\<lparr>originalK8sSecrets := gput (sec_Name k8sSecret) k8sSecret (originalK8sSecrets p)\<rparr> in
      case processSecretGroupAnnotations yamls k8sSecret p0 of
        (Some e, p1) \<Rightarrow> (Some e, p1)
      | (None, p1) \<Rightarrow>
        (case parseConjurSecretsYAML recorded yamlm k8sSecret p1 of
           ((_, Some e), p2) \<Rightarrow> (Some e, p2)
         | ((hasValidConjurMap, None), p2) \<Rightarrow>
             if \<not> hasValidConjurMap \<and> length (secretsGroups p2) = 0 \<and> \<not> allowEmptyConjurMap
             then (Some (recorded (CSPFK028E (sec_Name k8sSecret))), p2)
             else (None, p2)))"

text \<open>The two modes: a list of names, where any failure is final, or the labelled Secrets, where an invalid one is skipped.\<close>

fun retrieve_named ::
  "'w k8sProviderDeps \<Rightarrow> yaml_list \<Rightarrow> yaml_map \<Rightarrow> string list \<Rightarrow> K8sProvider \<Rightarrow> 'w
     \<Rightarrow> gerror option outcome \<times> K8sProvider \<times> 'w" where
  "retrieve_named deps yamls yamlm [] p w = (Ret None, p, w)"
| "retrieve_named deps yamls yamlm (name # names) p w =
     (case retrieveSecret deps (podNamespace p) name w of
        (Panic, w1) \<Rightarrow> (Panic, p, w1)
      | (Ret (Inl e), w1) \<Rightarrow> (Ret (Some (recordedError deps CSPFK020E)), p, w1)
      | (Ret (Inr k8sSecret), w1) \<Rightarrow>
          (case retrieveRequiredK8sSecret (recordedError deps) yamls yamlm k8sSecret False p of
             (Some e, p1) \<Rightarrow> (Ret (Some e), p1, w1)
           | (None, p1) \<Rightarrow> retrieve_named deps yamls yamlm names p1 w1))"

fun retrieve_labeled ::
  "recorded_error \<Rightarrow> yaml_list \<Rightarrow> yaml_map \<Rightarrow> v1_secret list \<Rightarrow> K8sProvider \<Rightarrow> K8sProvider" where
  "retrieve_labeled recorded yamls yamlm [] p = p"
| "retrieve_labeled recorded yamls yamlm (k8sSecret # secrets) p =
     (case retrieveRequiredK8sSecret recorded yamls yamlm k8sSecret True p of
        (Some e, p1) \<Rightarrow>
          retrieve_labeled recorded yamls yamlm secrets
            (p1\<lparr>originalK8sSecrets := gdel (sec_Name k8sSecret) (originalK8sSecrets p1)\<rparr>)
      | (None, p1) \<Rightarrow> retrieve_labeled recorded yamls yamlm secrets p1)"

definition retrieveRequiredK8sSecrets ::
  "'w k8sProviderDeps \<Rightarrow> yaml_list \<Rightarrow> yaml_map \<Rightarrow> K8sProvider \<Rightarrow> 'w \<Rightarrow> gerror option outcome \<times> K8sProvider \<times> 'w" where
  "retrieveRequiredK8sSecrets deps yamls yamlm p w =
     (if length (requiredK8sSecrets p) > 0 then retrieve_named deps yamls yamlm (requiredK8sSecrets p) p w
      else case listLabeledSecrets deps (podNamespace p) w of
             (Panic, w1) \<Rightarrow> (Panic, p, w1)
           | (Ret (Inl e), w1) \<Rightarrow> (Ret (Some (recordedError deps CSPFK024E)), p, w1)
           | (Ret (Inr items), w1) \<Rightarrow> (Ret None, retrieve_labeled (recordedError deps) yamls yamlm items p, w1))"

section \<open>Fetching\<close>

text \<open>A star among the destinations asks for everything.\<close>

fun destination_ids :: "string list \<Rightarrow> (string, bool) gomap \<Rightarrow> string list \<Rightarrow> ((string, bool) gomap \<times> string list) option" where
  "destination_ids [] seen ids = Some (seen, ids)"
| "destination_ids (key # keys) seen ids =
     (if key = ''*'' then None
      else if \<not> gget False seen key then destination_ids keys (gput key True seen) (ids @ [key])
      else destination_ids keys seen ids)"

definition group_ids ::
  "TemplateGroup list \<Rightarrow> (string, bool) gomap \<times> string list \<Rightarrow> (string, bool) gomap \<times> string list" where
  "group_ids groups = fold (\<lambda>spec (seen, ids).
     if gget False seen (Path spec) then (seen, ids) else (gput (Path spec) True seen, ids @ [Path spec]))
     (concat (map tg_SecretSpecs groups))"

definition listConjurSecretsToFetch :: "recorded_error \<Rightarrow> range_order \<Rightarrow> K8sProvider \<Rightarrow> gerror + string list" where
  "listConjurSecretsToFetch recorded rt p =
     (let updateDests = updateDestinations p in
      if length updateDests = 0 \<and> length (secretsGroups p) = 0 then Inr []
      else case destination_ids (map fst (grange rt 10 updateDests)) [] [] of
             None \<Rightarrow> Inr [''*'']
           | Some si \<Rightarrow>
               (let variableIDs = snd (fold (\<lambda>(_, groups). group_ids groups) (grange rt 11 (secretsGroups p)) si)
                in if length variableIDs = 0 then Inl (recorded CSPFK025E) else Inr variableIDs))"

definition retrieveConjurSecrets ::
  "'w k8sProviderDeps \<Rightarrow> range_order \<Rightarrow> K8sProvider \<Rightarrow> 'w \<Rightarrow> (gerror + (string, string) gomap) outcome \<times> 'w" where
  "retrieveConjurSecrets deps rt p w =
     (case listConjurSecretsToFetch (recordedError deps) rt p of
        Inl e \<Rightarrow> (Ret (Inl e), w)
      | Inr variableIDs \<Rightarrow>
          (case retrieveSecrets deps variableIDs w of
             (Panic, w1) \<Rightarrow> (Panic, w1)
           | (Ret (Inl e), w1) \<Rightarrow> (Ret (Inl (recordedError deps (CSPFK034E e))), w1)
           | (Ret (Inr m), w1) \<Rightarrow> (Ret (Inr m), w1)))"

section \<open>New data for the Secrets\<close>

text \<open>Every character but letters, digits, dash, underscore and dot becomes a dot.\<close>

definition k8s_key_char :: "nat \<Rightarrow> bool" where
  "k8s_key_char r \<longleftrightarrow> (48 \<le> r \<and> r \<le> 57) \<or> (65 \<le> r \<and> r \<le> 90) \<or> (97 \<le> r \<and> r \<le> 122) \<or> r = 95 \<or> r = 45 \<or> r = 46"

definition normalizeK8sSecretName :: "string \<Rightarrow> string" where
  "normalizeK8sSecretName name = map (\<lambda>r. if k8s_key_char r then char_of r else CHR ''.'') (runes name)"

definition decode_value :: "string \<Rightarrow> string \<Rightarrow> string" where
  "decode_value ct v = (if ct = ''base64'' then (case b64Decode v of None \<Rightarrow> v | Some d \<Rightarrow> d) else v)"

definition put_dest :: "string \<Rightarrow> string \<Rightarrow> updateDestination \<Rightarrow> secret_data \<Rightarrow> secret_data" where
  "put_dest variableID secretValue dest sd =
     (let k = k8sSecretName dest;
          sd1 = (if \<not> ghas sd k then gput k [] sd else sd);
          sn = (if secretName dest = ''*'' then normalizeK8sSecretName variableID else secretName dest)
      in if secretName dest = ''*'' \<and> ghas (gget [] sd1 k) sn then sd1
         else gput k (gput sn (decode_value (contentType dest) secretValue) (gget [] sd1 k)) sd1)"

definition fetched_data :: "range_order \<Rightarrow> K8sProvider \<Rightarrow> (string, string) gomap \<Rightarrow> secret_data" where
  "fetched_data rt p conjurSecrets =
     (let isFetchAll = ghas (updateDestinations p) ''*'' in
      fold (\<lambda>(variableID, secretValue) sd.
        (let dests = gget [] (updateDestinations p) variableID;
             dests1 = (if isFetchAll then dests @ gget [] (updateDestinations p) ''*'' else dests)
         in fold (put_dest variableID secretValue) dests1 sd))
        (grange rt 12 conjurSecrets) [])"

text \<open>Emptying the keys that a fetch-all destination no longer covers; writing to a nil map panics.\<close>

fun wipe_keys :: "string \<Rightarrow> string list \<Rightarrow> secret_data \<Rightarrow> secret_data outcome" where
  "wipe_keys k [] sd = Ret sd"
| "wipe_keys k (key # keys) sd =
     (if key \<noteq> ConjurMapKey \<and> \<not> ghas (gget [] sd k) key
      then (if ghas sd k then wipe_keys k keys (gput k (gput key [] (gget [] sd k)) sd) else Panic)
      else wipe_keys k keys sd)"

definition sanitize_dest ::
  "range_order \<Rightarrow> K8sProvider \<Rightarrow> (string, string) gomap \<Rightarrow> string \<Rightarrow> updateDestination \<Rightarrow> secret_data \<Rightarrow> secret_data outcome" where
  "sanitize_dest rt p conjurSecrets varID dest sd =
     (let k = k8sSecretName dest in
      if secretName dest = ''*'' then
        (case map_of (originalK8sSecrets p) k of
           None \<Rightarrow> Panic
         | Some orig \<Rightarrow> wipe_keys k (map fst (grange rt 14 (data_of orig))) sd)
      else if \<not> ghas conjurSecrets varID then
        (let sd1 = (if \<not> ghas sd k then gput k [] sd else sd)
         in Ret (gput k (gput (secretName dest) [] (gget [] sd1 k)) sd1))
      else Ret sd)"

definition createSecretData ::
  "range_order \<Rightarrow> K8sProvider \<Rightarrow> (string, string) gomap \<Rightarrow> secret_data outcome" where
  "createSecretData rt p conjurSecrets =
     (let sd = fetched_data rt p conjurSecrets in
      if sanitize_on p
      then ofold (\<lambda>(varID, dests) sd. ofold (sanitize_dest rt p conjurSecrets varID) dests sd)
             (grange rt 13 (updateDestinations p)) sd
      else Ret sd)"

text \<open>The secrets of the groups of one Kubernetes Secret, by group name; a missing value is empty.\<close>

definition secrets_by_group :: "(string, string) gomap \<Rightarrow> TemplateGroup list \<Rightarrow> (string, Secret list) gomap" where
  "secrets_by_group conjurSecrets groups =
     fold (\<lambda>g m. fold (\<lambda>spec m.
        gput (tg_Name g)
          (gget [] m (tg_Name g)
             @ [\<lparr>s_Alias = Alias spec, s_Value = gget [] conjurSecrets (Path spec)\<rparr>]) m)
        (tg_SecretSpecs g) m) groups []"

definition render_template_group ::
  "'tpl engine \<Rightarrow> string \<Rightarrow> v1_secret \<Rightarrow> string \<Rightarrow> Secret list \<Rightarrow> secret_data \<Rightarrow> secret_data" where
  "render_template_group eng k orig groupName sec sd =
     (let secretsMap = fold (\<lambda>s m. gput (s_Alias s) s m) sec [];
          groupTemplate = gget [] (sec_Annotations orig) (SecretGroupFileTemplatePrefix @ groupName)
      in case parse eng (GetTemplate groupName secretsMap) groupTemplate of
           Inl _ \<Rightarrow> sd
         | Inr tpl \<Rightarrow>
             (case RenderFile eng tpl \<lparr>SecretsArray = sec, SecretsMap = secretsMap\<rparr> of
                (_, Some _) \<Rightarrow> sd
              | (fileContent, None) \<Rightarrow>
                  (let sd1 = (if \<not> ghas sd k then gput k [] sd else sd)
                   in gput k (gput groupName fileContent (gget [] sd1 k)) sd1)))"

definition populateGroupTemplateSecretData ::
  "range_order \<Rightarrow> 'tpl engine \<Rightarrow> K8sProvider \<Rightarrow> (string, string) gomap \<Rightarrow> secret_data \<Rightarrow> secret_data" where
  "populateGroupTemplateSecretData rt eng p conjurSecrets newSecretsDataMap =
     fold (\<lambda>(k, groups) sd.
       case map_of (originalK8sSecrets p) k of
         None \<Rightarrow> sd
       | Some orig \<Rightarrow>
           fold (\<lambda>(groupName, sec). render_template_group eng k orig groupName sec)
             (grange rt 16 (secrets_by_group conjurSecrets groups)) sd)
       (grange rt 15 (secretsGroups p)) newSecretsDataMap"

section \<open>Updating the Secrets\<close>

text \<open>How Go prints a map of byte slices with the verb v: sorted by key, bytes in decimal.\<close>

definition fmt_bytes :: "string \<Rightarrow> string" where
  "fmt_bytes v = ''['' @ JoinSep (map (\<lambda>c. FormatNat (of_char c)) v) '' '' @ '']''"

definition fmt_data :: "(string, string) gomap \<Rightarrow> string" where
  "fmt_data m = ''map['' @ JoinSep (map (\<lambda>(k, v). k @ '':'' @ fmt_bytes v) (sort_key fst m)) '' '' @ '']''"

definition delete_keys :: "string list \<Rightarrow> v1_secret \<Rightarrow> v1_secret" where
  "delete_keys keys s = s\<lparr>sec_Data := map_option (fold gdel keys) (sec_Data s)\<rparr>"

type_synonym keys_to_remove = "(string, string list) gomap"

text \<open>
  One Secret: nothing when the checksum of its new data is the recorded one; otherwise a copy of
  the original loses the keys to remove (a nil original panics at the first key) and is updated.
\<close>

definition update_one ::
  "'w k8sProviderDeps \<Rightarrow> (string \<Rightarrow> Checksum) \<Rightarrow> keys_to_remove \<Rightarrow> string \<Rightarrow> (string, string) gomap \<Rightarrow> K8sProvider \<Rightarrow> 'w
     \<Rightarrow> (bool \<times> gerror option) outcome \<times> K8sProvider \<times> 'w" where
  "update_one deps sha256 keysToRemove name secretData p w =
     (let checksum = FileChecksum sha256 (fmt_data secretData) in
      if ContentHasChanged name checksum (prevSecretsChecksums p) then
        (let original = map_of (originalK8sSecrets p) name;
             keys = gget [] keysToRemove name
         in if original = None \<and> keys \<noteq> [] then (Panic, p, w)
            else case updateSecret deps (podNamespace p) name (map_option (delete_keys keys) original) secretData w of
              (Panic, w1) \<Rightarrow> (Panic, p, w1)
            | (Ret (Some e), w1) \<Rightarrow> (Ret (False, Some (recordedError deps CSPFK022E)), p, w1)
            | (Ret None, w1) \<Rightarrow>
                (Ret (True, None), p\<lparr>prevSecretsChecksums := gput name checksum (prevSecretsChecksums p)\<rparr>, w1))
      else (Ret (False, None), p, w))"

fun update_all ::
  "'w k8sProviderDeps \<Rightarrow> (string \<Rightarrow> Checksum) \<Rightarrow> keys_to_remove \<Rightarrow> (string \<times> (string, string) gomap) list \<Rightarrow> bool
     \<Rightarrow> K8sProvider \<Rightarrow> 'w \<Rightarrow> (bool \<times> gerror option) outcome \<times> K8sProvider \<times> 'w" where
  "update_all deps sha256 keysToRemove [] updated p w = (Ret (updated, None), p, w)"
| "update_all deps sha256 keysToRemove ((name, secretData) # rest) updated p w =
     (case update_one deps sha256 keysToRemove name secretData p w of
        (Panic, p1, w1) \<Rightarrow> (Panic, p1, w1)
      | (Ret (_, Some e), p1, w1) \<Rightarrow> (Ret (False, Some e), p1, w1)
      | (Ret (u, None), p1, w1) \<Rightarrow> update_all deps sha256 keysToRemove rest (if u then True else updated) p1 w1)"

text \<open>Secrets without new data whose keys must be removed get an empty entry.\<close>

definition add_cleanup_entries :: "range_order \<Rightarrow> K8sProvider \<Rightarrow> keys_to_remove \<Rightarrow> secret_data \<Rightarrow> secret_data" where
  "add_cleanup_entries rt p keysToRemove sd =
     (if length keysToRemove > 0 then
        fold (\<lambda>(name, _) sd. if \<not> ghas sd name \<and> ghas keysToRemove name then gput name [] sd else sd)
          (grange rt 18 (originalK8sSecrets p)) sd
      else sd)"

definition updateRequiredK8sSecretsWithCleanup ::
  "'w k8sProviderDeps \<Rightarrow> range_order \<Rightarrow> 'tpl engine \<Rightarrow> (string \<Rightarrow> Checksum) \<Rightarrow> (string, string) gomap \<Rightarrow> keys_to_remove
     \<Rightarrow> K8sProvider \<Rightarrow> 'w \<Rightarrow> (bool \<times> gerror option) outcome \<times> K8sProvider \<times> 'w" where
  "updateRequiredK8sSecretsWithCleanup deps rt eng sha256 conjurSecrets keysToRemove p w =
     (case createSecretData rt p conjurSecrets of
        Panic \<Rightarrow> (Panic, p, w)
      | Ret sd \<Rightarrow>
          (let sd1 = populateGroupTemplateSecretData rt eng p conjurSecrets sd;
               sd2 = add_cleanup_entries rt p keysToRemove sd1
           in update_all deps sha256 keysToRemove (grange rt 17 sd2) False p w))"

definition updateRequiredK8sSecrets ::
  "'w k8sProviderDeps \<Rightarrow> range_order \<Rightarrow> 'tpl engine \<Rightarrow> (string \<Rightarrow> Checksum) \<Rightarrow> (string, string) gomap
     \<Rightarrow> K8sProvider \<Rightarrow> 'w \<Rightarrow> (bool \<times> gerror option) outcome \<times> K8sProvider \<times> 'w" where
  "updateRequiredK8sSecrets deps rt eng sha256 conjurSecrets p w =
     updateRequiredK8sSecretsWithCleanup deps rt eng sha256 conjurSecrets [] p w"

definition removeDeletedSecrets ::
  "'w k8sProviderDeps \<Rightarrow> range_order \<Rightarrow> 'tpl engine \<Rightarrow> (string \<Rightarrow> Checksum) \<Rightarrow> K8sProvider \<Rightarrow> 'w
     \<Rightarrow> gerror option outcome \<times> K8sProvider \<times> 'w" where
  "removeDeletedSecrets deps rt eng sha256 p w =
     (case listConjurSecretsToFetch (recordedError deps) rt p of
        Inl e \<Rightarrow> (Ret (Some e), p, w)
      | Inr variablesToDelete \<Rightarrow>
          (let emptySecrets = fold (\<lambda>v m. gput v [] m) variablesToDelete [] in
           case updateRequiredK8sSecrets deps rt eng sha256 emptySecrets p w of
             (Panic, p1, w1) \<Rightarrow> (Panic, p1, w1)
           | (Ret (_, err), p1, w1) \<Rightarrow> (Ret err, p1, w1)))"

section \<open>Providing\<close>

definition clear_state :: "K8sProvider \<Rightarrow> K8sProvider" where
  "clear_state p = p\<lparr>originalK8sSecrets := [], updateDestinations := [], updateDestinationLookup := [], secretsGroups := []\<rparr>"

definition revoked_error :: "gerror \<Rightarrow> bool" where
  "revoked_error e \<longleftrightarrow> Contains e ''403'' \<or> Contains e ''404''"

definition provide_body ::
  "'w k8sProviderDeps \<Rightarrow> range_order \<Rightarrow> yaml_list \<Rightarrow> yaml_map \<Rightarrow> 'tpl engine \<Rightarrow> (string \<Rightarrow> Checksum) \<Rightarrow> keys_to_remove
     \<Rightarrow> K8sProvider \<Rightarrow> 'w \<Rightarrow> (bool \<times> gerror option) outcome \<times> K8sProvider \<times> 'w" where
  "provide_body deps rt yamls yamlm eng sha256 keysToRemove p w =
     (case retrieveRequiredK8sSecrets deps yamls yamlm p w of
        (Panic, p1, w1) \<Rightarrow> (Panic, p1, w1)
      | (Ret (Some _), p1, w1) \<Rightarrow> (Ret (False, Some (recordedError deps CSPFK021E)), p1, w1)
      | (Ret None, p1, w1) \<Rightarrow>
          if length (updateDestinations p1) = 0 \<and> length (secretsGroups p1) = 0 \<and> length keysToRemove = 0
          then (Ret (False, None), p1, w1)
          else (case retrieveConjurSecrets deps rt p1 w1 of
             (Panic, w2) \<Rightarrow> (Panic, p1, w2)
           | (Ret (Inl err), w2) \<Rightarrow>
               if revoked_error err \<and> sanitize_on p1 then
                 (case removeDeletedSecrets deps rt eng sha256 p1 w2 of
                    (Panic, p2, w3) \<Rightarrow> (Panic, p2, w3)
                  | (Ret _, p2, w3) \<Rightarrow> (Ret (True, Some (recordedError deps (CSPFK034E err))), p2, w3))
               else (Ret (False, Some (recordedError deps (CSPFK034E err))), p1, w2)
           | (Ret (Inr conjurSecrets), w2) \<Rightarrow>
               (case updateRequiredK8sSecretsWithCleanup deps rt eng sha256 conjurSecrets keysToRemove p1 w2 of
                  (Panic, p2, w3) \<Rightarrow> (Panic, p2, w3)
                | (Ret (updated, Some e), p2, w3) \<Rightarrow> (Ret (updated, Some (recordedError deps CSPFK023E)), p2, w3)
                | (Ret (updated, None), p2, w3) \<Rightarrow> (Ret (updated, None), p2, w3))))"

text \<open>The deferred clearing runs on every way out, a panic included.\<close>

definition ProvideWithCleanup ::
  "'w k8sProviderDeps \<Rightarrow> range_order \<Rightarrow> yaml_list \<Rightarrow> yaml_map \<Rightarrow> 'tpl engine \<Rightarrow> (string \<Rightarrow> Checksum) \<Rightarrow> keys_to_remove
     \<Rightarrow> K8sProvider \<Rightarrow> 'w \<Rightarrow> (bool \<times> gerror option) outcome \<times> K8sProvider \<times> 'w" where
  "ProvideWithCleanup deps rt yamls yamlm eng sha256 keysToRemove p w =
     (case provide_body deps rt yamls yamlm eng sha256 keysToRemove p w of
        (r, p1, w1) \<Rightarrow> (r, clear_state p1, w1))"

definition k8s_Provide ::
  "'w k8sProviderDeps \<Rightarrow> range_order \<Rightarrow> yaml_list \<Rightarrow> yaml_map \<Rightarrow> 'tpl engine \<Rightarrow> (string \<Rightarrow> Checksum)
     \<Rightarrow> K8sProvider \<Rightarrow> 'w \<Rightarrow> (bool \<times> gerror option) outcome \<times> K8sProvider \<times> 'w" where
  "k8s_Provide deps rt yamls yamlm eng sha256 p w = ProvideWithCleanup deps rt yamls yamlm eng sha256 [] p w"

section \<open>Keys removed from a conjur-map\<close>

definition parseConjurMap :: "yaml_map \<Rightarrow> v1_secret option \<Rightarrow> (string, yaml_value) gomap" where
  "parseConjurMap yaml secret =
     (case secret of None \<Rightarrow> []
      | Some s \<Rightarrow>
        (case map_of (data_of s) ConjurMapKey of
           None \<Rightarrow> []
         | Some raw \<Rightarrow> if length raw = 0 then [] else fst (yaml raw)))"

definition getRemovedConjurMapKeys :: "yaml_map \<Rightarrow> v1_secret option \<Rightarrow> v1_secret option \<Rightarrow> string list" where
  "getRemovedConjurMapKeys yaml oldSecret newSecret =
     filter (\<lambda>k. \<not> ghas (parseConjurMap yaml newSecret) k) (gkeys (parseConjurMap yaml oldSecret))"

definition getAddedConjurMapKeys :: "yaml_map \<Rightarrow> v1_secret option \<Rightarrow> v1_secret option \<Rightarrow> string list" where
  "getAddedConjurMapKeys yaml oldSecret newSecret =
     filter (\<lambda>k. \<not> ghas (parseConjurMap yaml oldSecret) k) (gkeys (parseConjurMap yaml newSecret))"

definition GetRemovedKeys :: "yaml_map \<Rightarrow> K8sProvider \<Rightarrow> v1_secret option \<Rightarrow> v1_secret option \<Rightarrow> keys_to_remove" where
  "GetRemovedKeys yaml p oldSecret newSecret =
     (if \<not> sanitize_on p then []
      else case (oldSecret, newSecret) of
        (Some old, Some new) \<Rightarrow>
          (let removedKeys = getRemovedConjurMapKeys yaml oldSecret newSecret
           in if length removedKeys > 0 then gput (sec_Name new) removedKeys [] else [])
      | _ \<Rightarrow> [])"

definition removeKeys :: "string list \<Rightarrow> string list \<Rightarrow> string list" where
  "removeKeys keys toRemove =
     (if length toRemove = 0 then keys
      else let s = fold (\<lambda>k m. gput k () m) toRemove [] in filter (\<lambda>k. \<not> ghas s k) keys)"

definition MergeReAddedKeys ::
  "yaml_map \<Rightarrow> keys_to_remove \<Rightarrow> v1_secret option \<Rightarrow> v1_secret option \<Rightarrow> keys_to_remove" where
  "MergeReAddedKeys yaml keysToRemoveCumulative oldSecret newSecret =
     (case newSecret of
        None \<Rightarrow> keysToRemoveCumulative
      | Some new \<Rightarrow>
          (let addedKeys = getAddedConjurMapKeys yaml oldSecret newSecret;
               cumulative = gget [] keysToRemoveCumulative (sec_Name new)
           in if length addedKeys > 0 \<and> length cumulative > 0
              then gput (sec_Name new) (removeKeys cumulative addedKeys) keysToRemoveCumulative
              else keysToRemoveCumulative))"

end
