(* ===== verification/K8s_Facts.thy ===== *)
theory K8s_Facts
  imports K8s_Provider
begin

text \<open>
  Properties of the Kubernetes provider: the index of destinations stays consistent and free of
  duplicates, the new data of every Secret is determined by the destinations and the fetched
  values whatever the iteration order, a second run without changes updates nothing, and the
  state that holds secrets is cleared on every way out.
\<close>

section \<open>Nested maps as one store\<close>

text \<open>The data of all Secrets, read and written at (Secret, key).\<close>

definition look2 :: "secret_data \<Rightarrow> string \<times> string \<Rightarrow> string option" where
  "look2 sd ks = map_of (gget [] sd (fst ks)) (snd ks)"

definition put2 :: "string \<times> string \<Rightarrow> string \<Rightarrow> secret_data \<Rightarrow> secret_data" where
  "put2 ks v sd = gput (fst ks) (gput (snd ks) v (gget [] sd (fst ks))) sd"

definition del2 :: "string \<times> string \<Rightarrow> secret_data \<Rightarrow> secret_data" where
  "del2 ks sd = gput (fst ks) (gdel (snd ks) (gget [] sd (fst ks))) sd"

interpretation nested: keyed_store "[] :: secret_data" look2 put2 del2
  by unfold_locales (auto simp: look2_def put2_def del2_def prod_eq_iff)

lemma look2_fold:
  "look2 (fold (\<lambda>(ks, v). put2 ks v) writes sd) ks =
     (case map_of (rev writes) ks of None \<Rightarrow> look2 sd ks | Some v \<Rightarrow> Some v)"
  using nested.look_ins_all [of "rev writes" sd ks] by (simp add: foldr_conv_fold)

text \<open>When all writes to a key agree, the order does not matter.\<close>

lemma look2_writes:
  assumes "\<forall>v. (ks, v) \<in> set writes \<longrightarrow> v = x"
  shows "look2 (fold (\<lambda>(ks, v). put2 ks v) writes sd) ks =
     (if ks \<in> fst ` set writes then Some x else look2 sd ks)"
proof (cases "map_of (rev writes) ks")
  case None
  then have "ks \<notin> fst ` set writes" by (simp add: map_of_eq_None_iff)
  then show ?thesis using None by (simp add: look2_fold)
next
  case (Some v)
  then have m: "(ks, v) \<in> set writes" by (metis map_of_SomeD set_rev)
  then have "v = x" "ks \<in> fst ` set writes" using assms by force+
  then show ?thesis using Some by (simp add: look2_fold)
qed

lemma look2_untouched:
  "ks \<notin> fst ` set writes \<Longrightarrow> look2 (fold (\<lambda>(ks, v). put2 ks v) writes sd) ks = look2 sd ks"
  by (induction writes arbitrary: sd) (auto simp: nested.look_ins)

text \<open>Well-formed data: maps all the way, and no Secret without entries.\<close>

definition sd_wf :: "secret_data \<Rightarrow> bool" where
  "sd_wf sd \<longleftrightarrow> gwf sd \<and> (\<forall>k m. map_of sd k = Some m \<longrightarrow> gwf m \<and> m \<noteq> [])"

lemma sd_wf_Nil [simp]: "sd_wf []"
  by (simp add: sd_wf_def)

lemma sd_wf_put2 [simp, intro]: "sd_wf sd \<Longrightarrow> sd_wf (put2 ks v sd)"
  by (auto simp: sd_wf_def put2_def gget_def split: option.splits)

lemma sd_wf_writes: "sd_wf sd \<Longrightarrow> sd_wf (fold (\<lambda>(ks, v). put2 ks v) writes sd)"
  by (induction writes arbitrary: sd) auto

lemma sd_wf_ghas: "sd_wf sd \<Longrightarrow> ghas sd k \<longleftrightarrow> (\<exists>s. look2 sd (k, s) \<noteq> None)"
proof -
  assume wf: "sd_wf sd"
  show ?thesis
  proof (cases "map_of sd k")
    case (Some m)
    then obtain s v r where "m = (s, v) # r" using wf by (cases m) (auto simp: sd_wf_def)
    then have "look2 sd (k, s) \<noteq> None" using Some by (simp add: look2_def gget_def)
    then show ?thesis using Some by (auto simp: ghas_iff)
  qed (simp add: ghas_iff look2_def gget_def)
qed

section \<open>Destinations\<close>

definition dest_key :: "updateDestination \<Rightarrow> string \<times> string" where
  "dest_key d = (k8sSecretName d, secretName d)"

abbreviation dests :: "K8sProvider \<Rightarrow> string \<Rightarrow> updateDestination list" where
  "dests p v \<equiv> gget [] (updateDestinations p) v"

text \<open>
  The index holds exactly the keys of the listed destinations, and no key is listed twice for a
  variable.
\<close>

definition dest_inv :: "K8sProvider \<Rightarrow> bool" where
  "dest_inv p \<longleftrightarrow> gwf (updateDestinations p) \<and>
     (\<forall>v. distinct (map dest_key (dests p v))
        \<and> fst ` set (gget [] (updateDestinationLookup p) v) = dest_key ` set (dests p v))"

lemma appendDestination_fields [simp]:
  "originalK8sSecrets (appendDestination v d p) = originalK8sSecrets p"
  "secretsGroups (appendDestination v d p) = secretsGroups p"
  "prevSecretsChecksums (appendDestination v d p) = prevSecretsChecksums p"
  "sanitize_on (appendDestination v d p) = sanitize_on p"
  "podNamespace (appendDestination v d p) = podNamespace p"
  "requiredK8sSecrets (appendDestination v d p) = requiredK8sSecrets p"
  by (simp_all add: appendDestination_def Let_def)

lemma ghas_fst: "ghas m k \<longleftrightarrow> k \<in> fst ` set m"
  by (auto simp: ghas_iff map_of_eq_None_iff)

lemma appendDestination_dests:
  assumes "dest_inv p"
  shows "dests (appendDestination v d p) u =
     (if u = v \<and> dest_key d \<notin> dest_key ` set (dests p v) then dests p v @ [d] else dests p u)"
proof -
  let ?l = "updateDestinationLookup p"
  let ?l1 = "if \<not> ghas ?l v then gput v [] ?l else ?l"
  have g: "gget [] ?l1 v = gget [] ?l v" by (auto simp: gget_def ghas_iff split: option.splits)
  have "ghas (gget [] ?l v) (dest_key d) \<longleftrightarrow> dest_key d \<in> dest_key ` set (dests p v)"
    using assms by (simp add: ghas_fst dest_inv_def)
  then show ?thesis using g by (simp add: appendDestination_def Let_def dest_key_def)
qed

lemma appendDestination_inv [inv_intros]:
  assumes "dest_inv p"
  shows "dest_inv (appendDestination v d p)"
proof -
  let ?l = "updateDestinationLookup p"
  let ?l1 = "if \<not> ghas ?l v then gput v [] ?l else ?l"
  have g: "gget [] ?l1 u = gget [] ?l u" for u by (auto simp: gget_def ghas_iff split: option.splits)
  have k: "ghas (gget [] ?l v) (dest_key d) \<longleftrightarrow> dest_key d \<in> dest_key ` set (dests p v)"
    using assms by (simp add: ghas_fst dest_inv_def)
  have lk: "fst ` set (gget [] (updateDestinationLookup (appendDestination v d p)) u) =
      fst ` set (gget [] ?l u) \<union> (if u = v \<and> dest_key d \<notin> dest_key ` set (dests p v) then {dest_key d} else {})" for u
    using g k by (auto simp: appendDestination_def Let_def dest_key_def fst_set_gput)
  have "gwf (updateDestinations (appendDestination v d p))"
    using assms by (auto simp: appendDestination_def dest_inv_def Let_def)
  then show ?thesis
    using assms lk by (auto simp: dest_inv_def appendDestination_dests [OF assms])
qed

text \<open>A key of a Secret is a destination of at most one variable.\<close>

definition unique_dests :: "K8sProvider \<Rightarrow> bool" where
  "unique_dests p \<longleftrightarrow>
     (\<forall>v u d e. d \<in> set (dests p v) \<longrightarrow> e \<in> set (dests p u) \<longrightarrow> dest_key d = dest_key e \<longrightarrow> v = u)"

definition all_dest_keys :: "K8sProvider \<Rightarrow> (string \<times> string) set" where
  "all_dest_keys p = {dest_key d | d v. d \<in> set (dests p v)}"

lemma appendDestination_all_keys:
  "dest_inv p \<Longrightarrow> all_dest_keys (appendDestination v d p) = insert (dest_key d) (all_dest_keys p)"
  unfolding all_dest_keys_def by (auto simp: appendDestination_dests split: if_splits) blast+

lemma appendDestination_unique:
  assumes "dest_inv p" and "unique_dests p" and "dest_key d \<notin> all_dest_keys p"
  shows "unique_dests (appendDestination v d p)"
  using assms unfolding unique_dests_def appendDestination_dests [OF assms(1)] all_dest_keys_def
  by (auto split: if_splits)

text \<open>
  Processing the conjur-map of one Secret adds destinations in that Secret only, each for a key of
  the map, and keeps the invariants.
\<close>

lemma refresh_inv:
  assumes "dest_inv p" and "refreshUpdateDestinations recorded m name p = (e, p')"
  shows "dest_inv p' \<and> all_dest_keys p' \<subseteq> all_dest_keys p \<union> {name} \<times> fst ` set m
    \<and> (unique_dests p \<and> distinct (map fst m) \<and> all_dest_keys p \<inter> {name} \<times> fst ` set m = {} \<longrightarrow> unique_dests p')
    \<and> originalK8sSecrets p' = originalK8sSecrets p \<and> secretsGroups p' = secretsGroups p
    \<and> prevSecretsChecksums p' = prevSecretsChecksums p \<and> sanitize_on p' = sanitize_on p
    \<and> podNamespace p' = podNamespace p \<and> requiredK8sSecrets p' = requiredK8sSecrets p"
  using assms
proof (induction m arbitrary: p)
  case (Cons x m)
  obtain sn c where x: "x = (sn, c)" by force
  have step: ?case
    if run: "refreshUpdateDestinations recorded m name (appendDestination v d p) = (e, p')" and d: "dest_key d = (name, sn)" for v d
  proof -
    let ?q = "appendDestination v d p"
    have q: "dest_inv ?q" using Cons.prems(1) by (rule appendDestination_inv)
    have ks: "all_dest_keys ?q = insert (name, sn) (all_dest_keys p)"
      using appendDestination_all_keys [OF Cons.prems(1)] d by simp
    have u: "unique_dests ?q" if "unique_dests p" "all_dest_keys p \<inter> {name} \<times> fst ` set (x # m) = {}"
      using appendDestination_unique [OF Cons.prems(1) that(1)] that(2) d x by auto
    show ?thesis
      using Cons.IH [OF q run] ks u x by auto
  qed
  show ?case
  proof (cases "\<exists>v d. dest_key d = (name, sn) \<and> refreshUpdateDestinations recorded m name (appendDestination v d p) = (e, p')")
    case True
    then show ?thesis using step by blast
  next
    case False
    then have "p' = p"
      using Cons.prems(2) unfolding x
      by (auto simp: dest_key_def Let_def split: yaml_value.splits option.splits if_splits)
    then show ?thesis using Cons.prems(1) by auto
  qed
qed auto

definition same_config :: "K8sProvider \<Rightarrow> K8sProvider \<Rightarrow> bool" where
  "same_config p p' \<longleftrightarrow> prevSecretsChecksums p' = prevSecretsChecksums p \<and> sanitize_on p' = sanitize_on p
    \<and> podNamespace p' = podNamespace p \<and> requiredK8sSecrets p' = requiredK8sSecrets p"

text \<open>YAML maps have distinct keys.\<close>

definition yaml_map_ok :: "yaml_map \<Rightarrow> bool" where
  "yaml_map_ok yaml \<longleftrightarrow> (\<forall>raw. gwf (fst (yaml raw)))"

lemma dest_cong:
  assumes "updateDestinations p' = updateDestinations p" and "updateDestinationLookup p' = updateDestinationLookup p"
  shows "dest_inv p' = dest_inv p" and "all_dest_keys p' = all_dest_keys p" and "unique_dests p' = unique_dests p"
  using assms by (simp_all add: dest_inv_def all_dest_keys_def unique_dests_def)

lemma retrieve_one_inv:
  assumes "dest_inv p" and "retrieveRequiredK8sSecret recorded yamls yamlm s allow p = (e, p')"
  shows "dest_inv p' \<and> all_dest_keys p' \<subseteq> all_dest_keys p \<union> {sec_Name s} \<times> UNIV
    \<and> (unique_dests p \<and> yaml_map_ok yamlm \<and> sec_Name s \<notin> fst ` all_dest_keys p \<longrightarrow> unique_dests p')
    \<and> originalK8sSecrets p' = gput (sec_Name s) s (originalK8sSecrets p) \<and> same_config p p'"
proof -
  let ?p0 = "p\<lparr>originalK8sSecrets := gput (sec_Name s) s (originalK8sSecrets p)\<rparr>"
  obtain e1 p1 where g: "processSecretGroupAnnotations yamls s ?p0 = (e1, p1)" by force
  have d1: "updateDestinations p1 = updateDestinations p" "updateDestinationLookup p1 = updateDestinationLookup p"
    using g by (auto simp: processSecretGroupAnnotations_def split: sum.splits if_splits)
  have p1: "dest_inv p1" "all_dest_keys p1 = all_dest_keys p" "unique_dests p1 = unique_dests p"
    "originalK8sSecrets p1 = gput (sec_Name s) s (originalK8sSecrets p)" "same_config p p1"
    using g assms(1) dest_cong [OF d1]
    by (auto simp: processSecretGroupAnnotations_def same_config_def split: sum.splits if_splits)
  obtain b e2 p2 where y: "parseConjurSecretsYAML recorded yamlm s p1 = ((b, e2), p2)" by (metis surj_pair)
  have p2: "p2 = p1 \<or> (\<exists>m err raw. m = fst (yamlm raw) \<and> refreshUpdateDestinations recorded m (sec_Name s) p1 = (err, p2))"
    using y
    by (auto simp: parseConjurSecretsYAML_def split: option.splits if_splits prod.splits) (metis fst_conv)+
  have "p' = p1 \<or> p' = p2"
    using assms(2) g y by (auto simp: retrieveRequiredK8sSecret_def Let_def split: option.splits if_splits)
  then consider "p' = p1"
    | m err raw where "m = fst (yamlm raw)" "refreshUpdateDestinations recorded m (sec_Name s) p1 = (err, p')"
    using p2 by blast
  then show ?thesis
  proof cases
    case 1
    then show ?thesis using p1 by auto
  next
    case 2
    have "unique_dests p'" if "unique_dests p" "yaml_map_ok yamlm" "sec_Name s \<notin> fst ` all_dest_keys p"
    proof -
      have "all_dest_keys p1 \<inter> {sec_Name s} \<times> fst ` set m = {}" using that(3) p1(2) by force
      moreover have "distinct (map fst m)" using that(2) 2(1) by (simp add: yaml_map_ok_def gwf_def)
      ultimately show ?thesis using refresh_inv [OF p1(1) 2(2)] that(1) p1(3) by blast
    qed
    moreover have "dest_inv p'" "all_dest_keys p' \<subseteq> all_dest_keys p \<union> {sec_Name s} \<times> UNIV"
      "originalK8sSecrets p' = gput (sec_Name s) s (originalK8sSecrets p)" "same_config p p'"
      using refresh_inv [OF p1(1) 2(2)] p1 unfolding same_config_def by auto
    ultimately show ?thesis by blast
  qed
qed

text \<open>Every destination lies in a Secret whose object was recorded.\<close>

definition covered :: "K8sProvider \<Rightarrow> bool" where
  "covered p \<longleftrightarrow> fst ` all_dest_keys p \<subseteq> dom (map_of (originalK8sSecrets p))"

lemma retrieve_one_covered:
  assumes "dest_inv p" and "covered p" and "retrieveRequiredK8sSecret recorded yamls yamlm s allow p = (e, p')"
  shows "covered p'"
proof -
  have "fst ` all_dest_keys p' \<subseteq> insert (sec_Name s) (fst ` all_dest_keys p)"
    using retrieve_one_inv [OF assms(1,3)] by force
  then show ?thesis using retrieve_one_inv [OF assms(1,3)] assms(2) by (auto simp: covered_def)
qed

lemma same_config_trans: "same_config p q \<Longrightarrow> same_config q r \<Longrightarrow> same_config p r"
  by (simp add: same_config_def)

lemma same_config_refl [simp]: "same_config p p"
  by (simp add: same_config_def)

lemma disjoint_insert: "B' \<subseteq> insert a B \<Longrightarrow> a \<notin> A \<Longrightarrow> A \<inter> B = {} \<Longrightarrow> A \<inter> B' = {}"
  by blast

lemma retrieve_labeled_inv:
  assumes "dest_inv p" and "unique_dests p" and "yaml_map_ok yamlm" and "distinct (map sec_Name ss)"
    and "sec_Name ` set ss \<inter> fst ` all_dest_keys p = {}"
  shows "dest_inv (retrieve_labeled recorded yamls yamlm ss p) \<and> unique_dests (retrieve_labeled recorded yamls yamlm ss p)
     \<and> same_config p (retrieve_labeled recorded yamls yamlm ss p)"
  using assms
proof (induction ss arbitrary: p)
  case (Cons s ss)
  obtain e p1 where one: "retrieveRequiredK8sSecret recorded yamls yamlm s True p = (e, p1)" by force
  note i = retrieve_one_inv [OF Cons.prems(1) one]
  have u: "unique_dests p1" using i Cons.prems(2,3,5) by auto
  have "fst ` all_dest_keys p1 \<subseteq> insert (sec_Name s) (fst ` all_dest_keys p)" using i by force
  moreover have "sec_Name s \<notin> sec_Name ` set ss" "sec_Name ` set ss \<inter> fst ` all_dest_keys p = {}"
    using Cons.prems(4,5) by auto
  ultimately have k: "sec_Name ` set ss \<inter> fst ` all_dest_keys p1 = {}" by (rule disjoint_insert)
  let ?q = "if e = None then p1 else p1\<lparr>originalK8sSecrets := gdel (sec_Name s) (originalK8sSecrets p1)\<rparr>"
  have q: "dest_inv ?q" "unique_dests ?q" "all_dest_keys ?q = all_dest_keys p1"
    using i u dest_cong [of ?q p1] by simp_all
  have sc: "same_config p ?q" using i by (simp add: same_config_def)
  have "retrieve_labeled recorded yamls yamlm (s # ss) p = retrieve_labeled recorded yamls yamlm ss ?q"
    using one by (auto split: option.splits)
  moreover have "distinct (map sec_Name ss)" using Cons.prems(4) by simp
  ultimately show ?case
    using Cons.IH [OF q(1,2) Cons.prems(3) _ k [folded q(3)]] same_config_trans [OF sc] by metis
qed simp

text \<open>The API returns the object that was asked for.\<close>

definition retrieve_ok :: "'w k8sProviderDeps \<Rightarrow> bool" where
  "retrieve_ok deps \<longleftrightarrow> (\<forall>ns n w s w'. retrieveSecret deps ns n w = (Ret (Inr s), w') \<longrightarrow> sec_Name s = n)"

lemma retrieve_named_inv:
  assumes "dest_inv p" and "unique_dests p" and "covered p" and "yaml_map_ok yamlm" and "retrieve_ok deps"
    and "distinct names" and "set names \<inter> fst ` all_dest_keys p = {}"
    and "retrieve_named deps yamls yamlm names p w = (r, p', w')"
  shows "dest_inv p' \<and> unique_dests p' \<and> covered p' \<and> same_config p p'"
  using assms(1-3,6-8)
proof (induction names arbitrary: p w)
  case (Cons n names)
  show ?case
  proof (cases "\<exists>s w1. retrieveSecret deps (podNamespace p) n w = (Ret (Inr s), w1)")
    case False
    then have "p' = p" using Cons.prems(6) by (auto split: prod.splits outcome.splits sum.splits)
    then show ?thesis using Cons.prems by simp
  next
    case True
    then obtain s w1 where r: "retrieveSecret deps (podNamespace p) n w = (Ret (Inr s), w1)" by blast
    have n: "sec_Name s = n" using assms(5) r unfolding retrieve_ok_def by blast
    obtain e p1 where one: "retrieveRequiredK8sSecret (recordedError deps) yamls yamlm s False p = (e, p1)" by force
    note i = retrieve_one_inv [OF Cons.prems(1) one]
    have c: "covered p1" by (rule retrieve_one_covered [OF Cons.prems(1,3) one])
    have u: "unique_dests p1" using i Cons.prems(2,5) assms(4) n by auto
    show ?thesis
    proof (cases e)
      case (Some x)
      then have "p' = p1" using Cons.prems(6) r one by simp
      then show ?thesis using i c u by simp
    next
      case None
      then have run: "retrieve_named deps yamls yamlm names p1 w1 = (r, p', w')" using Cons.prems(6) r one by simp
      have "fst ` all_dest_keys p1 \<subseteq> insert n (fst ` all_dest_keys p)" using i n by force
      then have k: "set names \<inter> fst ` all_dest_keys p1 = {}"
        by (rule disjoint_insert) (use Cons.prems(4,5) in auto)
      have "dest_inv p1" "distinct names" using i Cons.prems(4) by simp_all
      then show ?thesis using Cons.IH [OF _ u c _ k run] i same_config_trans by blast
    qed
  qed
qed simp

text \<open>The state between runs: nothing recorded.\<close>

definition cleared :: "K8sProvider \<Rightarrow> bool" where
  "cleared p \<longleftrightarrow> originalK8sSecrets p = [] \<and> updateDestinations p = [] \<and> updateDestinationLookup p = [] \<and> secretsGroups p = []"

lemma cleared_dests: "cleared p \<Longrightarrow> dest_inv p \<and> unique_dests p \<and> covered p \<and> all_dest_keys p = {}"
  by (simp add: cleared_def dest_inv_def unique_dests_def covered_def all_dest_keys_def)

lemma cleared_new [simp]: "cleared (newProvider b c)"
  by (simp add: cleared_def newProvider_def)

lemma cleared_clear [simp]: "cleared (clear_state p)"
  by (simp add: cleared_def clear_state_def)

section \<open>New data\<close>

definition no_star :: "K8sProvider \<Rightarrow> bool" where
  "no_star p \<longleftrightarrow> \<not> ghas (updateDestinations p) ''*'' \<and> (\<forall>v. \<forall>d\<in>set (dests p v). secretName d \<noteq> ''*'')"

definition fetched_writes :: "range_order \<Rightarrow> K8sProvider \<Rightarrow> (string, string) gomap \<Rightarrow> ((string \<times> string) \<times> string) list" where
  "fetched_writes rt p cs =
     concat (map (\<lambda>(v, val). map (\<lambda>d. (dest_key d, decode_value (contentType d) val)) (dests p v)) (grange rt 12 cs))"

definition sanitize_writes :: "range_order \<Rightarrow> K8sProvider \<Rightarrow> (string, string) gomap \<Rightarrow> ((string \<times> string) \<times> string) list" where
  "sanitize_writes rt p cs =
     (if sanitize_on p then
        concat (map (\<lambda>(v, ds). if ghas cs v then [] else map (\<lambda>d. (dest_key d, [])) ds) (grange rt 13 (updateDestinations p)))
      else [])"

abbreviation write_all :: "((string \<times> string) \<times> string) list \<Rightarrow> secret_data \<Rightarrow> secret_data" where
  "write_all ws sd \<equiv> fold (\<lambda>(ks, v). put2 ks v) ws sd"

lemma gput_gput [simp]: "gput k v (gput k u m) = gput k v m"
  by (simp add: gput_def)

lemma put_dest_put2:
  "secretName d \<noteq> ''*'' \<Longrightarrow> put_dest v val d sd = put2 (dest_key d) (decode_value (contentType d) val) sd"
  by (auto simp: put_dest_def put2_def dest_key_def Let_def gget_def ghas_iff split: option.splits)

lemma fold_map_concat: "fold f (concat (map g xs)) s = fold (\<lambda>x. fold f (g x)) xs s"
  by (induction xs arbitrary: s) auto

lemma fold_cong_set: "(\<And>x s. x \<in> set xs \<Longrightarrow> f x s = g x s) \<Longrightarrow> fold f xs s = fold g xs s"
  by (induction xs arbitrary: s) auto

lemma fetched_data_writes:
  assumes "no_star p"
  shows "fetched_data rt p cs = write_all (fetched_writes rt p cs) []"
proof -
  have d: "fold (put_dest v val) (dests p v) sd
      = fold (\<lambda>(ks, v). put2 ks v) (map (\<lambda>d. (dest_key d, decode_value (contentType d) val)) (dests p v)) sd" for v val sd
    using assms by (simp add: fold_map comp_def no_star_def put_dest_put2 cong: fold_cong_set)
  show ?thesis
    unfolding fetched_data_def fetched_writes_def fold_map_concat
    using assms by (auto simp: no_star_def d Let_def intro!: fold_cong_set)
qed

lemma ofold_pure: "(\<And>x s. x \<in> set xs \<Longrightarrow> f x s = Ret (g x s)) \<Longrightarrow> ofold f xs s = Ret (fold g xs s)"
  by (induction xs arbitrary: s) auto

lemma sanitize_dest_pure:
  assumes "secretName d \<noteq> ''*''"
  shows "sanitize_dest rt p cs v d sd = Ret (if ghas cs v then sd else put2 (dest_key d) [] sd)"
  using assms
  by (auto simp: sanitize_dest_def put2_def dest_key_def Let_def gget_def ghas_iff split: option.splits)

lemma createSecretData_writes:
  assumes "no_star p" and "gwf (updateDestinations p)" and "range_order_ok rt"
  shows "createSecretData rt p cs = Ret (write_all (fetched_writes rt p cs @ sanitize_writes rt p cs) [])"
proof (cases "sanitize_on p")
  case True
  have ds: "\<forall>d\<in>set ds. secretName d \<noteq> ''*''" if "(v, ds) \<in> set (grange rt 13 (updateDestinations p))" for v ds
  proof -
    have "map_of (updateDestinations p) v = Some ds"
      using that grange_set [OF assms(3,2)] gwf_map_of_mem [OF assms(2)] by auto
    then have "dests p v = ds" by (simp add: gget_def)
    then show ?thesis using assms(1) by (auto simp: no_star_def)
  qed
  have inner: "ofold (sanitize_dest rt p cs v) ds sd =
      Ret (fold (\<lambda>(ks, v). put2 ks v) (if ghas cs v then [] else map (\<lambda>d. (dest_key d, [])) ds) sd)"
    if "(v, ds) \<in> set (grange rt 13 (updateDestinations p))" for v ds sd
  proof -
    have "ofold (sanitize_dest rt p cs v) ds sd = Ret (fold (\<lambda>d sd. if ghas cs v then sd else put2 (dest_key d) [] sd) ds sd)"
      using ds [OF that] by (intro ofold_pure) (simp add: sanitize_dest_pure)
    also have "fold (\<lambda>d sd. if ghas cs v then sd else put2 (dest_key d) [] sd) ds sd
        = fold (\<lambda>(ks, v). put2 ks v) (if ghas cs v then [] else map (\<lambda>d. (dest_key d, [])) ds) sd"
      by (induction ds arbitrary: sd) auto
    finally show ?thesis .
  qed
  have "ofold (\<lambda>(varID, dests) sd. ofold (sanitize_dest rt p cs varID) dests sd) (grange rt 13 (updateDestinations p)) sd
      = Ret (fold (\<lambda>(v, ds). fold (\<lambda>(ks, v). put2 ks v) (if ghas cs v then [] else map (\<lambda>d. (dest_key d, [])) ds))
               (grange rt 13 (updateDestinations p)) sd)" for sd
    by (rule ofold_pure) (auto simp: inner split: prod.splits)
  then show ?thesis
    using True by (simp add: createSecretData_def fetched_data_writes [OF assms(1)] sanitize_writes_def fold_map_concat case_prod_unfold)
next
  case False
  then show ?thesis by (simp add: createSecretData_def fetched_data_writes [OF assms(1)] sanitize_writes_def)
qed

text \<open>The value that a destination of a variable must get, if any.\<close>

definition dest_value :: "K8sProvider \<Rightarrow> (string, string) gomap \<Rightarrow> string \<Rightarrow> updateDestination \<Rightarrow> string option" where
  "dest_value p cs v d =
     (case map_of cs v of
        Some val \<Rightarrow> Some (decode_value (contentType d) val)
      | None \<Rightarrow> if sanitize_on p then Some [] else None)"

lemma writes_value:
  assumes "range_order_ok rt" and "gwf cs" and "dest_inv p" and "unique_dests p" and "d \<in> set (dests p v)"
    and "(dest_key d, x) \<in> set (fetched_writes rt p cs @ sanitize_writes rt p cs)"
  shows "dest_value p cs v d = Some x"
proof -
  have ud: "gwf (updateDestinations p)" using assms(3) by (simp add: dest_inv_def)
  have same: "v' = v \<and> d' = d" if "d' \<in> set (dests p v')" "dest_key d' = dest_key d" for v' d'
  proof -
    have "v' = v" using assms(4,5) that by (auto simp: unique_dests_def)
    moreover have "distinct (map dest_key (dests p v))" using assms(3) by (simp add: dest_inv_def)
    ultimately show ?thesis using that assms(5) by (auto simp: distinct_map inj_on_def)
  qed
  from assms(6) consider
      v' val d' where "(v', val) \<in> set cs" "d' \<in> set (dests p v')" "dest_key d' = dest_key d" "x = decode_value (contentType d') val"
    | v' ds d' where "sanitize_on p" "(v', ds) \<in> set (updateDestinations p)" "\<not> ghas cs v'" "d' \<in> set ds"
        "dest_key d' = dest_key d" "x = []"
    by (auto simp: fetched_writes_def sanitize_writes_def grange_set [OF assms(1,2)] grange_set [OF assms(1) ud] split: if_splits)
  then show ?thesis
  proof cases
    case 1
    then have "v' = v" "d' = d" using same by blast+
    moreover have "map_of cs v = Some val" using 1(1) \<open>v' = v\<close> gwf_map_of_mem [OF assms(2)] by blast
    ultimately show ?thesis using 1 by (simp add: dest_value_def)
  next
    case 2
    have "map_of (updateDestinations p) v' = Some ds" using 2(2) gwf_map_of_mem [OF ud] by blast
    then have "d' \<in> set (dests p v')" using 2(4) by (simp add: gget_def)
    then have "v' = v" using same 2(5) by blast
    then show ?thesis using 2 by (simp add: dest_value_def ghas_iff)
  qed
qed

lemma dest_key_written:
  assumes "range_order_ok rt" and "gwf cs" and "dest_inv p" and "d \<in> set (dests p v)" and "dest_value p cs v d \<noteq> None"
  shows "dest_key d \<in> fst ` set (fetched_writes rt p cs @ sanitize_writes rt p cs)"
proof -
  have ud: "gwf (updateDestinations p)" using assms(3) by (simp add: dest_inv_def)
  show ?thesis
  proof (cases "map_of cs v")
    case (Some val)
    then have "(v, val) \<in> set (grange rt 12 cs)" using grange_set [OF assms(1,2)] gwf_map_of_mem [OF assms(2)] by blast
    then show ?thesis using assms(4) by (force simp: fetched_writes_def)
  next
    case None
    then have sn: "sanitize_on p" using assms(5) by (simp add: dest_value_def split: if_splits)
    have "map_of (updateDestinations p) v = Some (dests p v)"
      using assms(4) by (cases "map_of (updateDestinations p) v") (auto simp: gget_def)
    then have "(v, dests p v) \<in> set (grange rt 13 (updateDestinations p))"
      using grange_set [OF assms(1) ud] gwf_map_of_mem [OF ud] by blast
    moreover have "\<not> ghas cs v" using None by (simp add: ghas_iff)
    ultimately show ?thesis using assms(4) sn by (force simp: sanitize_writes_def)
  qed
qed

lemma writes_keys:
  assumes "range_order_ok rt" and "gwf (updateDestinations p)"
    and "ks \<in> fst ` set (fetched_writes rt p cs @ sanitize_writes rt p cs)"
  shows "ks \<in> all_dest_keys p"
proof -
  have "d \<in> set (dests p v)" if "(v, ds) \<in> set (grange rt 13 (updateDestinations p))" "d \<in> set ds" for v ds d
  proof -
    have "map_of (updateDestinations p) v = Some ds"
      using that(1) grange_set [OF assms(1,2)] gwf_map_of_mem [OF assms(2)] by blast
    then show ?thesis using that(2) by (simp add: gget_def)
  qed
  then show ?thesis
    using assms(3) by (auto simp: fetched_writes_def sanitize_writes_def all_dest_keys_def split: if_splits) blast+
qed

lemma createSecretData_lookup:
  assumes "range_order_ok rt" and "gwf cs" and "dest_inv p" and "unique_dests p" and "no_star p"
  shows "\<exists>sd. createSecretData rt p cs = Ret sd \<and> sd_wf sd
    \<and> (\<forall>v. \<forall>d\<in>set (dests p v). look2 sd (dest_key d) = dest_value p cs v d)
    \<and> (\<forall>ks. ks \<notin> all_dest_keys p \<longrightarrow> look2 sd ks = None)"
proof -
  let ?ws = "fetched_writes rt p cs @ sanitize_writes rt p cs"
  have ud: "gwf (updateDestinations p)" using assms(3) by (simp add: dest_inv_def)
  have c: "createSecretData rt p cs = Ret (write_all ?ws [])"
    using createSecretData_writes [OF assms(5) ud assms(1)] .
  have "look2 (write_all ?ws []) (dest_key d) = dest_value p cs v d" if d: "d \<in> set (dests p v)" for v d
  proof (cases "dest_value p cs v d")
    case None
    then have "dest_key d \<notin> fst ` set ?ws" using writes_value [OF assms(1-4) d] by force
    then show ?thesis using None look2_untouched [of "dest_key d" ?ws "[]"] nested.look_emp by metis
  next
    case (Some x)
    then have "dest_key d \<in> fst ` set ?ws" using dest_key_written [OF assms(1-3) d] by simp
    moreover have "\<forall>y. (dest_key d, y) \<in> set ?ws \<longrightarrow> y = x" using writes_value [OF assms(1-4) d] Some by auto
    ultimately show ?thesis using Some look2_writes by metis
  qed
  moreover have "look2 (write_all ?ws []) ks = None" if "ks \<notin> all_dest_keys p" for ks
  proof -
    have "ks \<notin> fst ` set ?ws" using writes_keys [OF assms(1) ud] that by blast
    then show ?thesis using look2_untouched [of ks ?ws "[]"] nested.look_emp by metis
  qed
  ultimately show ?thesis using c sd_wf_writes [of "[]" ?ws] by (intro exI [of _ "write_all ?ws []"]) simp
qed

section \<open>Template groups\<close>

definition render_content :: "'tpl engine \<Rightarrow> v1_secret \<Rightarrow> string \<Rightarrow> Secret list \<Rightarrow> string option" where
  "render_content eng orig groupName sec =
     (let secretsMap = fold (\<lambda>s m. gput (s_Alias s) s m) sec [];
          groupTemplate = gget [] (sec_Annotations orig) (SecretGroupFileTemplatePrefix @ groupName)
      in case parse eng (GetTemplate groupName secretsMap) groupTemplate of
           Inl _ \<Rightarrow> None
         | Inr tpl \<Rightarrow>
             (case RenderFile eng tpl \<lparr>SecretsArray = sec, SecretsMap = secretsMap\<rparr> of
                (_, Some _) \<Rightarrow> None | (c, None) \<Rightarrow> Some c))"

definition group_writes ::
  "range_order \<Rightarrow> 'tpl engine \<Rightarrow> K8sProvider \<Rightarrow> (string, string) gomap \<Rightarrow> ((string \<times> string) \<times> string) list" where
  "group_writes rt eng p cs =
     concat (map (\<lambda>(k, groups). case map_of (originalK8sSecrets p) k of
         None \<Rightarrow> []
       | Some orig \<Rightarrow>
           concat (map (\<lambda>(g, sec). case render_content eng orig g sec of None \<Rightarrow> [] | Some c \<Rightarrow> [((k, g), c)])
             (grange rt 16 (secrets_by_group cs groups))))
       (grange rt 15 (secretsGroups p)))"

lemma render_template_group_put2:
  "render_template_group eng k orig g sec sd =
     (case render_content eng orig g sec of None \<Rightarrow> sd | Some c \<Rightarrow> put2 (k, g) c sd)"
  by (auto simp: render_template_group_def render_content_def put2_def Let_def gget_def ghas_iff
      split: sum.splits prod.splits option.splits)

lemma populate_writes:
  "populateGroupTemplateSecretData rt eng p cs sd = write_all (group_writes rt eng p cs) sd"
  unfolding populateGroupTemplateSecretData_def group_writes_def fold_map_concat
  by (intro fold_cong_set)
    (auto simp: fold_map_concat render_template_group_put2 split: option.splits prod.splits intro!: fold_cong_set)

lemma gwf_secrets_by_group: "gwf (secrets_by_group cs groups)"
  unfolding secrets_by_group_def
  by (rule fold_invariant_set, simp, rule fold_invariant_set, assumption, rule gwf_gput, assumption)

lemma set_group_writes:
  assumes "range_order_ok rt" and "gwf (secretsGroups p)"
  shows "((k, g), c) \<in> set (group_writes rt eng p cs) \<longleftrightarrow>
     (\<exists>groups orig sec. map_of (secretsGroups p) k = Some groups \<and> map_of (originalK8sSecrets p) k = Some orig
        \<and> map_of (secrets_by_group cs groups) g = Some sec \<and> render_content eng orig g sec = Some c)"
proof
  assume "((k, g), c) \<in> set (group_writes rt eng p cs)"
  then obtain groups orig sec where "(k, groups) \<in> set (secretsGroups p)" "map_of (originalK8sSecrets p) k = Some orig"
      "(g, sec) \<in> set (secrets_by_group cs groups)" "render_content eng orig g sec = Some c"
    unfolding group_writes_def
    by (auto simp: grange_set [OF assms] grange_set [OF assms(1) gwf_secrets_by_group] split: option.split_asm)
      metis
  then show "\<exists>groups orig sec. map_of (secretsGroups p) k = Some groups \<and> map_of (originalK8sSecrets p) k = Some orig
        \<and> map_of (secrets_by_group cs groups) g = Some sec \<and> render_content eng orig g sec = Some c"
    unfolding gwf_map_of_mem [OF assms(2)] gwf_map_of_mem [OF gwf_secrets_by_group] by blast
next
  assume "\<exists>groups orig sec. map_of (secretsGroups p) k = Some groups \<and> map_of (originalK8sSecrets p) k = Some orig
        \<and> map_of (secrets_by_group cs groups) g = Some sec \<and> render_content eng orig g sec = Some c"
  then obtain groups orig sec where "(k, groups) \<in> set (secretsGroups p)" "map_of (originalK8sSecrets p) k = Some orig"
      "(g, sec) \<in> set (secrets_by_group cs groups)" "render_content eng orig g sec = Some c"
    unfolding gwf_map_of_mem [OF assms(2)] gwf_map_of_mem [OF gwf_secrets_by_group] by blast
  then show "((k, g), c) \<in> set (group_writes rt eng p cs)"
    unfolding group_writes_def set_concat set_map grange_set [OF assms]
    by (intro UnionI [OF image_eqI [OF refl]])
      (auto simp: grange_set [OF assms(1) gwf_secrets_by_group] intro!: bexI [of _ "(g, sec)"])
qed

section \<open>The data that is compared and sent\<close>

lemma add_cleanup_lookup:
  assumes "range_order_ok rt" and "gwf (originalK8sSecrets p)" and "gwf sd"
  shows "gwf (add_cleanup_entries rt p keys sd)
    \<and> (\<forall>k. map_of (add_cleanup_entries rt p keys sd) k = (if map_of sd k = None \<and> ghas (originalK8sSecrets p) k \<and> ghas keys k
                                      then Some [] else map_of sd k))"
proof (cases "keys = []")
  case True
  then show ?thesis using assms by (simp add: add_cleanup_entries_def ghas_iff)
next
  case False
  have "gwf sd \<Longrightarrow> gwf (fold (\<lambda>(name, _) sd. if \<not> ghas sd name \<and> ghas keys name then gput name [] sd else sd) os sd)
      \<and> (\<forall>k. map_of (fold (\<lambda>(name, _) sd. if \<not> ghas sd name \<and> ghas keys name then gput name [] sd else sd) os sd) k =
           (if map_of sd k = None \<and> k \<in> fst ` set os \<and> ghas keys k then Some [] else map_of sd k))"
    for os :: "(string \<times> v1_secret) list" and sd :: secret_data
  proof (induction os arbitrary: sd)
    case (Cons x os)
    obtain n s where x: "x = (n, s)" by force
    show ?case using Cons.prems Cons.IH [of "if \<not> ghas sd n \<and> ghas keys n then gput n [] sd else sd"]
      by (auto simp: x ghas_iff)
  qed simp
  moreover have "fst ` set (grange rt 18 (originalK8sSecrets p)) = {k. ghas (originalK8sSecrets p) k}"
    using grange_set [OF assms(1,2)] by (auto simp: ghas_fst)
  ultimately show ?thesis using assms(3) False by (simp add: add_cleanup_entries_def)
qed

lemma fmt_data_cong:
  assumes "gwf m" and "gwf m'" and "map_of m = map_of m'"
  shows "fmt_data m = fmt_data m'"
proof -
  have "set m = set m'" using gwf_map_of_mem [OF assms(1)] gwf_map_of_mem [OF assms(2)] assms(3) by auto
  moreover have "distinct m" "distinct m'" using assms(1,2) by (simp_all add: gwf_def distinct_map)
  ultimately have "mset m = mset m'" by (simp add: set_eq_iff_mset_eq_distinct)
  moreover have "inj_on fst (set m)" using assms(1) by (simp add: gwf_def distinct_map)
  ultimately have "sort_key fst m = sort_key fst m'"
    using sort_key_inj_key_eq [of m "sort_key fst m'" fst] by simp
  then show ?thesis by (simp add: fmt_data_def)
qed

text \<open>The whole data of a run, before it is compared with the recorded checksums.\<close>

definition run_data ::
  "range_order \<Rightarrow> 'tpl engine \<Rightarrow> K8sProvider \<Rightarrow> (string, string) gomap \<Rightarrow> keys_to_remove \<Rightarrow> secret_data outcome" where
  "run_data rt eng p cs keys =
     (case createSecretData rt p cs of Panic \<Rightarrow> Panic
      | Ret sd \<Rightarrow> Ret (add_cleanup_entries rt p keys (populateGroupTemplateSecretData rt eng p cs sd)))"

definition run_ready :: "K8sProvider \<Rightarrow> bool" where
  "run_ready p \<longleftrightarrow> dest_inv p \<and> unique_dests p \<and> no_star p \<and> gwf (originalK8sSecrets p) \<and> gwf (secretsGroups p)"

lemma group_look2:
  assumes "range_order_ok rt" and "range_order_ok rt'" and "gwf (secretsGroups p)" and "look2 sd ks = look2 sd' ks"
  shows "look2 (write_all (group_writes rt eng p cs) sd) ks = look2 (write_all (group_writes rt' eng p cs) sd') ks"
proof -
  obtain k g where ks: "ks = (k, g)" by force
  note m = set_group_writes [OF assms(1,3)] and m' = set_group_writes [OF assms(2,3)]
  show ?thesis
  proof (cases "\<exists>c. (ks, c) \<in> set (group_writes rt eng p cs)")
    case False
    then have "ks \<notin> fst ` set (group_writes rt eng p cs)" "ks \<notin> fst ` set (group_writes rt' eng p cs)"
      unfolding ks by (auto simp: m m')
    then show ?thesis using assms(4) by (simp add: look2_untouched)
  next
    case True
    then obtain c where c: "(ks, c) \<in> set (group_writes rt eng p cs)" by blast
    have u: "\<forall>v. (ks, v) \<in> set (group_writes r eng p cs) \<longrightarrow> v = c" if "range_order_ok r" for r
      using c unfolding ks m set_group_writes [OF that assms(3)] by auto
    have "(ks, c) \<in> set (group_writes rt' eng p cs)" using c unfolding ks m m' .
    then have "ks \<in> fst ` set (group_writes rt' eng p cs)" "ks \<in> fst ` set (group_writes rt eng p cs)"
      using c by force+
    then show ?thesis
      using look2_writes [OF u [OF assms(1)], of sd] look2_writes [OF u [OF assms(2)], of sd'] by simp
  qed
qed

text \<open>Two runs over the same input print the same data for the same Secrets, whatever the iteration orders.\<close>

lemma run_data_same:
  assumes "range_order_ok rt" and "range_order_ok rt'" and "gwf cs" and "run_ready p"
  obtains sd sd' where "run_data rt eng p cs keys = Ret sd" and "run_data rt' eng p cs keys = Ret sd'"
    and "gwf sd" and "gwf sd'"
    and "\<And>k m'. map_of sd' k = Some m' \<Longrightarrow> \<exists>m. map_of sd k = Some m \<and> fmt_data m = fmt_data m'"
proof -
  have r: "dest_inv p" "unique_dests p" "no_star p" "gwf (originalK8sSecrets p)" "gwf (secretsGroups p)"
    using assms(4) by (simp_all add: run_ready_def)
  obtain a where a: "createSecretData rt p cs = Ret a" "sd_wf a"
      "\<forall>v. \<forall>d\<in>set (dests p v). look2 a (dest_key d) = dest_value p cs v d"
      "\<forall>ks. ks \<notin> all_dest_keys p \<longrightarrow> look2 a ks = None"
    using createSecretData_lookup [OF assms(1,3) r(1-3)] by blast
  obtain a' where a': "createSecretData rt' p cs = Ret a'" "sd_wf a'"
      "\<forall>v. \<forall>d\<in>set (dests p v). look2 a' (dest_key d) = dest_value p cs v d"
      "\<forall>ks. ks \<notin> all_dest_keys p \<longrightarrow> look2 a' ks = None"
    using createSecretData_lookup [OF assms(2,3) r(1-3)] by blast
  have eq: "look2 a ks = look2 a' ks" for ks
  proof (cases "ks \<in> all_dest_keys p")
    case True
    then obtain d v where "d \<in> set (dests p v)" "ks = dest_key d" by (auto simp: all_dest_keys_def)
    then show ?thesis using a(3) a'(3) by simp
  qed (simp add: a(4) a'(4))
  let ?b = "write_all (group_writes rt eng p cs) a" and ?b' = "write_all (group_writes rt' eng p cs) a'"
  have beq: "look2 ?b ks = look2 ?b' ks" for ks by (rule group_look2 [OF assms(1,2) r(5) eq])
  have wf: "sd_wf ?b" "sd_wf ?b'" using a(2) a'(2) by (simp_all add: sd_wf_writes)
  have dom: "map_of ?b k = None \<longleftrightarrow> map_of ?b' k = None" for k
    using sd_wf_ghas [OF wf(1), of k] sd_wf_ghas [OF wf(2), of k] beq unfolding ghas_iff by metis
  have gw: "gwf ?b" "gwf ?b'" using wf by (simp_all add: sd_wf_def)
  note c = add_cleanup_lookup [OF assms(1) r(4) gw(1), of keys] and c' = add_cleanup_lookup [OF assms(2) r(4) gw(2), of keys]
  let ?c = "add_cleanup_entries rt p keys ?b" and ?c' = "add_cleanup_entries rt' p keys ?b'"
  have "\<exists>m. map_of ?c k = Some m \<and> fmt_data m = fmt_data m'" if "map_of ?c' k = Some m'" for k m'
  proof (cases "map_of ?b' k")
    case None
    then show ?thesis using that c c' dom [of k] by (auto split: if_splits)
  next
    case (Some n')
    then obtain n where n: "map_of ?b k = Some n" using dom [of k] by auto
    have "map_of n s = map_of n' s" for s using beq [of "(k, s)"] n Some by (simp add: look2_def gget_def)
    then have "fmt_data n = fmt_data n'" using wf n Some by (intro fmt_data_cong) (auto simp: sd_wf_def)
    then show ?thesis using that c c' n Some by auto
  qed
  then show ?thesis
    using that [of ?c ?c'] a(1) a'(1) c c' by (simp add: run_data_def populate_writes)
qed

section \<open>Updating\<close>

definition recorded_sum :: "(string \<Rightarrow> Checksum) \<Rightarrow> K8sProvider \<Rightarrow> string \<times> (string, string) gomap \<Rightarrow> bool" where
  "recorded_sum sha256 p nd \<longleftrightarrow> map_of (prevSecretsChecksums p) (fst nd) = Some (sha256 (fmt_data (snd nd)))"

lemma update_one_step:
  assumes "update_one deps sha256 keys n d p w = (Ret (u, None), p', w')"
  shows "p' = p\<lparr>prevSecretsChecksums := prevSecretsChecksums p'\<rparr> \<and> recorded_sum sha256 p' (n, d)
    \<and> (\<forall>h. h \<noteq> n \<longrightarrow> map_of (prevSecretsChecksums p') h = map_of (prevSecretsChecksums p) h)"
  using assms
  by (auto simp: update_one_def recorded_sum_def ContentHasChanged_def FileChecksum_def Let_def
      split: if_splits prod.splits outcome.splits option.splits)

lemma update_all_records:
  assumes "distinct (map fst L)" and "update_all deps sha256 keys L upd p w = (Ret (u, None), p', w')"
  shows "p' = p\<lparr>prevSecretsChecksums := prevSecretsChecksums p'\<rparr> \<and> (\<forall>nd\<in>set L. recorded_sum sha256 p' nd)
    \<and> (\<forall>h. h \<notin> fst ` set L \<longrightarrow> map_of (prevSecretsChecksums p') h = map_of (prevSecretsChecksums p) h)"
  using assms
proof (induction L arbitrary: upd p w)
  case (Cons x L)
  obtain n d where x: "x = (n, d)" by force
  obtain u1 p1 w1 where one: "update_one deps sha256 keys n d p w = (Ret (u1, None), p1, w1)"
    and run: "update_all deps sha256 keys L (if u1 then True else upd) p1 w1 = (Ret (u, None), p', w')"
    using Cons.prems(2) unfolding x by (auto split: prod.splits outcome.splits option.splits)
  note s = update_one_step [OF one] and ih = Cons.IH [OF _ run]
  have d: "distinct (map fst L)" "n \<notin> fst ` set L" using Cons.prems(1) by (auto simp: x)
  have "recorded_sum sha256 p' (n, d)" using s ih [OF d(1)] d(2) by (simp add: recorded_sum_def)
  moreover have "p' = p\<lparr>prevSecretsChecksums := prevSecretsChecksums p'\<rparr>"
    using conjunct1 [OF s] conjunct1 [OF ih [OF d(1)]]
    by (metis K8sProvider.surjective K8sProvider.update_convs(7))
  ultimately show ?case using s ih [OF d(1)] by (auto simp: x)
qed simp

lemma update_all_silent:
  "\<forall>nd\<in>set L. recorded_sum sha256 p nd \<Longrightarrow> update_all deps sha256 keys L upd p w = (Ret (upd, None), p, w)"
  by (induction L arbitrary: upd)
    (auto simp: recorded_sum_def update_one_def ContentHasChanged_def FileChecksum_def Let_def)

lemma update_required_eq:
  "updateRequiredK8sSecretsWithCleanup deps rt eng sha256 cs keys p w =
     (case run_data rt eng p cs keys of Panic \<Rightarrow> (Panic, p, w)
      | Ret sd \<Rightarrow> update_all deps sha256 keys (grange rt 17 sd) False p w)"
  by (simp add: updateRequiredK8sSecretsWithCleanup_def run_data_def Let_def split: outcome.splits)

lemma run_data_prev: "run_data rt eng (p\<lparr>prevSecretsChecksums := c\<rparr>) cs keys = run_data rt eng p cs keys"
proof -
  let ?q = "p\<lparr>prevSecretsChecksums := c\<rparr>"
  have s: "sanitize_dest rt ?q = sanitize_dest rt p" by (intro ext) (simp add: sanitize_dest_def Let_def)
  have f: "fetched_data rt ?q cs = fetched_data rt p cs" by (simp add: fetched_data_def Let_def cong: if_cong)
  have c: "createSecretData rt ?q cs = createSecretData rt p cs" by (simp add: createSecretData_def s f Let_def)
  have g: "populateGroupTemplateSecretData rt eng ?q cs = populateGroupTemplateSecretData rt eng p cs"
    by (intro ext) (simp add: populateGroupTemplateSecretData_def)
  have a: "add_cleanup_entries rt ?q keys = add_cleanup_entries rt p keys"
    by (intro ext) (simp add: add_cleanup_entries_def)
  show ?thesis by (simp only: run_data_def c g a)
qed

section \<open>Variables to fetch\<close>

definition ids_inv :: "(string, bool) gomap \<times> string list \<Rightarrow> bool" where
  "ids_inv si \<longleftrightarrow> distinct (snd si) \<and> (\<forall>k. gget False (fst si) k \<longleftrightarrow> k \<in> set (snd si))"

lemma destination_ids_inv:
  "ids_inv (seen, ids) \<Longrightarrow>
     (if ''*'' \<in> set keys then destination_ids keys seen ids = None
      else \<exists>si. destination_ids keys seen ids = Some si \<and> ids_inv si \<and> set (snd si) = set ids \<union> set keys)"
proof (induction keys arbitrary: seen ids)
  case (Cons k keys)
  show ?case
  proof (cases "gget False seen k")
    case True
    then have "k \<in> set ids" using Cons.prems by (simp add: ids_inv_def)
    then show ?thesis using True Cons.IH [OF Cons.prems] by auto
  next
    case False
    then have "ids_inv (gput k True seen, ids @ [k])" using Cons.prems by (auto simp: ids_inv_def)
    then show ?thesis using False Cons.IH [of "gput k True seen" "ids @ [k]"] by auto
  qed
qed simp

definition tg_paths :: "TemplateGroup list \<Rightarrow> string set" where
  "tg_paths groups = Path ` set (concat (map tg_SecretSpecs groups))"

lemma group_ids_inv:
  assumes "ids_inv si"
  shows "ids_inv (group_ids groups si) \<and> set (snd (group_ids groups si)) = set (snd si) \<union> tg_paths groups"
proof -
  have step: "ids_inv si \<Longrightarrow>
     ids_inv (fold (\<lambda>spec (seen, ids). if gget False seen (Path spec) then (seen, ids)
        else (gput (Path spec) True seen, ids @ [Path spec])) specs si)
     \<and> set (snd (fold (\<lambda>spec (seen, ids). if gget False seen (Path spec) then (seen, ids)
        else (gput (Path spec) True seen, ids @ [Path spec])) specs si)) = set (snd si) \<union> Path ` set specs" for specs si
  proof (induction specs arbitrary: si)
    case (Cons s specs)
    obtain seen ids where si: "si = (seen, ids)" by force
    let ?si = "if gget False seen (Path s) then (seen, ids) else (gput (Path s) True seen, ids @ [Path s])"
    have "ids_inv ?si \<and> set (snd ?si) = insert (Path s) (set ids)" using Cons.prems by (auto simp: ids_inv_def si)
    then show ?case using Cons.IH [of ?si] by (simp add: si)
  qed simp
  show ?thesis using step [OF assms, of "concat (map tg_SecretSpecs groups)"] unfolding group_ids_def tg_paths_def .
qed

lemma all_group_ids_inv:
  assumes "ids_inv si"
  shows "ids_inv (fold (\<lambda>(_, groups). group_ids groups) gs si)
    \<and> set (snd (fold (\<lambda>(_, groups). group_ids groups) gs si)) = set (snd si) \<union> (\<Union>g\<in>snd ` set gs. tg_paths g)"
  using assms
proof (induction gs arbitrary: si)
  case (Cons g gs)
  then show ?case using group_ids_inv [of si "snd g"] Cons.IH [of "group_ids (snd g) si"] by (auto simp: split_beta)
qed simp

text \<open>The listed variables are those that destinations and groups name.\<close>

lemma listed_variables:
  assumes "range_order_ok rt" and "gwf (updateDestinations p)" and "gwf (secretsGroups p)"
  defines "wanted \<equiv> {v. ghas (updateDestinations p) v}
     \<union> {Path s | k groups g s. map_of (secretsGroups p) k = Some groups \<and> g \<in> set groups \<and> s \<in> set (tg_SecretSpecs g)}"
  shows "case listConjurSecretsToFetch recorded rt p of
      Inr ids \<Rightarrow> if ghas (updateDestinations p) ''*'' then ids = [''*''] else distinct ids \<and> set ids = wanted
    | Inl e \<Rightarrow> e = recorded CSPFK025E \<and> wanted = {} \<and> secretsGroups p \<noteq> []"
proof -
  let ?keys = "map fst (grange rt 10 (updateDestinations p))"
  have keys: "set ?keys = {v. ghas (updateDestinations p) v}"
    using grange_set [OF assms(1,2)] by (auto simp: ghas_fst)
  have gp: "(\<Union>g\<in>snd ` set (grange rt 11 (secretsGroups p)). tg_paths g) =
      {Path s | k groups g s. map_of (secretsGroups p) k = Some groups \<and> g \<in> set groups \<and> s \<in> set (tg_SecretSpecs g)}"
    unfolding grange_set [OF assms(1,3)] gwf_map_of_mem [OF assms(3)] tg_paths_def by force
  have ini: "ids_inv ([], [])" by (simp add: ids_inv_def)
  show ?thesis
  proof (cases "updateDestinations p = [] \<and> secretsGroups p = []")
    case True
    then show ?thesis by (simp add: listConjurSecretsToFetch_def wanted_def ghas_iff)
  next
    case some: False
    show ?thesis
    proof (cases "ghas (updateDestinations p) ''*''")
      case True
      then have "destination_ids ?keys [] [] = None" using destination_ids_inv [OF ini, of ?keys] keys by auto
      then have "listConjurSecretsToFetch recorded rt p = Inr [''*'']"
        using some by (auto simp: listConjurSecretsToFetch_def Let_def)
      then show ?thesis using True by simp
    next
      case False
      then obtain si where si: "destination_ids ?keys [] [] = Some si" "ids_inv si" "set (snd si) = set ?keys"
        using destination_ids_inv [OF ini, of ?keys] keys by auto
      let ?ids = "snd (fold (\<lambda>(_, groups). group_ids groups) (grange rt 11 (secretsGroups p)) si)"
      have ids: "distinct ?ids" "set ?ids = wanted"
        using all_group_ids_inv [OF si(2), of "grange rt 11 (secretsGroups p)"] si(3) keys gp
        by (auto simp: ids_inv_def wanted_def)
      have l: "listConjurSecretsToFetch recorded rt p = (if ?ids = [] then Inl (recorded CSPFK025E) else Inr ?ids)"
        using some si(1) by (auto simp: listConjurSecretsToFetch_def Let_def)
      show ?thesis
      proof (cases "?ids = []")
        case True
        then have "wanted = {}" using ids(2) by simp
        moreover have "updateDestinations p = []"
        proof (rule ccontr)
          assume "updateDestinations p \<noteq> []"
          then obtain v ds r where "updateDestinations p = (v, ds) # r" by (metis list.exhaust surj_pair)
          then have "v \<in> wanted" by (simp add: wanted_def ghas_iff)
          then show False using \<open>wanted = {}\<close> by simp
        qed
        ultimately show ?thesis using l True some by simp
      next
        case f: False
        then show ?thesis using l ids False by simp
      qed
    qed
  qed
qed

section \<open>Properties\<close>

text \<open>
  (C13) Collecting the required Secrets keeps the destinations consistent: the deduplication index
  agrees with the lists, no key of a Secret is listed twice or for two variables, and, when the
  Secrets are named in the configuration, every destination lies in a Secret that was read. The
  names are distinct, the API returns the object asked for, and YAML maps have distinct keys.
\<close>

theorem retrieve_keeps_destinations_consistent:
  assumes "cleared p" and "yaml_map_ok yamlm" and "retrieve_ok deps" and "distinct (requiredK8sSecrets p)"
    and "\<forall>items u. listLabeledSecrets deps (podNamespace p) w = (Ret (Inr items), u) \<longrightarrow> distinct (map sec_Name items)"
    and "retrieveRequiredK8sSecrets deps yamls yamlm p w = (r, p', w')"
  shows "dest_inv p' \<and> unique_dests p' \<and> (requiredK8sSecrets p \<noteq> [] \<longrightarrow> covered p') \<and> same_config p p'"
proof (cases "requiredK8sSecrets p = []")
  case False
  then have "retrieve_named deps yamls yamlm (requiredK8sSecrets p) p w = (r, p', w')"
    using assms(6) by (simp add: retrieveRequiredK8sSecrets_def)
  then show ?thesis
    using retrieve_named_inv [OF _ _ _ assms(2,3,4)] cleared_dests [OF assms(1)] by blast
next
  case True
  consider "p' = p"
    | items w1 where "listLabeledSecrets deps (podNamespace p) w = (Ret (Inr items), w1)"
        "p' = retrieve_labeled (recordedError deps) yamls yamlm items p"
    using assms(6) True by (auto simp: retrieveRequiredK8sSecrets_def split: prod.splits outcome.splits sum.splits)
  then show ?thesis
  proof cases
    case 1
    then show ?thesis using cleared_dests [OF assms(1)] by simp
  next
    case 2
    have "distinct (map sec_Name items)" using assms(5) 2(1) by blast
    then show ?thesis
      using retrieve_labeled_inv [OF _ _ assms(2), of p items] cleared_dests [OF assms(1)] 2(2) True by simp
  qed
qed

text \<open>
  (C3) The new data of the Secrets, without fetch-all: every destination of a fetched variable gets
  its value (decoded where base64 content is declared and valid), a destination of a variable that
  was not returned gets the empty value if sanitizing is enabled and nothing otherwise, and no
  other key is written. The order of the Go maps does not matter.
\<close>

theorem new_data_follows_destinations:
  assumes "range_order_ok rt" and "gwf cs" and "dest_inv p" and "unique_dests p" and "no_star p"
  shows "\<exists>sd. createSecretData rt p cs = Ret sd
    \<and> (\<forall>v. \<forall>d\<in>set (gget [] (updateDestinations p) v).
         map_of (gget [] sd (k8sSecretName d)) (secretName d) =
           (case map_of cs v of
              Some val \<Rightarrow> Some (decode_value (contentType d) val)
            | None \<Rightarrow> if sanitize_on p then Some [] else None))
    \<and> (\<forall>k s. map_of (gget [] sd k) s \<noteq> None \<longrightarrow>
         (\<exists>v. \<exists>d\<in>set (gget [] (updateDestinations p) v). k8sSecretName d = k \<and> secretName d = s))"
proof -
  obtain sd where sd: "createSecretData rt p cs = Ret sd"
      "\<forall>v. \<forall>d\<in>set (dests p v). look2 sd (dest_key d) = dest_value p cs v d"
      "\<forall>ks. ks \<notin> all_dest_keys p \<longrightarrow> look2 sd ks = None"
    using createSecretData_lookup [OF assms] by blast
  have "\<exists>v. \<exists>d\<in>set (dests p v). k8sSecretName d = k \<and> secretName d = s" if "map_of (gget [] sd k) s \<noteq> None" for k s
  proof -
    have "look2 sd (k, s) \<noteq> None" using that by (simp add: look2_def)
    then have "(k, s) \<in> all_dest_keys p" using spec [OF sd(3), of "(k, s)"] by argo
    then show ?thesis by (auto simp: all_dest_keys_def dest_key_def)
  qed
  then show ?thesis using sd(1,2) by (auto simp: look2_def dest_key_def dest_value_def)
qed

text \<open>
  (C9) Running the update twice on the same values changes nothing the second time, without
  fetch-all: after an update without error, the same update makes no call at all, reports no
  change and leaves the state as it is, also when Go visits the maps in another order the second
  time. No conjur-map may ask for everything: with fetch-all, variables whose names normalise to
  the same key compete for it, and which one gets it depends on the order.
\<close>

theorem second_update_is_silent:
  assumes "range_order_ok rt" and "range_order_ok rt'" and "gwf cs" and "run_ready p"
    and "updateRequiredK8sSecretsWithCleanup deps rt eng sha256 cs keys p w = (Ret (u, None), p1, w1)"
  shows "updateRequiredK8sSecretsWithCleanup deps rt' eng sha256 cs keys p1 w2 = (Ret (False, None), p1, w2)"
proof -
  obtain sd sd' where d: "run_data rt eng p cs keys = Ret sd" "run_data rt' eng p cs keys = Ret sd'" "gwf sd" "gwf sd'"
      "\<And>k m'. map_of sd' k = Some m' \<Longrightarrow> \<exists>m. map_of sd k = Some m \<and> fmt_data m = fmt_data m'"
    using run_data_same [OF assms(1-4), of eng keys] by metis
  have ua: "update_all deps sha256 keys (grange rt 17 sd) False p w = (Ret (u, None), p1, w1)"
    using assms(5) d(1) by (simp add: update_required_eq)
  note rec = update_all_records [OF grange_distinct [OF assms(1) d(3)] ua]
  have p1: "run_data rt' eng p1 cs keys = Ret sd'"
    using conjunct1 [OF rec] d(2) run_data_prev by metis
  have "recorded_sum sha256 p1 (k, m')" if "(k, m') \<in> set (grange rt' 17 sd')" for k m'
  proof -
    have "map_of sd' k = Some m'" using that grange_set [OF assms(2) d(4)] gwf_map_of_mem [OF d(4)] by blast
    then obtain m where m: "map_of sd k = Some m" "fmt_data m = fmt_data m'" using d(5) by blast
    then have "(k, m) \<in> set (grange rt 17 sd)" using grange_set [OF assms(1) d(3)] gwf_map_of_mem [OF d(3)] by blast
    then show ?thesis using rec m(2) by (auto simp: recorded_sum_def)
  qed
  then have "\<forall>nd\<in>set (grange rt' 17 sd'). recorded_sum sha256 p1 nd" by force
  then show ?thesis using p1 update_all_silent [of "grange rt' 17 sd'" sha256 p1] by (simp add: update_required_eq)
qed

text \<open>
  (C26) The variables that are fetched: none when nothing refers to a variable, everything when a
  conjur-map has a star, and otherwise every variable of a conjur-map and of a secret group exactly
  once; it is an error only if the groups name no variable at all.
\<close>

theorem variables_to_fetch_exact:
  assumes "range_order_ok rt" and "gwf (updateDestinations p)" and "gwf (secretsGroups p)"
  defines "wanted \<equiv> {v. ghas (updateDestinations p) v}
     \<union> {Path s | k groups g s. map_of (secretsGroups p) k = Some groups \<and> g \<in> set groups \<and> s \<in> set (tg_SecretSpecs g)}"
  shows "case listConjurSecretsToFetch recorded rt p of
      Inr ids \<Rightarrow> if ghas (updateDestinations p) ''*'' then ids = [''*''] else distinct ids \<and> set ids = wanted
    | Inl e \<Rightarrow> e = recorded CSPFK025E \<and> wanted = {} \<and> secretsGroups p \<noteq> []"
  unfolding wanted_def by (rule listed_variables [OF assms(1-3)])

text \<open>
  Merging an event into the pending removals drops the keys that the event added, for its Secret
  only.
\<close>

lemma merge_readded:
  assumes "newSecret = Some new"
  shows "set (gget [] (MergeReAddedKeys yaml pending oldSecret newSecret) (sec_Name new))
       = set (gget [] pending (sec_Name new)) - set (getAddedConjurMapKeys yaml oldSecret newSecret)
     \<and> (\<forall>n. n \<noteq> sec_Name new \<longrightarrow> gget [] (MergeReAddedKeys yaml pending oldSecret newSecret) n = gget [] pending n)"
proof -
  have k: "fst ` set (fold (\<lambda>k m. gput k () m) ks m) = set ks \<union> fst ` set m" for ks :: "string list" and m
    by (induction ks arbitrary: m) (auto simp: fst_set_gput)
  have "set (removeKeys xs ys) = set xs - set ys" for xs ys
    by (auto simp: removeKeys_def Let_def ghas_fst k)
  then show ?thesis using assms by (auto simp: MergeReAddedKeys_def Let_def)
qed

section \<open>Concrete situations\<close>

text \<open>A Secret with two entries in its conjur-map, one with base64 content.\<close>

definition k8s_secret :: "string \<Rightarrow> string \<Rightarrow> v1_secret" where
  "k8s_secret n raw = \<lparr>sec_Name = n, sec_Namespace = ''ns'', sec_Labels = [], sec_Annotations = [],
     sec_Data = Some [(ConjurMapKey, raw)]\<rparr>"

definition demo_yamlm :: yaml_map where
  "demo_yamlm raw =
     (if raw = ''two'' then ([(''pw'', YStr ''db/pw''), (''cert'', YMap [(''id'', YStr ''web/cert''), (''content-type'', YStr ''base64'')])], None)
      else if raw = ''one'' then ([(''pw'', YStr ''db/pw'')], None)
      else if raw = ''half'' then ([(''pw'', YStr ''db/pw''), (''cert'', YOther)], None)
      else if raw = ''all'' then ([(''*'', YStr ''*'')], None)
      else ([], Some ''syntax error''))"

definition demo_yamls :: yaml_list where
  "demo_yamls raw = Inr []"

definition id_engine :: "string engine" where
  "id_engine = \<lparr>parse = (\<lambda>_. Inr), execute = (\<lambda>t d. (t, None))\<rparr>"

definition demo_deps :: "(gerror + (string, string) gomap) \<Rightarrow> v1_secret list k8sProviderDeps" where
  "demo_deps r = provider_deps (\<lambda>m. m) demo_api (\<lambda>ids w. (Ret r, w))"

definition demo_fetched :: "(string, string) gomap" where
  "demo_fetched = [(''web/cert'', ''aGk=''), (''db/pw'', ''s3cret'')]"

definition demo_named :: K8sProvider where
  "demo_named = newProvider True \<lparr>kc_PodNamespace = ''ns'', kc_RequiredK8sSecrets = [''app'']\<rparr>"

definition demo_labeled :: K8sProvider where
  "demo_labeled = newProvider True \<lparr>kc_PodNamespace = ''ns'', kc_RequiredK8sSecrets = []\<rparr>"

definition demo_ready :: K8sProvider where
  "demo_ready = fst (snd (retrieveRequiredK8sSecrets (demo_deps (Inr demo_fetched)) demo_yamls demo_yamlm demo_named
     [k8s_secret ''app'' ''two'']))"

lemma demo_yaml_ok: "yaml_map_ok demo_yamlm"
  by (simp add: yaml_map_ok_def demo_yamlm_def gwf_def)

lemma demo_retrieve_ok: "retrieve_ok (demo_deps r)"
  by (auto simp: retrieve_ok_def demo_deps_def provider_deps_def RetrieveK8sSecret_def configK8sClient_def
      demo_api_def find_Some_iff split: option.splits)

lemma demo_ready_eq:
  "demo_ready = demo_named\<lparr>originalK8sSecrets := [(''app'', k8s_secret ''app'' ''two'')],
     updateDestinations := [(''db/pw'', [\<lparr>k8sSecretName = ''app'', secretName = ''pw'', contentType = ''text''\<rparr>]),
        (''web/cert'', [\<lparr>k8sSecretName = ''app'', secretName = ''cert'', contentType = ''base64''\<rparr>])],
     updateDestinationLookup := [(''db/pw'', [((''app'', ''pw''), ())]), (''web/cert'', [((''app'', ''cert''), ())])]\<rparr>"
  by code_simp

theorem retrieve_keeps_destinations_consistent_witness:
  "dest_inv demo_ready \<and> unique_dests demo_ready \<and> covered demo_ready"
proof -
  let ?d = "demo_deps (Inr demo_fetched)" and ?w = "[k8s_secret ''app'' ''two'']"
  have l: "\<forall>items u. listLabeledSecrets ?d (podNamespace demo_named) ?w = (Ret (Inr items), u) \<longrightarrow> distinct (map sec_Name items)"
    by (auto simp: demo_deps_def provider_deps_def ListLabeledK8sSecrets_def configK8sClient_def demo_api_def)
  have c: "cleared demo_named" "distinct (requiredK8sSecrets demo_named)" "requiredK8sSecrets demo_named \<noteq> []"
    by (simp_all add: demo_named_def newProvider_def cleared_def)
  obtain r w' where "retrieveRequiredK8sSecrets ?d demo_yamls demo_yamlm demo_named ?w = (r, demo_ready, w')"
    unfolding demo_ready_def by (metis prod.collapse)
  then show ?thesis
    using retrieve_keeps_destinations_consistent [OF c(1) demo_yaml_ok demo_retrieve_ok c(2) l] c(3) by blast
qed

lemma demo_ready_facts: "run_ready demo_ready"
  unfolding run_ready_def
proof (intro conjI)
  show "gwf (originalK8sSecrets demo_ready)" "gwf (secretsGroups demo_ready)"
    by (simp_all add: demo_ready_eq gwf_def demo_named_def newProvider_def)
  have d: "dests demo_ready v =
      (if v = ''db/pw'' then [\<lparr>k8sSecretName = ''app'', secretName = ''pw'', contentType = ''text''\<rparr>]
       else if v = ''web/cert'' then [\<lparr>k8sSecretName = ''app'', secretName = ''cert'', contentType = ''base64''\<rparr>] else [])" for v
    by (simp add: demo_ready_eq gget_def)
  show "dest_inv demo_ready" unfolding dest_inv_def d
    by (auto simp: demo_ready_eq gget_def gwf_def dest_key_def)
  show "unique_dests demo_ready" unfolding unique_dests_def d by (auto simp: dest_key_def split: if_splits)
  show "no_star demo_ready" unfolding no_star_def d by (simp add: demo_ready_eq ghas_iff)
qed

lemma demo_fetched_wf: "gwf demo_fetched"
  by (simp add: demo_fetched_def gwf_def)

theorem new_data_follows_destinations_witness:
  "\<exists>sd. createSecretData (\<lambda>_. rev) demo_ready demo_fetched = Ret sd \<and> map_of (gget [] sd ''app'') ''cert'' = Some ''hi''"
proof -
  have d: "\<lparr>k8sSecretName = ''app'', secretName = ''cert'', contentType = ''base64''\<rparr> \<in> set (gget [] (updateDestinations demo_ready) ''web/cert'')"
    by (simp add: demo_ready_eq gget_def)
  have v: "decode_value ''base64'' ''aGk='' = ''hi''" by code_simp
  have f: "map_of demo_fetched ''web/cert'' = Some ''aGk=''" by (simp add: demo_fetched_def)
  show ?thesis
    using new_data_follows_destinations [OF range_order_rev demo_fetched_wf, of demo_ready] demo_ready_facts d v f
    by (fastforce simp: run_ready_def)
qed

theorem second_update_is_silent_witness:
  "\<exists>p1 w1. updateRequiredK8sSecretsWithCleanup (demo_deps (Inr demo_fetched)) (\<lambda>_ ks. ks) id_engine (\<lambda>x. x) demo_fetched []
       demo_ready [k8s_secret ''app'' ''two''] = (Ret (True, None), p1, w1)
   \<and> updateRequiredK8sSecretsWithCleanup (demo_deps (Inr demo_fetched)) (\<lambda>_. rev) id_engine (\<lambda>x. x) demo_fetched []
       p1 w1 = (Ret (False, None), p1, w1)"
proof -
  let ?u = "updateRequiredK8sSecretsWithCleanup (demo_deps (Inr demo_fetched)) (\<lambda>_ ks. ks) id_engine (\<lambda>x. x) demo_fetched []
       demo_ready [k8s_secret ''app'' ''two'']"
  have "fst ?u = Ret (True, None)" by code_simp
  then have "?u = (Ret (True, None), fst (snd ?u), snd (snd ?u))" by (simp add: prod_eq_iff)
  then show ?thesis
    using second_update_is_silent [OF range_order_id range_order_rev demo_fetched_wf demo_ready_facts] by metis
qed

theorem variables_to_fetch_exact_witness:
  "case listConjurSecretsToFetch (\<lambda>m. m) (\<lambda>_. rev) demo_ready of
     Inr ids \<Rightarrow> distinct ids \<and> set ids = {''db/pw'', ''web/cert''} | Inl e \<Rightarrow> False"
proof -
  have g: "gwf (updateDestinations demo_ready)" "gwf (secretsGroups demo_ready)"
    using demo_ready_facts by (simp_all add: run_ready_def dest_inv_def)
  have s: "secretsGroups demo_ready = []" "\<not> ghas (updateDestinations demo_ready) ''*''"
    "{v. ghas (updateDestinations demo_ready) v} = {''db/pw'', ''web/cert''}"
    by (auto simp: demo_ready_eq demo_named_def newProvider_def ghas_fst)
  show ?thesis
    using variables_to_fetch_exact [OF range_order_rev g, of "\<lambda>m. m"] s by (auto split: sum.splits)
qed

text \<open>
  Sanitizing a fetch-all Secret after its access was revoked treats the star as a variable:
  its normalised name, a single dot, is written as a key of the Secret. Kubernetes does not accept
  that key.
\<close>

lemma fetch_all_sanitize_writes_dot_key:
  "case k8s_Provide (demo_deps (Inl ''403 Forbidden'')) (\<lambda>_ ks. ks) demo_yamls demo_yamlm id_engine (\<lambda>x. x) demo_named
     [k8s_secret ''app'' ''all''] of
     (r, p, [s]) \<Rightarrow> map_of (data_of s) ''.'' = Some [] | _ \<Rightarrow> False"
  by code_simp

end
