(* ===== verification/Cluster.thy ===== *)
theory Cluster
  imports K8s_Facts
begin

text \<open>
  What the Kubernetes provider does to a cluster. The API server is a parameter with the laws of a
  store of Secrets; the properties follow the Secrets through a run and through any sequence of
  runs, successful or not. The recorded checksums stand for data that the stored Secrets hold,
  because the text that is summed determines the data.
\<close>

section \<open>What a checksum stands for\<close>

text \<open>Kubernetes accepts keys of letters, digits, dash, underscore and dot.\<close>

definition valid_key :: "string \<Rightarrow> bool" where
  "valid_key k \<longleftrightarrow> list_all (\<lambda>c. k8s_key_char (of_char c)) k"

definition valid_data :: "(string, string) gomap \<Rightarrow> bool" where
  "valid_data d \<longleftrightarrow> gwf d \<and> (\<forall>k\<in>fst ` set d. valid_key k)"

lemma valid_key_chars:
  assumes "valid_key k"
  shows "CHR '':'' \<notin> set k" and "CHR '']'' \<notin> set k" and "CHR '' '' \<notin> set k" and "CHR ''*'' \<notin> set k"
  using assms by (auto simp: valid_key_def list_all_iff k8s_key_char_def)

lemma split_at_inject:
  "c \<notin> set xs \<Longrightarrow> c \<notin> set ys \<Longrightarrow> xs @ c # r = ys @ c # s \<longleftrightarrow> xs = ys \<and> r = s"
proof (induction xs arbitrary: ys)
  case (Cons x xs)
  then show ?case by (cases ys) auto
qed (auto simp: Cons_eq_append_conv)

abbreviation byte_texts :: "string \<Rightarrow> string list" where
  "byte_texts v \<equiv> map (\<lambda>c. FormatNat (of_char c)) v"

lemma JoinSep_tail: "JoinSep (x # xs) sep = x @ concat (map ((@) sep) xs)"
  by (induction xs arbitrary: x) (auto simp: JoinSep_Cons)

lemma FormatNat_no: "c \<in> {CHR '' '', CHR '']''} \<Longrightarrow> c \<notin> set (FormatNat n)"
  using FormatNat_digits [of c n] by fastforce

lemma byte_texts_no_bracket: "CHR '']'' \<notin> set (JoinSep (byte_texts v) '' '')"
  by (cases v) (auto simp: JoinSep_tail FormatNat_no)

lemma byte_texts_split: "v \<noteq> [] \<Longrightarrow> Split (JoinSep (byte_texts v) '' '') CHR '' '' = byte_texts v"
  by (rule Split_JoinSep) (simp_all add: FormatNat_no)

lemma byte_texts_inject:
  assumes "JoinSep (byte_texts v) '' '' = JoinSep (byte_texts v') '' ''"
  shows "v = v'"
proof -
  have ne: "JoinSep (byte_texts u) '' '' = [] \<longleftrightarrow> u = []" for u by (cases u) (simp_all add: JoinSep_tail)
  show ?thesis
  proof (cases "v = []")
    case True
    then show ?thesis using assms ne by metis
  next
    case False
    then have "v' \<noteq> []" using assms ne by metis
    then have b: "byte_texts v = byte_texts v'" using assms False byte_texts_split by metis
    have "inj (\<lambda>c. FormatNat (of_char c :: nat))" by (simp add: inj_def FormatNat_inject)
    then show ?thesis using b by (simp only: inj_map_eq_map)
  qed
qed

definition entry_text :: "string \<times> string \<Rightarrow> string" where
  "entry_text e = fst e @ '':'' @ fmt_bytes (snd e)"

lemma entry_text_inject:
  assumes "valid_key (fst e)" and "valid_key (fst e')"
  shows "entry_text e @ r = entry_text e' @ r' \<longleftrightarrow> e = e' \<and> r = r'"
proof
  assume "entry_text e @ r = entry_text e' @ r'"
  then have "fst e @ CHR '':'' # CHR ''['' # (JoinSep (byte_texts (snd e)) '' '' @ CHR '']'' # r)
      = fst e' @ CHR '':'' # CHR ''['' # (JoinSep (byte_texts (snd e')) '' '' @ CHR '']'' # r')"
    by (simp add: entry_text_def fmt_bytes_def)
  then have "fst e = fst e'" "JoinSep (byte_texts (snd e)) '' '' @ CHR '']'' # r = JoinSep (byte_texts (snd e')) '' '' @ CHR '']'' # r'"
    using valid_key_chars(1) [OF assms(1)] valid_key_chars(1) [OF assms(2)] by (simp_all add: split_at_inject)
  then show "e = e' \<and> r = r'"
    using byte_texts_no_bracket byte_texts_inject by (metis prod_eqI split_at_inject)
qed simp

lemma entry_texts_inject:
  assumes "\<forall>k\<in>fst ` set es. valid_key k" and "\<forall>k\<in>fst ` set es'. valid_key k"
    and "concat (map (\<lambda>e. '' '' @ entry_text e) es) @ '']'' = concat (map (\<lambda>e. '' '' @ entry_text e) es') @ '']''"
  shows "es = es'"
  using assms
proof (induction es arbitrary: es')
  case Nil
  then show ?case by (cases es') auto
next
  case (Cons e es)
  then obtain e' fs where es': "es' = e' # fs" by (cases es') auto
  have "e = e' \<and> concat (map (\<lambda>e. '' '' @ entry_text e) es) @ '']'' = concat (map (\<lambda>e. '' '' @ entry_text e) fs) @ '']''"
    using Cons.prems entry_text_inject [of e e'] by (simp add: es')
  then show ?case using Cons.IH [of fs] Cons.prems by (simp add: es')
qed

text \<open>The text that is summed determines the data.\<close>

lemma fmt_data_inject:
  assumes "valid_data d" and "valid_data d'" and "fmt_data d = fmt_data d'"
  shows "map_of d = map_of d'"
proof -
  let ?s = "sort_key fst d" and ?s' = "sort_key fst d'"
  have txtd: "fmt_data m = ''map['' @ drop 1 (concat (map (\<lambda>e. '' '' @ entry_text e) (sort_key fst m))) @ '']''" for m
    by (cases "sort_key fst m") (auto simp: fmt_data_def JoinSep_tail entry_text_def split_beta comp_def)
  have v: "\<forall>k\<in>fst ` set ?s. valid_key k" "\<forall>k\<in>fst ` set ?s'. valid_key k" using assms(1,2) by (simp_all add: valid_data_def)
  have len: "(concat (map (\<lambda>e. '' '' @ entry_text e) es) = []) \<longleftrightarrow> es = []" for es by (cases es) auto
  have hd: "es \<noteq> [] \<Longrightarrow> concat (map (\<lambda>e. '' '' @ entry_text e) es) = '' '' @ drop 1 (concat (map (\<lambda>e. '' '' @ entry_text e) es))" for es
    by (cases es) auto
  have some: "es = [] \<longleftrightarrow> drop 1 (concat (map (\<lambda>e. '' '' @ entry_text e) es)) = []" for es
    by (cases es) (auto simp: entry_text_def)
  have "concat (map (\<lambda>e. '' '' @ entry_text e) ?s) = concat (map (\<lambda>e. '' '' @ entry_text e) ?s')"
    using assms(3) some hd unfolding txtd by (metis append_same_eq append_eq_append_conv)
  then have "?s = ?s'" using entry_texts_inject [OF v] by simp
  then have "set d = set d'" by (metis set_sort)
  then have "map_of d k = Some v \<longleftrightarrow> map_of d' k = Some v" for k v
    using assms(1,2) by (simp add: gwf_map_of_mem valid_data_def)
  then show ?thesis by (intro ext) (metis not_None_eq)
qed

section \<open>A cluster as a store\<close>

text \<open>
  The documented behaviour of the API for the Secrets of a namespace, seen through what is stored
  under each name: reading returns the stored object and changes nothing, an update that succeeds
  stores the given object, whose keys are then valid, and one that fails changes nothing. The part
  of an annotation's name that names a secret group consists of the characters of a key.
\<close>

definition kube_store :: "'w kube_api \<Rightarrow> string \<Rightarrow> ('w \<Rightarrow> string \<Rightarrow> v1_secret option) \<Rightarrow> bool" where
  "kube_store api ns stored \<longleftrightarrow>
     (\<forall>n w r w'. api_get api ns n w = (r, w') \<longrightarrow> stored w' = stored w
        \<and> (\<forall>s. r = Inr s \<longrightarrow> stored w n = Some s \<and> sec_Name s = n)) \<and>
     (\<forall>sel w r w'. api_list api ns sel w = (r, w') \<longrightarrow> stored w' = stored w
        \<and> (\<forall>items. r = Inr items \<longrightarrow> distinct (map sec_Name items) \<and> (\<forall>s\<in>set items. stored w (sec_Name s) = Some s))) \<and>
     (\<forall>s w e w'. api_update api ns s w = (Inl e, w') \<longrightarrow> stored w' = stored w) \<and>
     (\<forall>s t w w'. api_update api ns s w = (Inr t, w') \<longrightarrow> stored w' = (stored w)(sec_Name s \<mapsto> s)
        \<and> (\<forall>k. ghas (data_of s) k \<longrightarrow> valid_key k)) \<and>
     (\<forall>w n s g. stored w n = Some s \<longrightarrow> ghas (sec_Annotations s) (SecretGroupPrefix @ g) \<longrightarrow> valid_key g)"

lemma kube_storeD:
  assumes "kube_store api ns stored"
  shows "api_get api ns n w = (r, w') \<Longrightarrow> stored w' = stored w"
    and "api_get api ns n w = (Inr s, w') \<Longrightarrow> stored w n = Some s \<and> sec_Name s = n"
    and "api_list api ns sel w = (r', w') \<Longrightarrow> stored w' = stored w"
    and "api_list api ns sel w = (Inr items, w') \<Longrightarrow> distinct (map sec_Name items) \<and> (\<forall>s\<in>set items. stored w (sec_Name s) = Some s)"
    and "api_update api ns s w = (Inl e, w') \<Longrightarrow> stored w' = stored w"
    and "api_update api ns s w = (Inr t, w') \<Longrightarrow> stored w' = (stored w)(sec_Name s \<mapsto> s) \<and> (\<forall>k. ghas (data_of s) k \<longrightarrow> valid_key k)"
    and "stored w n = Some s \<Longrightarrow> ghas (sec_Annotations s) (SecretGroupPrefix @ g) \<Longrightarrow> valid_key g"
  using assms unfolding kube_store_def by metis+

text \<open>The entries that a Secret holds, and the object that an update sends.\<close>

definition holds :: "(string, string) gomap \<Rightarrow> v1_secret \<Rightarrow> bool" where
  "holds d s \<longleftrightarrow> (\<forall>k v. map_of d k = Some v \<longrightarrow> map_of (data_of s) k = Some v)"

definition sent :: "string list \<Rightarrow> v1_secret \<Rightarrow> (string, string) gomap \<Rightarrow> v1_secret" where
  "sent keys orig d = (delete_keys keys orig)\<lparr>sec_Data := Some (put_entries d (data_of (delete_keys keys orig)))\<rparr>"

lemma sent_fields [simp]:
  "sec_Name (sent keys orig d) = sec_Name orig" "sec_Annotations (sent keys orig d) = sec_Annotations orig"
  "sec_Labels (sent keys orig d) = sec_Labels orig"
  by (simp_all add: sent_def delete_keys_def)

lemma sent_lookup:
  "gwf d \<Longrightarrow> map_of (data_of (sent keys orig d)) k =
     (case map_of d k of Some v \<Rightarrow> Some v | None \<Rightarrow> map_of (data_of (delete_keys keys orig)) k)"
  by (simp add: sent_def data_of_def put_entries_lookup split: option.splits)

lemma delete_nothing [simp]: "delete_keys [] orig = orig"
  by (simp add: delete_keys_def option.map_id)

lemma holds_sent: "gwf d \<Longrightarrow> holds d (sent keys orig d)"
  by (simp add: holds_def sent_lookup)

lemma UpdateK8sSecret_store:
  assumes "kube_store api ns stored" and "UpdateK8sSecret recorded api ns n (Some orig) d w = (r, w')"
  shows "if r = Ret None then stored w' = (stored w)(sec_Name orig \<mapsto> orig\<lparr>sec_Data := Some (put_entries d (data_of orig))\<rparr>)
        \<and> (\<forall>k. ghas (put_entries d (data_of orig)) k \<longrightarrow> valid_key k)
      else stored w' = stored w"
proof -
  let ?s = "orig\<lparr>sec_Data := Some (put_entries d (data_of orig))\<rparr>"
  obtain r1 w1 where u: "api_update api ns ?s w = (r1, w1)" by (metis surj_pair)
  have d: "data_of ?s = put_entries d (data_of orig)" by (simp add: data_of_def)
  show ?thesis
    using assms(2) u kube_storeD(5) [OF assms(1)] kube_storeD(6) [OF assms(1), of ?s]
    by (cases r1) (auto simp: UpdateK8sSecret_def Let_def data_of_def [symmetric] d split: sum.splits)
qed

section \<open>Updates and the recorded checksums\<close>

text \<open>Every recorded checksum is that of valid data which the stored Secret holds.\<close>

definition synced :: "(string \<Rightarrow> Checksum) \<Rightarrow> (string \<Rightarrow> v1_secret option) \<Rightarrow> K8sProvider \<Rightarrow> bool" where
  "synced sha256 secrets p \<longleftrightarrow>
     (\<forall>n c. map_of (prevSecretsChecksums p) n = Some c \<longrightarrow>
        (\<exists>d s. valid_data d \<and> c = sha256 (fmt_data d) \<and> secrets n = Some s \<and> holds d s))"

definition named_originals :: "K8sProvider \<Rightarrow> bool" where
  "named_originals p \<longleftrightarrow> (\<forall>n s. map_of (originalK8sSecrets p) n = Some s \<longrightarrow> sec_Name s = n)"

text \<open>What became of a Secret: it was skipped, its checksum being recorded, or the object was sent.\<close>

definition outcome_of ::
  "(string \<Rightarrow> Checksum) \<Rightarrow> keys_to_remove \<Rightarrow> K8sProvider \<Rightarrow> (string \<Rightarrow> v1_secret option) \<Rightarrow> (string \<Rightarrow> v1_secret option)
     \<Rightarrow> string \<Rightarrow> (string, string) gomap \<Rightarrow> bool" where
  "outcome_of sha256 keys p secrets secrets' n d \<longleftrightarrow>
     (map_of (prevSecretsChecksums p) n = Some (sha256 (fmt_data d)) \<and> secrets' n = secrets n)
     \<or> (\<exists>orig. map_of (originalK8sSecrets p) n = Some orig \<and> secrets' n = Some (sent (gget [] keys n) orig d))"

lemma update_one_store:
  assumes store: "kube_store api (podNamespace p) stored" and names: "named_originals p" and d: "gwf d"
    and sync: "synced sha256 (stored w) p"
    and run: "update_one (provider_deps recorded api retr) sha256 keys n d p w = (r, p', w')"
  shows "synced sha256 (stored w') p' \<and> p' = p\<lparr>prevSecretsChecksums := prevSecretsChecksums p'\<rparr>
     \<and> (\<forall>h. h \<noteq> n \<longrightarrow> stored w' h = stored w h \<and> map_of (prevSecretsChecksums p') h = map_of (prevSecretsChecksums p) h)
     \<and> (\<forall>u. r = Ret (u, None) \<longrightarrow> outcome_of sha256 keys p (stored w) (stored w') n d)"
proof (cases "ContentHasChanged n (FileChecksum sha256 (fmt_data d)) (prevSecretsChecksums p) \<and> map_of (originalK8sSecrets p) n \<noteq> None")
  case False
  then have "p' = p" "w' = w" "\<forall>u. r = Ret (u, None) \<longrightarrow> map_of (prevSecretsChecksums p) n = Some (sha256 (fmt_data d))"
    using run by (auto simp: update_one_def Let_def provider_deps_def UpdateK8sSecret_def ContentHasChanged_def
        FileChecksum_def split: if_splits option.splits)
  then show ?thesis using sync by (simp add: outcome_of_def)
next
  case True
  then obtain orig where orig: "map_of (originalK8sSecrets p) n = Some orig" by blast
  let ?o = "delete_keys (gget [] keys n) orig"
  have n: "sec_Name ?o = n" using names orig by (simp add: named_originals_def delete_keys_def)
  obtain res w1 where up: "UpdateK8sSecret recorded api (podNamespace p) n (Some ?o) d w = (res, w1)" by (metis surj_pair)
  note st = UpdateK8sSecret_store [OF store up]
  show ?thesis
  proof (cases "res = Ret None")
    case False
    then have "p' = p" "w' = w1" "\<forall>u. r \<noteq> Ret (u, None)"
      using run True orig up by (auto simp: update_one_def Let_def provider_deps_def split: outcome.splits option.splits)
    then show ?thesis using sync st False by simp
  next
    case ok: True
    have r: "p' = p\<lparr>prevSecretsChecksums := gput n (sha256 (fmt_data d)) (prevSecretsChecksums p)\<rparr>" "w' = w1"
      using run True orig up ok by (auto simp: update_one_def Let_def provider_deps_def FileChecksum_def)
    have sec: "stored w' = (stored w)(n \<mapsto> sent (gget [] keys n) orig d)"
      using st ok n r(2) by (simp add: sent_def)
    have "valid_key k" if "k \<in> fst ` set d" for k
    proof -
      have "map_of (put_entries d (data_of ?o)) k \<noteq> None"
        using that by (auto simp: put_entries_lookup [OF d] map_of_eq_None_iff split: option.splits)
      then show ?thesis using st ok by (simp add: ghas_iff)
    qed
    then have "valid_data d" using d by (simp add: valid_data_def)
    then have "synced sha256 (stored w') p'"
      using sync holds_sent [OF d] by (auto simp: synced_def r(1) sec)
    then show ?thesis using orig by (simp add: r(1) sec outcome_of_def)
  qed
qed

lemma outcome_of_cong:
  assumes "map_of (prevSecretsChecksums p) n = map_of (prevSecretsChecksums q) n" and "originalK8sSecrets p = originalK8sSecrets q"
    and "a n = b n" and "a' n = b' n"
  shows "outcome_of sha256 keys p a a' n d \<longleftrightarrow> outcome_of sha256 keys q b b' n d"
  using assms by (simp add: outcome_of_def)

lemma update_all_store:
  assumes "kube_store api (podNamespace p) stored" and "named_originals p" and "distinct (map fst L)"
    and "\<forall>d\<in>snd ` set L. gwf d" and "synced sha256 (stored w) p"
    and "update_all (provider_deps recorded api retr) sha256 keys L upd p w = (r, p', w')"
  shows "synced sha256 (stored w') p' \<and> p' = p\<lparr>prevSecretsChecksums := prevSecretsChecksums p'\<rparr>
     \<and> (\<forall>h. h \<notin> fst ` set L \<longrightarrow> stored w' h = stored w h)
     \<and> (\<forall>u. r = Ret (u, None) \<longrightarrow> (\<forall>(n, d)\<in>set L. outcome_of sha256 keys p (stored w) (stored w') n d))"
  using assms
proof (induction L arbitrary: upd p w)
  case (Cons x L)
  obtain n d where x: "x = (n, d)" by force
  obtain r1 p1 w1 where one: "update_one (provider_deps recorded api retr) sha256 keys n d p w = (r1, p1, w1)"
    by (metis surj_pair)
  note s = update_one_store [OF Cons.prems(1,2) _ Cons.prems(5) one]
  have d: "gwf d" "distinct (map fst L)" "n \<notin> fst ` set L" "\<forall>d\<in>snd ` set L. gwf d" using Cons.prems(3,4) by (auto simp: x)
  have p1: "p1 = p\<lparr>prevSecretsChecksums := prevSecretsChecksums p1\<rparr>" using s [OF d(1)] by blast
  have same: "podNamespace p1 = podNamespace p" "originalK8sSecrets p1 = originalK8sSecrets p" by (subst p1, simp)+
  show ?case
  proof (cases "\<exists>u1. r1 = Ret (u1, None)")
    case False
    then have "p' = p1" "w' = w1" "\<forall>u. r \<noteq> Ret (u, None)"
      using Cons.prems(6) one by (auto simp: x split: outcome.splits option.splits prod.splits)
    then show ?thesis using s [OF d(1)] by (auto simp: x)
  next
    case True
    then obtain u1 where u1: "r1 = Ret (u1, None)" by blast
    have run: "update_all (provider_deps recorded api retr) sha256 keys L (if u1 then True else upd) p1 w1 = (r, p', w')"
      using Cons.prems(6) one u1 by (simp add: x)
    have "named_originals p1" using Cons.prems(2) same by (simp add: named_originals_def)
    note ih = Cons.IH [OF _ this d(2,4) _ run]
    have ih: "synced sha256 (stored w') p'" "p' = p1\<lparr>prevSecretsChecksums := prevSecretsChecksums p'\<rparr>"
      "\<forall>h. h \<notin> fst ` set L \<longrightarrow> stored w' h = stored w1 h"
      "\<forall>u. r = Ret (u, None) \<longrightarrow> (\<forall>(m, e)\<in>set L. outcome_of sha256 keys p1 (stored w1) (stored w') m e)"
      using ih Cons.prems(1) s [OF d(1)] same by simp_all
    have "outcome_of sha256 keys p (stored w) (stored w') n d"
      using s [OF d(1)] u1 ih(3) d(3) outcome_of_cong [of p n p "stored w" "stored w" "stored w'" "stored w1"] by simp
    moreover have "outcome_of sha256 keys p (stored w) (stored w') m e"
      if "(m, e) \<in> set L" "outcome_of sha256 keys p1 (stored w1) (stored w') m e" for m e
    proof -
      have "m \<noteq> n" using that(1) d(3) by force
      then show ?thesis
        using that(2) s [OF d(1)] same outcome_of_cong [of p m p1 "stored w" "stored w1" "stored w'" "stored w'"] by simp
    qed
    ultimately have "\<forall>u. r = Ret (u, None) \<longrightarrow> (\<forall>(m, e)\<in>set (x # L). outcome_of sha256 keys p (stored w) (stored w') m e)"
      using ih(4) by (auto simp: x)
    moreover have "p' = p\<lparr>prevSecretsChecksums := prevSecretsChecksums p'\<rparr>"
      using p1 ih(2) by (metis K8sProvider.surjective K8sProvider.update_convs(7))
    ultimately show ?thesis using ih(1,3) s [OF d(1)] by (auto simp: x)
  qed
qed simp

section \<open>Well-formed data in every mode\<close>

definition data_wf :: "secret_data \<Rightarrow> bool" where
  "data_wf sd \<longleftrightarrow> gwf sd \<and> (\<forall>k m. map_of sd k = Some m \<longrightarrow> gwf m)"

lemma data_wf_Nil [simp]: "data_wf []"
  by (simp add: data_wf_def)

lemma data_wf_gget: "data_wf sd \<Longrightarrow> gwf (gget [] sd k)"
  by (auto simp: data_wf_def gget_def split: option.splits)

lemma data_wf_gput: "data_wf sd \<Longrightarrow> gwf m \<Longrightarrow> data_wf (gput k m sd)"
  by (auto simp: data_wf_def)

lemmas data_wf_intros = data_wf_gput data_wf_gget gwf_gput

lemma data_wf_put2: "data_wf sd \<Longrightarrow> data_wf (put2 ks v sd)"
  unfolding put2_def by (intro data_wf_intros)

lemma data_wf_put_dest: "data_wf sd \<Longrightarrow> data_wf (put_dest v x d sd)"
  by (auto simp: put_dest_def Let_def intro!: data_wf_intros)

lemma data_wf_fetched: "data_wf (fetched_data rt p cs)"
proof -
  have one: "data_wf (fold (put_dest v val) ds sd)" if "data_wf sd" for v val ds sd
    using that by (rule fold_invariant_set [where P = data_wf]) (rule data_wf_put_dest)
  show ?thesis
    unfolding fetched_data_def Let_def
    by (rule fold_invariant_set [where P = data_wf]) (simp_all add: split_beta one)
qed

lemma data_wf_wipe: "data_wf sd \<Longrightarrow> wipe_keys k keys sd = Ret sd' \<Longrightarrow> data_wf sd'"
  by (induction keys arbitrary: sd) (auto split: if_splits intro!: data_wf_intros)

lemma data_wf_sanitize: "data_wf sd \<Longrightarrow> sanitize_dest rt p cs v d sd = Ret sd' \<Longrightarrow> data_wf sd'"
  by (auto simp: sanitize_dest_def Let_def data_wf_wipe split: if_splits option.splits intro!: data_wf_intros)

lemma data_wf_create:
  assumes "createSecretData rt p cs = Ret sd"
  shows "data_wf sd"
proof (cases "sanitize_on p")
  case True
  then have "ofold (\<lambda>(v, ds) sd. ofold (sanitize_dest rt p cs v) ds sd) (grange rt 13 (updateDestinations p))
      (fetched_data rt p cs) = Ret sd" using assms by (simp add: createSecretData_def Let_def)
  then show ?thesis
  proof (rule ofold_invariant [where P = data_wf])
    fix x t t'
    assume t: "data_wf t" and f: "(case x of (v, ds) \<Rightarrow> \<lambda>sd. ofold (sanitize_dest rt p cs v) ds sd) t = Ret t'"
    obtain v ds where x: "x = (v, ds)" by force
    have "ofold (sanitize_dest rt p cs v) ds t = Ret t'" using f by (simp add: x)
    then show "data_wf t'" by (rule ofold_invariant [where P = data_wf]) (use t data_wf_sanitize in blast)+
  qed (rule data_wf_fetched)
qed (use assms data_wf_fetched [of rt p cs] in \<open>auto simp: createSecretData_def Let_def\<close>)

lemma data_wf_writes: "data_wf sd \<Longrightarrow> data_wf (write_all ws sd)"
  by (rule fold_invariant_set [where P = data_wf]) (auto intro: data_wf_put2)

lemma data_wf_cleanup: "data_wf sd \<Longrightarrow> data_wf (add_cleanup_entries rt p keys sd)"
  unfolding add_cleanup_entries_def
  by (auto intro!: fold_invariant_set [where P = data_wf] data_wf_gput simp: gwf_def)

lemma data_wf_run: "run_data rt eng p cs keys = Ret sd \<Longrightarrow> data_wf sd"
  unfolding run_data_def populate_writes
  by (auto split: outcome.splits dest!: data_wf_create intro: data_wf_cleanup data_wf_writes)

section \<open>Reading the Secrets\<close>

definition originals_ok :: "(string \<Rightarrow> v1_secret option) \<Rightarrow> K8sProvider \<Rightarrow> bool" where
  "originals_ok secrets p \<longleftrightarrow> gwf (originalK8sSecrets p)
     \<and> (\<forall>n s. map_of (originalK8sSecrets p) n = Some s \<longrightarrow> secrets n = Some s \<and> sec_Name s = n)"

lemma originals_ok_names: "originals_ok secrets p \<Longrightarrow> named_originals p"
  by (simp add: originals_ok_def named_originals_def)

lemma originals_ok_one:
  assumes "originals_ok secrets p" and "dest_inv p" and "secrets (sec_Name s) = Some s"
    and "retrieveRequiredK8sSecret recorded yamls yamlm s allow p = (e, p')"
  shows "originals_ok secrets p' \<and> originals_ok secrets (p'\<lparr>originalK8sSecrets := gdel (sec_Name s) (originalK8sSecrets p')\<rparr>)"
  using assms(1,3) retrieve_one_inv [OF assms(2,4)] by (auto simp: originals_ok_def)

lemma RetrieveK8sSecret_store:
  assumes "kube_store api ns stored" and "RetrieveK8sSecret recorded api ns n w = (r, w')"
  shows "stored w' = stored w \<and> (\<forall>s. r = Ret (Inr s) \<longrightarrow> stored w n = Some s \<and> sec_Name s = n)"
proof -
  obtain g w1 where g: "api_get api ns n w = (g, w1)" by (metis surj_pair)
  show ?thesis
    using assms(2) g kube_storeD(1) [OF assms(1) g] kube_storeD(2) [OF assms(1)]
    by (cases g) (auto simp: RetrieveK8sSecret_def split: sum.splits)
qed

lemma named_reads:
  assumes "kube_store api (podNamespace p) stored" and "dest_inv p" and "originals_ok (stored w) p"
    and "retrieve_named (provider_deps recorded api retr) yamls yamlm names p w = (r, p', w')"
  shows "stored w' = stored w \<and> originals_ok (stored w) p' \<and> same_config p p' \<and> dest_inv p'
     \<and> (r = Ret None \<longrightarrow> (\<forall>n. ghas (originalK8sSecrets p') n \<longleftrightarrow> n \<in> set names \<or> ghas (originalK8sSecrets p) n))"
  using assms
proof (induction names arbitrary: p w)
  case (Cons n names)
  obtain r1 w1 where g: "RetrieveK8sSecret recorded api (podNamespace p) n w = (r1, w1)" by (metis surj_pair)
  note g' = RetrieveK8sSecret_store [OF Cons.prems(1) g]
  show ?case
  proof (cases "\<exists>s. r1 = Ret (Inr s)")
    case False
    then have "p' = p" "w' = w1" "r \<noteq> Ret None"
      using Cons.prems(4) g by (auto simp: provider_deps_def split: outcome.splits sum.splits)
    then show ?thesis using g' Cons.prems(2,3) by simp
  next
    case True
    then obtain s where s: "r1 = Ret (Inr s)" by blast
    obtain e p1 where one: "retrieveRequiredK8sSecret recorded yamls yamlm s False p = (e, p1)" by (metis surj_pair)
    have n: "sec_Name s = n" "stored w (sec_Name s) = Some s" using g' s by auto
    note i = retrieve_one_inv [OF Cons.prems(2) one]
    have ok: "originals_ok (stored w1) p1" using originals_ok_one [OF Cons.prems(3,2) n(2) one] g' by simp
    show ?thesis
    proof (cases e)
      case (Some x)
      then have "p' = p1" "w' = w1" "r \<noteq> Ret None" using Cons.prems(4) g s one by (auto simp: provider_deps_def)
      then show ?thesis using i ok g' by simp
    next
      case None
      then have run: "retrieve_named (provider_deps recorded api retr) yamls yamlm names p1 w1 = (r, p', w')"
        using Cons.prems(4) g s one by (simp add: provider_deps_def)
      have "kube_store api (podNamespace p1) stored" using i Cons.prems(1) by (simp add: same_config_def)
      from Cons.IH [OF this _ ok run] show ?thesis
        using i g' n(1) same_config_trans by (auto simp: ghas_iff)
    qed
  qed
qed simp

lemma labeled_reads:
  assumes "\<forall>s\<in>set items. secrets (sec_Name s) = Some s" and "dest_inv p" and "originals_ok secrets p"
  shows "originals_ok secrets (retrieve_labeled recorded yamls yamlm items p) \<and> same_config p (retrieve_labeled recorded yamls yamlm items p)
     \<and> dest_inv (retrieve_labeled recorded yamls yamlm items p)"
  using assms
proof (induction items arbitrary: p)
  case (Cons s items)
  obtain e p1 where one: "retrieveRequiredK8sSecret recorded yamls yamlm s True p = (e, p1)" by (metis surj_pair)
  let ?q = "if e = None then p1 else p1\<lparr>originalK8sSecrets := gdel (sec_Name s) (originalK8sSecrets p1)\<rparr>"
  have "secrets (sec_Name s) = Some s" using Cons.prems(1) by simp
  note ok = originals_ok_one [OF Cons.prems(3,2) this one]
  note i = retrieve_one_inv [OF Cons.prems(2) one]
  have "dest_inv ?q" using i dest_cong(1) [of ?q p1] by simp
  moreover have "originals_ok secrets ?q" "same_config p ?q" using ok i by (simp_all add: same_config_def)
  moreover have "retrieve_labeled recorded yamls yamlm (s # items) p = retrieve_labeled recorded yamls yamlm items ?q"
    using one by (cases e) simp_all
  ultimately show ?case using Cons.IH [of ?q] Cons.prems(1) same_config_trans by auto
qed simp

lemma originals_cleared: "cleared p \<Longrightarrow> originals_ok secrets p"
  by (simp add: cleared_def originals_ok_def)

lemma required_reads:
  assumes "kube_store api (podNamespace p) stored" and "cleared p"
    and "retrieveRequiredK8sSecrets (provider_deps recorded api retr) yamls yamlm p w = (r, p', w')"
  shows "stored w' = stored w \<and> originals_ok (stored w) p' \<and> same_config p p'"
proof -
  have c: "dest_inv p" "originals_ok (stored w) p" using assms(2) by (simp_all add: cleared_dests originals_cleared)
  obtain l w1 where l: "api_list api (podNamespace p) (ManagedByProviderKey @ ''=true'') w = (l, w1)" by (metis surj_pair)
  show ?thesis
  proof (cases "requiredK8sSecrets p = []")
    case False
    then show ?thesis using named_reads [OF assms(1) c] assms(3) by (simp add: retrieveRequiredK8sSecrets_def)
  next
    case True
    then show ?thesis
      using assms(3) l kube_storeD(3) [OF assms(1) l] kube_storeD(4) [OF assms(1)] labeled_reads [OF _ c] c
      by (cases l) (auto simp: retrieveRequiredK8sSecrets_def provider_deps_def ListLabeledK8sSecrets_def split: sum.splits)
  qed
qed

section \<open>A run\<close>

definition keeps_secrets :: "('w \<Rightarrow> string \<Rightarrow> v1_secret option) \<Rightarrow> (string list \<Rightarrow> 'w \<Rightarrow> 'a \<times> 'w) \<Rightarrow> bool" where
  "keeps_secrets stored retr \<longleftrightarrow> (\<forall>ids u. stored (snd (retr ids u)) = stored u)"

definition same_settings :: "K8sProvider \<Rightarrow> K8sProvider \<Rightarrow> bool" where
  "same_settings p p' \<longleftrightarrow> podNamespace p' = podNamespace p \<and> requiredK8sSecrets p' = requiredK8sSecrets p
     \<and> sanitize_on p' = sanitize_on p"

lemma update_required_store:
  assumes "kube_store api (podNamespace p) stored" and "named_originals p" and "range_order_ok rt"
    and "synced sha256 (stored w) p"
    and "updateRequiredK8sSecretsWithCleanup (provider_deps recorded api retr) rt eng sha256 cs keys p w = (r, p', w')"
  shows "synced sha256 (stored w') p' \<and> same_settings p p'
     \<and> (\<forall>u. r = Ret (u, None) \<longrightarrow> (\<exists>sd. run_data rt eng p cs keys = Ret sd \<and> data_wf sd
          \<and> (\<forall>n. case map_of sd n of None \<Rightarrow> stored w' n = stored w n
                | Some d \<Rightarrow> outcome_of sha256 keys p (stored w) (stored w') n d)))"
proof (cases "run_data rt eng p cs keys")
  case Panic
  then show ?thesis using assms(4,5) by (auto simp: update_required_eq same_settings_def)
next
  case (Ret sd)
  let ?L = "grange rt 17 sd"
  have wf: "data_wf sd" "gwf sd" using data_wf_run [OF Ret] by (simp_all add: data_wf_def)
  have L: "set ?L = set sd" "distinct (map fst ?L)" using grange_set [OF assms(3) wf(2)] grange_distinct [OF assms(3) wf(2)] .
  have d: "\<forall>d\<in>snd ` set ?L. gwf d" using wf gwf_map_of_mem [OF wf(2)] L(1) by (force simp: data_wf_def)
  have "update_all (provider_deps recorded api retr) sha256 keys ?L False p w = (r, p', w')"
    using assms(5) Ret by (simp add: update_required_eq)
  note u = update_all_store [OF assms(1,2) L(2) d assms(4) this]
  have "podNamespace p' = podNamespace p" "requiredK8sSecrets p' = requiredK8sSecrets p" "sanitize_on p' = sanitize_on p"
    using u by (metis K8sProvider.select_convs K8sProvider.surjective K8sProvider.update_convs(7))+
  moreover have "case map_of sd n of None \<Rightarrow> stored w' n = stored w n
      | Some d \<Rightarrow> outcome_of sha256 keys p (stored w) (stored w') n d" if "r = Ret (v, None)" for n v
    using u that L(1) gwf_map_of_mem [OF wf(2), of n] by (auto simp: map_of_eq_None_iff split: option.splits)
  ultimately show ?thesis using u Ret wf(1) by (auto simp: same_settings_def)
qed

lemma remove_deleted_store:
  assumes "kube_store api (podNamespace p) stored" and "named_originals p" and "range_order_ok rt"
    and "synced sha256 (stored w) p"
    and "removeDeletedSecrets (provider_deps recorded api retr) rt eng sha256 p w = (r, p', w')"
  shows "synced sha256 (stored w') p' \<and> same_settings p p'"
proof (cases "listConjurSecretsToFetch recorded rt p")
  case (Inl e)
  then show ?thesis using assms(4,5) by (auto simp: removeDeletedSecrets_def provider_deps_def same_settings_def)
next
  case (Inr vs)
  let ?deps = "provider_deps recorded api retr" and ?empty = "fold (\<lambda>v m. gput v [] m) vs []"
  obtain r1 p1 w1 where u: "updateRequiredK8sSecretsWithCleanup ?deps rt eng sha256 ?empty [] p w = (r1, p1, w1)"
    by (metis surj_pair)
  have "recordedError ?deps = recorded" by (simp add: provider_deps_def)
  then have "p' = p1" "w' = w1"
    using assms(5) Inr u by (auto simp: removeDeletedSecrets_def updateRequiredK8sSecrets_def split: outcome.splits)
  then show ?thesis using update_required_store [OF assms(1-4) u] by simp
qed

lemma retrieveConjurSecrets_keeps:
  assumes "keeps_secrets stored retr" and "retrieveConjurSecrets (provider_deps recorded api retr) rt p w = (r, w')"
  shows "stored w' = stored w"
proof (cases "listConjurSecretsToFetch recorded rt p")
  case (Inr ids)
  obtain r1 w1 where g: "retr ids w = (r1, w1)" by (metis surj_pair)
  then have "stored w1 = stored w" using assms(1) unfolding keeps_secrets_def by (metis snd_conv)
  then show ?thesis
    using assms(2) Inr g by (auto simp: retrieveConjurSecrets_def provider_deps_def split: outcome.splits sum.splits)
qed (use assms(2) in \<open>auto simp: retrieveConjurSecrets_def provider_deps_def\<close>)

lemma same_settings_trans: "same_config p q \<Longrightarrow> same_settings q r \<Longrightarrow> same_settings p r"
  by (simp add: same_config_def same_settings_def)

text \<open>A run keeps the recorded checksums true, whatever its outcome.\<close>

lemma run_keeps_synced:
  assumes store: "kube_store api (podNamespace p) stored" and cl: "cleared p" and rt: "range_order_ok rt"
    and sync: "synced sha256 (stored w) p" and keeps: "keeps_secrets stored retr"
    and run: "ProvideWithCleanup (provider_deps recorded api retr) rt yamls yamlm eng sha256 keys p w = (r, p', w')"
  shows "synced sha256 (stored w') p' \<and> cleared p' \<and> same_settings p p'"
proof -
  let ?deps = "provider_deps recorded api retr"
  obtain r0 p1 w1 where a: "retrieveRequiredK8sSecrets ?deps yamls yamlm p w = (r0, p1, w1)" by (metis surj_pair)
  note reads = required_reads [OF store cl a]
  have st1: "kube_store api (podNamespace p1) stored" "named_originals p1" "synced sha256 (stored w1) p1"
    using reads store sync originals_ok_names by (auto simp: same_config_def synced_def)
  obtain f w2 where b: "retrieveConjurSecrets ?deps rt p1 w1 = (f, w2)" by (metis surj_pair)
  have sync2: "synced sha256 (stored w2) p1" using st1(3) retrieveConjurSecrets_keeps [OF keeps b] by simp
  obtain r3 p3 w3 where c: "removeDeletedSecrets ?deps rt eng sha256 p1 w2 = (r3, p3, w3)" by (metis surj_pair)
  note rem = remove_deleted_store [OF st1(1,2) rt sync2 c]
  obtain rb p2 wb where body: "provide_body ?deps rt yamls yamlm eng sha256 keys p w = (rb, p2, wb)" by (metis surj_pair)
  have "synced sha256 (stored wb) p2 \<and> same_settings p1 p2"
  proof (cases "\<exists>cs. f = Ret (Inr cs) \<and> r0 = Ret None \<and> \<not> (updateDestinations p1 = [] \<and> secretsGroups p1 = [] \<and> keys = [])")
    case True
    then obtain cs where cs: "f = Ret (Inr cs)" by blast
    obtain r4 p4 w4 where u: "updateRequiredK8sSecretsWithCleanup ?deps rt eng sha256 cs keys p1 w2 = (r4, p4, w4)"
      by (metis surj_pair)
    have "p2 = p4" "wb = w4"
      using body a b u cs True by (auto simp: provide_body_def split: outcome.splits option.splits if_splits)
    then show ?thesis using update_required_store [OF st1(1,2) rt sync2 u] by simp
  next
    case False
    then have "(p2, wb) \<in> {(p1, w1), (p1, w2), (p3, w3)}"
      using body a b c by (auto simp: provide_body_def split: outcome.splits option.splits sum.splits if_splits)
    then show ?thesis using st1(3) sync2 rem by (auto simp: same_settings_def)
  qed
  moreover have "p' = clear_state p2" "w' = wb" using run body by (simp_all add: ProvideWithCleanup_def)
  ultimately show ?thesis
    using same_settings_trans reads by (auto simp: synced_def clear_state_def same_settings_def cleared_def)
qed

text \<open>
  The states between runs: a new provider, then any number of runs with any result, clean-ups
  included, while the rest of the world (the values in Conjur, say) changes at will.
\<close>

inductive history ::
  "'w kube_api \<Rightarrow> ('w \<Rightarrow> string \<Rightarrow> v1_secret option) \<Rightarrow> 'tpl engine \<Rightarrow> (string \<Rightarrow> Checksum) \<Rightarrow> bool \<Rightarrow> K8sProviderConfig
     \<Rightarrow> K8sProvider \<Rightarrow> 'w \<Rightarrow> bool"
  for api stored eng sha256 sanitize config where
  fresh: "history api stored eng sha256 sanitize config (newProvider sanitize config) w"
| ran: "history api stored eng sha256 sanitize config p w \<Longrightarrow> keeps_secrets stored retr \<Longrightarrow> range_order_ok rt
     \<Longrightarrow> ProvideWithCleanup (provider_deps recorded api retr) rt yamls yamlm eng sha256 keys p w = (r, p', w')
     \<Longrightarrow> history api stored eng sha256 sanitize config p' w'"
| elsewhere: "history api stored eng sha256 sanitize config p w \<Longrightarrow> stored w' = stored w
     \<Longrightarrow> history api stored eng sha256 sanitize config p w'"

lemma history_inv:
  assumes "history api stored eng sha256 sanitize config p w" and "kube_store api (kc_PodNamespace config) stored"
  shows "synced sha256 (stored w) p \<and> cleared p \<and> same_settings (newProvider sanitize config) p"
  using assms
proof (induction rule: history.induct)
  case (fresh w)
  then show ?case by (simp add: synced_def same_settings_def) (simp add: newProvider_def)
next
  case (ran p w retr rt recorded yamls yamlm keys r p' w')
  have "podNamespace p = kc_PodNamespace config" using ran.IH ran.prems by (simp add: same_settings_def newProvider_def)
  then have "kube_store api (podNamespace p) stored" using ran.prems by simp
  from run_keeps_synced [OF this _ ran.hyps(3) _ ran.hyps(2,4)] show ?case
    using ran.IH ran.prems by (auto simp: same_settings_def)
next
  case (elsewhere p w w')
  then show ?case by simp
qed

end
