(* ===== verification/Cluster_Facts.thy ===== *)
theory Cluster_Facts
  imports Cluster
begin

text \<open>
  What a successful run delivers. The conjur-map of a Secret is its specification: it says which
  keys must hold the value of which variable. The destinations that the provider collects are
  exactly those of the specification, and after a run the stored Secrets hold what it asks for,
  whatever runs came before.
\<close>

section \<open>Specification\<close>

text \<open>The variable and the content type of an entry; an entry of another form is invalid.\<close>

definition entry_spec :: "yaml_value \<Rightarrow> (string \<times> string) option" where
  "entry_spec y =
     (case y of
        YStr v \<Rightarrow> Some (v, ''text'')
      | YMap m \<Rightarrow>
          (case string_at m ''id'' of
             None \<Rightarrow> None
           | Some v \<Rightarrow> if v = [] then None
                       else Some (v, if string_at m ''content-type'' = Some ''base64'' then ''base64'' else ''text''))
      | YOther \<Rightarrow> None)"

definition spec_map :: "yaml_map \<Rightarrow> v1_secret \<Rightarrow> (string, yaml_value) gomap" where
  "spec_map yaml s =
     (case map_of (data_of s) ConjurMapKey of
        None \<Rightarrow> []
      | Some raw \<Rightarrow> if raw = [] \<or> snd (yaml raw) \<noteq> None then [] else fst (yaml raw))"

definition spec_dests :: "yaml_map \<Rightarrow> v1_secret \<Rightarrow> string \<Rightarrow> updateDestination set" where
  "spec_dests yaml s v =
     {\<lparr>k8sSecretName = sec_Name s, secretName = sn, contentType = ct\<rparr> | sn y ct.
        map_of (spec_map yaml s) sn = Some y \<and> entry_spec y = Some (v, ct)}"

definition wanted_value :: "yaml_map \<Rightarrow> bool \<Rightarrow> (string \<Rightarrow> string option) \<Rightarrow> v1_secret \<Rightarrow> string \<Rightarrow> string option" where
  "wanted_value yaml sanitize conjur s key =
     (case Option.bind (map_of (spec_map yaml s) key) entry_spec of
        None \<Rightarrow> map_of (data_of s) key
      | Some (v, ct) \<Rightarrow>
          (case conjur v of
             Some x \<Rightarrow> Some (decode_value ct x)
           | None \<Rightarrow> if sanitize then Some [] else map_of (data_of s) key))"

section \<open>The destinations are those of the specification\<close>

lemma refresh_fold:
  assumes "refreshUpdateDestinations recorded m name p = (None, p')"
  shows "(\<forall>y\<in>snd ` set m. entry_spec y \<noteq> None) \<and>
    p' = fold (\<lambda>(sn, y). appendDestination (fst (the (entry_spec y)))
                 \<lparr>k8sSecretName = name, secretName = sn, contentType = snd (the (entry_spec y))\<rparr>) m p"
  using assms
proof (induction m arbitrary: p)
  case (Cons x m)
  obtain sn y where x: "x = (sn, y)" by force
  have "entry_spec y \<noteq> None \<and> refreshUpdateDestinations recorded m name
      (appendDestination (fst (the (entry_spec y))) \<lparr>k8sSecretName = name, secretName = sn, contentType = snd (the (entry_spec y))\<rparr> p)
      = (None, p')"
    using Cons.prems by (auto simp: x entry_spec_def Let_def split: yaml_value.splits option.splits if_splits)
  then show ?case using Cons.IH [OF conjunct2] by (auto simp: x)
qed simp

definition dests_nonempty :: "K8sProvider \<Rightarrow> bool" where
  "dests_nonempty p \<longleftrightarrow> (\<forall>v ds. map_of (updateDestinations p) v = Some ds \<longrightarrow> ds \<noteq> [])"

lemma append_nonempty: "dests_nonempty p \<Longrightarrow> dests_nonempty (appendDestination v d p)"
  by (auto simp: dests_nonempty_def appendDestination_def Let_def)

lemma appended_dests:
  fixes f g :: "yaml_value \<Rightarrow> string"
  assumes "dest_inv p" and "dests_nonempty p" and "distinct (map fst m)" and "\<forall>sn\<in>fst ` set m. (name, sn) \<notin> all_dest_keys p"
  defines "q \<equiv> fold (\<lambda>(sn, y). appendDestination (f y) \<lparr>k8sSecretName = name, secretName = sn, contentType = g y\<rparr>) m p"
  shows "dest_inv q \<and> dests_nonempty q \<and> (\<forall>v. set (dests q v) = set (dests p v)
      \<union> {\<lparr>k8sSecretName = name, secretName = sn, contentType = g y\<rparr> | sn y. (sn, y) \<in> set m \<and> f y = v})"
  unfolding q_def using assms(1-4)
proof (induction m arbitrary: p)
  case (Cons x m)
  obtain sn y where x: "x = (sn, y)" by force
  let ?d = "\<lparr>k8sSecretName = name, secretName = sn, contentType = g y\<rparr>"
  let ?p1 = "appendDestination (f y) ?d p"
  have new: "dest_key ?d \<notin> all_dest_keys p" using Cons.prems(4) by (simp add: x dest_key_def)
  then have "dest_key ?d \<notin> dest_key ` set (dests p (f y))" by (auto simp: all_dest_keys_def)
  then have d1: "set (dests ?p1 v) = set (dests p v) \<union> (if f y = v then {?d} else {})" for v
    by (auto simp: appendDestination_dests [OF Cons.prems(1)])
  have "all_dest_keys ?p1 = insert (name, sn) (all_dest_keys p)"
    using appendDestination_all_keys [OF Cons.prems(1)] by (simp add: dest_key_def)
  then have "\<forall>s\<in>fst ` set m. (name, s) \<notin> all_dest_keys ?p1" using Cons.prems(3,4) by (auto simp: x)
  from Cons.IH [OF appendDestination_inv [OF Cons.prems(1)] append_nonempty [OF Cons.prems(2)] _ this] Cons.prems(3)
  show ?case using d1 by (auto simp: x)
qed simp

text \<open>The groups of a Secret are named by its annotations.\<close>

definition groups_ok :: "(string \<Rightarrow> v1_secret option) \<Rightarrow> K8sProvider \<Rightarrow> bool" where
  "groups_ok secrets p \<longleftrightarrow> gwf (secretsGroups p) \<and>
     (\<forall>k groups g. map_of (secretsGroups p) k = Some groups \<longrightarrow> g \<in> set groups \<longrightarrow>
        (\<exists>s. secrets k = Some s \<and> ghas (sec_Annotations s) (SecretGroupPrefix @ tg_Name g)))"

lemma annotation_groups_names:
  assumes "annotation_groups yaml annots rest gs = Inr gs'" and "set rest \<subseteq> set annots"
    and "\<forall>g\<in>set gs. ghas annots (SecretGroupPrefix @ tg_Name g)"
  shows "\<forall>g\<in>set gs'. ghas annots (SecretGroupPrefix @ tg_Name g)"
  using assms
proof (induction rest arbitrary: gs)
  case (Cons x rest)
  obtain a v where x: "x = (a, v)" by force
  have a: "ghas annots (SecretGroupPrefix @ TrimPrefix a SecretGroupPrefix)" if "HasPrefix a SecretGroupPrefix"
    using Cons.prems(2) HasPrefix_TrimPrefix [OF that] by (auto simp: x ghas_fst) (metis fst_conv image_eqI)
  show ?case
    using Cons.prems Cons.IH [of gs] Cons.IH [of "gs @ [\<lparr>tg_Name = TrimPrefix a SecretGroupPrefix, tg_FileTemplate = [], tg_SecretSpecs = t\<rparr>]" for t] a
    by (auto simp: x Let_def split: if_splits sum.splits)
qed simp

lemma one_complete:
  assumes "dest_inv p" and "dests_nonempty p" and "yaml_map_ok yamlm" and "sec_Name s \<notin> fst ` all_dest_keys p"
    and "groups_ok secrets p" and "secrets (sec_Name s) = Some s"
    and run: "retrieveRequiredK8sSecret recorded yamls yamlm s allow p = (None, p')"
  shows "dests_nonempty p' \<and> groups_ok secrets p' \<and> (\<forall>y\<in>snd ` set (spec_map yamlm s). entry_spec y \<noteq> None)
    \<and> (\<forall>v. set (dests p' v) = set (dests p v) \<union> spec_dests yamlm s v)"
proof -
  let ?p0 = "p\<lparr>originalK8sSecrets := gput (sec_Name s) s (originalK8sSecrets p)\<rparr>"
  obtain e1 p1 where g: "processSecretGroupAnnotations yamls s ?p0 = (e1, p1)" by (metis surj_pair)
  have e1: "e1 = None" using run g by (auto simp: retrieveRequiredK8sSecret_def Let_def split: option.splits)
  have d1: "updateDestinations p1 = updateDestinations p" "updateDestinationLookup p1 = updateDestinationLookup p"
    using g by (auto simp: processSecretGroupAnnotations_def split: sum.splits if_splits)
  have grp: "groups_ok secrets p1"
    using g e1 assms(5,6) annotation_groups_names [where annots = "sec_Annotations s" and rest = "sec_Annotations s" and gs = "[]"]
    by (auto simp: processSecretGroupAnnotations_def groups_ok_def split: sum.splits if_splits)
  obtain b p2 where y: "parseConjurSecretsYAML recorded yamlm s p1 = ((b, None), p2)" "p' = p2"
    using run g e1 by (auto simp: retrieveRequiredK8sSecret_def Let_def split: prod.splits option.splits if_splits)
  have "p2 = p1 \<and> spec_map yamlm s = [] \<or> refreshUpdateDestinations recorded (spec_map yamlm s) (sec_Name s) p1 = (None, p2)"
    using y(1) by (auto simp: parseConjurSecretsYAML_def spec_map_def split: option.splits if_splits prod.splits)
  then have ref: "refreshUpdateDestinations recorded (spec_map yamlm s) (sec_Name s) p1 = (None, p2)" by auto
  note f = refresh_fold [OF ref]
  have wf: "gwf (spec_map yamlm s)" using assms(3) by (auto simp: yaml_map_ok_def spec_map_def split: option.splits)
  have p1: "dest_inv p1" "dests_nonempty p1" "\<forall>sn\<in>fst ` set (spec_map yamlm s). (sec_Name s, sn) \<notin> all_dest_keys p1"
    using assms(1,2,4) dest_cong [OF d1] d1 by (auto simp: dests_nonempty_def image_iff)
  note ap = appended_dests [OF p1(1,2) _ p1(3), of "\<lambda>y. fst (the (entry_spec y))" "\<lambda>y. snd (the (entry_spec y))"]
  have "secretsGroups p2 = secretsGroups p1" using refresh_inv [OF p1(1) ref] by simp
  moreover have "{\<lparr>k8sSecretName = sec_Name s, secretName = sn, contentType = snd (the (entry_spec y))\<rparr> | sn y.
      (sn, y) \<in> set (spec_map yamlm s) \<and> fst (the (entry_spec y)) = v} = spec_dests yamlm s v" for v
  proof -
    have "entry_spec y = Some (u, ct) \<longleftrightarrow> fst (the (entry_spec y)) = u \<and> ct = snd (the (entry_spec y))"
      if "(sn, y) \<in> set (spec_map yamlm s)" for sn y u ct
      using conjunct1 [OF f] that by (cases "entry_spec y") force+
    then show ?thesis unfolding spec_dests_def gwf_map_of_mem [OF wf] by blast
  qed
  ultimately show ?thesis
    using ap f wf grp d1 y(2) by (auto simp: groups_ok_def gwf_def)
qed

lemma named_complete:
  assumes "kube_store api (podNamespace p) stored" and "yaml_map_ok yamlm" and "dest_inv p" and "dests_nonempty p"
    and "groups_ok (stored w) p" and "distinct names" and "set names \<inter> fst ` all_dest_keys p = {}"
    and "retrieve_named (provider_deps recorded api retr) yamls yamlm names p w = (Ret None, p', w')"
  shows "dests_nonempty p' \<and> groups_ok (stored w) p'
    \<and> (\<forall>n\<in>set names. \<exists>s. stored w n = Some s \<and> sec_Name s = n \<and> (\<forall>y\<in>snd ` set (spec_map yamlm s). entry_spec y \<noteq> None))
    \<and> (\<forall>v. set (dests p' v) = set (dests p v) \<union> (\<Union>n\<in>set names. spec_dests yamlm (the (stored w n)) v))"
  using assms(1,3-8)
proof (induction names arbitrary: p w)
  case (Cons n names)
  obtain r1 w1 where g: "RetrieveK8sSecret recorded api (podNamespace p) n w = (r1, w1)" by (metis surj_pair)
  note g' = RetrieveK8sSecret_store [OF Cons.prems(1) g]
  obtain s where s: "r1 = Ret (Inr s)"
    using Cons.prems(7) g by (auto simp: provider_deps_def split: outcome.splits sum.splits)
  then have n: "sec_Name s = n" "stored w n = Some s" "stored w1 = stored w" using g' by auto
  obtain e p1 where one: "retrieveRequiredK8sSecret recorded yamls yamlm s False p = (e, p1)" by (metis surj_pair)
  have e: "e = None" and run: "retrieve_named (provider_deps recorded api retr) yamls yamlm names p1 w1 = (Ret None, p', w')"
    using Cons.prems(7) g s one by (auto simp: provider_deps_def split: option.splits)
  have "sec_Name s \<notin> fst ` all_dest_keys p" using Cons.prems(6) n(1) by auto
  from one_complete [OF Cons.prems(2,3) assms(2) this Cons.prems(4) _ one [unfolded e]] n
  have c: "dests_nonempty p1" "groups_ok (stored w) p1" "\<forall>y\<in>snd ` set (spec_map yamlm s). entry_spec y \<noteq> None"
    "\<forall>v. set (dests p1 v) = set (dests p v) \<union> spec_dests yamlm s v" by auto
  note i = retrieve_one_inv [OF Cons.prems(2) one]
  have "fst ` all_dest_keys p1 \<subseteq> insert n (fst ` all_dest_keys p)" using i n(1) by force
  then have k: "set names \<inter> fst ` all_dest_keys p1 = {}"
    by (rule disjoint_insert) (use Cons.prems(5,6) in auto)
  have st: "kube_store api (podNamespace p1) stored" using i Cons.prems(1) by (simp add: same_config_def)
  have "groups_ok (stored w1) p1" "distinct names" "dest_inv p1" using c(2) n(3) Cons.prems(5) i by simp_all
  from Cons.IH [OF st this(3) c(1) this(1,2) k run] show ?case using c(3,4) n by auto
qed simp

lemma spec_dests_unique:
  assumes "d \<in> spec_dests yamlm s v" and "e \<in> spec_dests yamlm s u" and "secretName d = secretName e"
  shows "v = u \<and> d = e"
  using assms by (auto simp: spec_dests_def)

section \<open>The data of a run\<close>

lemma secrets_by_group_names: "ghas (secrets_by_group cs groups) g \<Longrightarrow> g \<in> tg_Name ` set groups"
proof -
  have "fst ` set (secrets_by_group cs groups) \<subseteq> tg_Name ` set groups"
    unfolding secrets_by_group_def
    by (rule fold_invariant_set [where P = "\<lambda>m. fst ` set m \<subseteq> tg_Name ` set groups"], simp,
        rule fold_invariant_set [where P = "\<lambda>m. fst ` set m \<subseteq> tg_Name ` set groups"]) (auto simp: fst_set_gput)
  then show "ghas (secrets_by_group cs groups) g \<Longrightarrow> g \<in> tg_Name ` set groups" by (auto simp: ghas_fst)
qed

text \<open>A key that no group of its Secret has as its name gets the value of its destination, if any.\<close>

lemma run_data_lookup:
  assumes "range_order_ok rt" and "gwf cs" and "run_ready p" and "groups_ok secrets p"
    and "run_data rt eng p cs [] = Ret sd"
    and "\<And>s. secrets n = Some s \<Longrightarrow> \<not> ghas (sec_Annotations s) (SecretGroupPrefix @ key)"
  shows "(\<forall>v. \<forall>d\<in>set (dests p v). dest_key d = (n, key) \<longrightarrow> look2 sd (n, key) = dest_value p cs v d)
    \<and> ((n, key) \<notin> all_dest_keys p \<longrightarrow> look2 sd (n, key) = None)"
proof -
  have r: "dest_inv p" "unique_dests p" "no_star p" "gwf (secretsGroups p)" using assms(3) by (simp_all add: run_ready_def)
  obtain a where a: "createSecretData rt p cs = Ret a"
      "\<forall>v. \<forall>d\<in>set (dests p v). look2 a (dest_key d) = dest_value p cs v d"
      "\<forall>ks. ks \<notin> all_dest_keys p \<longrightarrow> look2 a ks = None"
    using createSecretData_lookup [OF assms(1,2) r(1-3)] by blast
  have sd: "sd = write_all (group_writes rt eng p cs) a"
    using assms(5) a(1) by (simp add: run_data_def populate_writes add_cleanup_entries_def)
  have "(n, key) \<notin> fst ` set (group_writes rt eng p cs)"
  proof
    assume "(n, key) \<in> fst ` set (group_writes rt eng p cs)"
    then obtain c where "((n, key), c) \<in> set (group_writes rt eng p cs)" by force
    then obtain groups where gr: "map_of (secretsGroups p) n = Some groups" "ghas (secrets_by_group cs groups) key"
      unfolding set_group_writes [OF assms(1) r(4)] by (auto simp: ghas_iff)
    obtain g where "g \<in> set groups" "key = tg_Name g" using secrets_by_group_names [OF gr(2)] by blast
    then show False using assms(4,6) gr(1) unfolding groups_ok_def by blast
  qed
  then have "look2 sd (n, key) = look2 a (n, key)" unfolding sd by (rule look2_untouched)
  then show ?thesis using a(2,3) by metis
qed

lemma run_data_keys:
  assumes "range_order_ok rt" and "gwf cs" and "run_ready p" and "groups_ok secrets p"
    and "run_data rt eng p cs [] = Ret sd" and "look2 sd (n, key) \<noteq> None"
  shows "(n, key) \<in> all_dest_keys p \<or> (\<exists>s. secrets n = Some s \<and> ghas (sec_Annotations s) (SecretGroupPrefix @ key))"
  using run_data_lookup [OF assms(1-5), of n key] assms(6) by blast

section \<open>Delivery\<close>

text \<open>
  What the retriever promises: it returns the values that Conjur has for the variables it is asked
  for, those aside that ask for everything or that Conjur would take for a qualified name. A
  conjur-map is plain if its keys are valid in a Secret and its variables are such.
\<close>

definition plain_variable :: "string \<Rightarrow> bool" where
  "plain_variable v \<longleftrightarrow> v \<noteq> ''*'' \<and> length (filter (\<lambda>c. c = CHR '':'') v) < 2"

definition serves ::
  "(string \<Rightarrow> string option) \<Rightarrow> (string list \<Rightarrow> 'w \<Rightarrow> (gerror + (string, string) gomap) outcome \<times> 'w) \<Rightarrow> bool" where
  "serves conjur retr \<longleftrightarrow> (\<forall>ids u m u'. retr ids u = (Ret (Inr m), u') \<longrightarrow>
     gwf m \<and> (ids \<noteq> [''*''] \<longrightarrow> (\<forall>v\<in>set ids. plain_variable v \<longrightarrow> map_of m v = conjur v)))"

definition plain_map :: "yaml_map \<Rightarrow> v1_secret \<Rightarrow> bool" where
  "plain_map yaml s \<longleftrightarrow> (\<forall>(sn, y)\<in>set (spec_map yaml s). valid_key sn \<and> (\<forall>v ct. entry_spec y = Some (v, ct) \<longrightarrow> plain_variable v))"

text \<open>The value of a key after the data were sent or skipped as already there.\<close>

definition overlay :: "(string, string) gomap \<Rightarrow> v1_secret \<Rightarrow> string \<Rightarrow> string option" where
  "overlay d s key = (case map_of d key of Some v \<Rightarrow> Some v | None \<Rightarrow> map_of (data_of s) key)"

lemma sent_overlay: "gwf d \<Longrightarrow> map_of (data_of (sent [] s d)) key = overlay d s key"
  by (simp only: sent_lookup delete_nothing overlay_def)

lemma outcome_value:
  assumes "outcome_of sha256 keys p secrets secrets' n d" and "synced sha256 secrets p" and "inj sha256"
    and "valid_data d" and "originals_ok secrets p" and "gget [] keys n = []" and "secrets n = Some s"
  shows "\<exists>s'. secrets' n = Some s' \<and> s' = s\<lparr>sec_Data := sec_Data s'\<rparr> \<and> (\<forall>key. map_of (data_of s') key = overlay d s key)"
  using assms(1) unfolding outcome_of_def
proof (elim disjE exE conjE)
  assume c: "map_of (prevSecretsChecksums p) n = Some (sha256 (fmt_data d))" and same: "secrets' n = secrets n"
  obtain d0 where d0: "valid_data d0" "sha256 (fmt_data d) = sha256 (fmt_data d0)" "holds d0 s"
    using assms(2,7) c unfolding synced_def by (metis option.inject)
  have "map_of d0 = map_of d" using fmt_data_inject [OF d0(1) assms(4)] d0(2) injD [OF assms(3)] by metis
  then have "map_of (data_of s) key = overlay d s key" for key
    using d0(3) by (simp add: holds_def overlay_def split: option.splits)
  then show ?thesis using same assms(7) by simp
next
  fix orig
  assume o: "map_of (originalK8sSecrets p) n = Some orig" "secrets' n = Some (sent (gget [] keys n) orig d)"
  then have "orig = s" using assms(5,7) by (simp add: originals_ok_def)
  then show ?thesis
    using o(2) assms(4,6) by (simp add: sent_overlay valid_data_def) (simp add: sent_def)
qed

text \<open>What a run knows once it has read the named Secrets.\<close>

lemma named_ready:
  assumes store: "kube_store api (podNamespace p) stored" and yaml: "yaml_map_ok yamlm" and cl: "cleared p"
    and names: "requiredK8sSecrets p \<noteq> []" "distinct (requiredK8sSecrets p)"
    and plain: "\<forall>n s. n \<in> set (requiredK8sSecrets p) \<longrightarrow> stored w n = Some s \<longrightarrow> plain_map yamlm s"
    and run: "retrieveRequiredK8sSecrets (provider_deps recorded api retr) yamls yamlm p w = (Ret None, p1, w1)"
  shows "run_ready p1" and "groups_ok (stored w) p1" and "dests_nonempty p1"
    and "\<forall>n\<in>set (requiredK8sSecrets p). \<exists>s. stored w n = Some s \<and> sec_Name s = n \<and> (\<forall>y\<in>snd ` set (spec_map yamlm s). entry_spec y \<noteq> None)"
    and "\<forall>v. set (dests p1 v) = (\<Union>n\<in>set (requiredK8sSecrets p). spec_dests yamlm (the (stored w n)) v)"
    and "\<forall>n. ghas (originalK8sSecrets p1) n \<longleftrightarrow> n \<in> set (requiredK8sSecrets p)"
    and "\<forall>v. dests p1 v \<noteq> [] \<longrightarrow> plain_variable v"
proof -
  let ?R = "requiredK8sSecrets p"
  have run': "retrieve_named (provider_deps recorded api retr) yamls yamlm ?R p w = (Ret None, p1, w1)"
    using run names(1) by (simp add: retrieveRequiredK8sSecrets_def)
  have c: "dest_inv p" "all_dest_keys p = {}" "originals_ok (stored w) p" using cl by (simp_all add: cleared_dests originals_cleared)
  have e: "dests_nonempty p" "groups_ok (stored w) p" "updateDestinations p = []" "originalK8sSecrets p = []"
    using cl by (simp_all add: cleared_def dests_nonempty_def groups_ok_def gwf_def)
  note k = named_complete [OF store yaml c(1) e(1,2) names(2) _ run'] and r = named_reads [OF store c(1,3) run']
  show grp: "groups_ok (stored w) p1" and ne: "dests_nonempty p1" using k c(2) by simp_all
  show sec: "\<forall>n\<in>set ?R. \<exists>s. stored w n = Some s \<and> sec_Name s = n \<and> (\<forall>y\<in>snd ` set (spec_map yamlm s). entry_spec y \<noteq> None)"
    using k c(2) by simp
  show ds: "\<forall>v. set (dests p1 v) = (\<Union>n\<in>set ?R. spec_dests yamlm (the (stored w n)) v)"
    using k c(2) e(3) by (simp add: gget_def)
  show "\<forall>n. ghas (originalK8sSecrets p1) n \<longleftrightarrow> n \<in> set ?R" using r e(4) by (simp add: ghas_iff)
  have d: "\<exists>n\<in>set ?R. \<exists>s. stored w n = Some s \<and> k8sSecretName x = n \<and> x \<in> spec_dests yamlm s v" if "x \<in> set (dests p1 v)" for x v
    using that sec ds by (fastforce simp: spec_dests_def)
  have "unique_dests p1" unfolding unique_dests_def
    using d spec_dests_unique by (metis dest_key_def option.inject prod.inject)
  moreover have "no_star p1" and "\<forall>v. dests p1 v \<noteq> [] \<longrightarrow> plain_variable v"
  proof -
    have x: "secretName x \<noteq> ''*'' \<and> plain_variable v" if x0: "x \<in> set (dests p1 v)" for x v
    proof -
      obtain n s where "n \<in> set ?R" "stored w n = Some s" "x \<in> spec_dests yamlm s v" using d [OF x0] by blast
      then obtain y where y: "plain_map yamlm s" "(secretName x, y) \<in> set (spec_map yamlm s)" "\<exists>ct. entry_spec y = Some (v, ct)"
        using plain map_of_SomeD by (fastforce simp: spec_dests_def)
      then have "valid_key (secretName x)" "plain_variable v" unfolding plain_map_def by fastforce+
      then show ?thesis using valid_key_chars(4) by force
    qed
    have "\<not> ghas (updateDestinations p1) ''*''"
    proof
      assume "ghas (updateDestinations p1) ''*''"
      then obtain l where "dests p1 ''*'' = l" "l \<noteq> []" using ne by (auto simp: dests_nonempty_def ghas_iff gget_def)
      then show False using x [of "hd l" "''*''"] by (simp add: plain_variable_def)
    qed
    then show "no_star p1" using x unfolding no_star_def by blast
    show "\<forall>v. dests p1 v \<noteq> [] \<longrightarrow> plain_variable v" using x by (meson hd_in_set)
  qed
  ultimately show "run_ready p1" "\<forall>v. dests p1 v \<noteq> [] \<longrightarrow> plain_variable v"
    using r grp by (simp_all add: run_ready_def originals_ok_def groups_ok_def)
qed

text \<open>The variables of the destinations are among those that are fetched.\<close>

lemma fetched_serve:
  assumes "range_order_ok rt" and "run_ready p" and "dests_nonempty p" and "serves conjur retr"
    and "retrieveConjurSecrets (provider_deps recorded api retr) rt p w = (Ret (Inr cs), w')"
    and "\<forall>v. dests p v \<noteq> [] \<longrightarrow> plain_variable v"
  shows "gwf cs \<and> (\<forall>v. dests p v \<noteq> [] \<longrightarrow> map_of cs v = conjur v)"
proof -
  have r: "gwf (updateDestinations p)" "gwf (secretsGroups p)" "\<not> ghas (updateDestinations p) ''*''"
    using assms(2) by (simp_all add: run_ready_def dest_inv_def no_star_def)
  obtain ids where ids: "listConjurSecretsToFetch recorded rt p = Inr ids" "retr ids w = (Ret (Inr cs), w')"
    using assms(5) by (auto simp: retrieveConjurSecrets_def provider_deps_def split: sum.splits prod.splits outcome.splits)
  note l = listed_variables [OF assms(1) r(1,2), where recorded = recorded, unfolded ids(1), simplified, simplified r(3)]
  have v: "v \<in> set ids \<and> v \<noteq> ''*''" if "dests p v \<noteq> []" for v
    using that l r(3) by (auto simp: gget_def ghas_iff split: option.splits)
  moreover have "gwf cs \<and> (ids \<noteq> [''*''] \<longrightarrow> (\<forall>v\<in>set ids. plain_variable v \<longrightarrow> map_of cs v = conjur v))"
    using assms(4) ids(2) unfolding serves_def by blast
  ultimately show ?thesis using assms(6) by (auto simp: plain_variable_def)
qed

text \<open>What the data of a run make of a Secret is what its specification wants.\<close>

lemma run_data_wanted:
  assumes "range_order_ok rt" and "gwf cs" and "run_ready p" and "groups_ok secrets p" and "run_data rt eng p cs [] = Ret sd"
    and "\<forall>v. set (dests p v) = (\<Union>n\<in>names. spec_dests yamlm (the (secrets n)) v)"
    and "\<forall>n\<in>names. \<exists>s. secrets n = Some s \<and> sec_Name s = n \<and> (\<forall>y\<in>snd ` set (spec_map yamlm s). entry_spec y \<noteq> None)"
    and "\<forall>v. dests p v \<noteq> [] \<longrightarrow> map_of cs v = conjur v" and "n \<in> names" and "secrets n = Some s"
    and "\<not> ghas (sec_Annotations s) (SecretGroupPrefix @ key)"
  shows "overlay (gget [] sd n) s key = wanted_value yamlm (sanitize_on p) conjur s key"
proof -
  have n: "sec_Name s = n" "\<forall>y\<in>snd ` set (spec_map yamlm s). entry_spec y \<noteq> None"
    using bspec [OF assms(7,9)] assms(10) by force+
  have "\<not> ghas (sec_Annotations t) (SecretGroupPrefix @ key)" if "secrets n = Some t" for t using that assms(10,11) by simp
  note look = run_data_lookup [OF assms(1-5), of n, OF this]
  have l: "map_of (gget [] sd n) key = look2 sd (n, key)" by (simp add: look2_def)
  show ?thesis
  proof (cases "map_of (spec_map yamlm s) key")
    case None
    have "(n, key) \<notin> all_dest_keys p"
    proof
      assume "(n, key) \<in> all_dest_keys p"
      then obtain v d m where "m \<in> names" "d \<in> spec_dests yamlm (the (secrets m)) v" "dest_key d = (n, key)"
        using assms(6) by (auto simp: all_dest_keys_def)
      moreover from this have "m = n" using assms(7) by (fastforce simp: spec_dests_def dest_key_def)
      ultimately show False using assms(10) None by (auto simp: spec_dests_def dest_key_def)
    qed
    then show ?thesis using look None by (simp add: overlay_def l wanted_value_def)
  next
    case (Some y)
    then have "y \<in> snd ` set (spec_map yamlm s)" using map_of_SomeD by force
    then obtain v ct where y: "entry_spec y = Some (v, ct)" using n(2) by force
    let ?d = "\<lparr>k8sSecretName = n, secretName = key, contentType = ct\<rparr>"
    have d: "?d \<in> set (dests p v)" using assms(6,9,10) n(1) Some y by (fastforce simp: spec_dests_def)
    then have "look2 sd (n, key) = dest_value p cs v ?d" "map_of cs v = conjur v" using look assms(8) by (force simp: dest_key_def)+
    then show ?thesis using Some y by (simp add: overlay_def l wanted_value_def dest_value_def split: option.splits)
  qed
qed

lemma run_data_valid:
  assumes "range_order_ok rt" and "gwf cs" and "run_ready p" and "groups_ok secrets p" and "run_data rt eng p cs [] = Ret sd"
    and "\<forall>v. set (dests p v) = (\<Union>n\<in>names. spec_dests yamlm (the (secrets n)) v)"
    and "\<forall>n s. n \<in> names \<longrightarrow> secrets n = Some s \<longrightarrow> plain_map yamlm s" and "\<forall>n\<in>names. secrets n \<noteq> None"
    and "\<And>n s g. secrets n = Some s \<Longrightarrow> ghas (sec_Annotations s) (SecretGroupPrefix @ g) \<Longrightarrow> valid_key g"
  shows "valid_data (gget [] sd n)"
proof -
  have "valid_key key" if k: "(n, key) \<in> all_dest_keys p" for key
  proof -
    obtain v d m where "m \<in> names" "d \<in> spec_dests yamlm (the (secrets m)) v" "dest_key d = (n, key)"
      using k assms(6) by (auto simp: all_dest_keys_def)
    moreover from this(1) obtain s where s: "secrets m = Some s" "plain_map yamlm s" using assms(7,8) by blast
    ultimately obtain y where "map_of (spec_map yamlm s) key = Some y" by (auto simp: spec_dests_def dest_key_def)
    then show ?thesis using s(2) map_of_SomeD by (fastforce simp: plain_map_def)
  qed
  moreover have "look2 sd (n, key) \<noteq> None" if "key \<in> fst ` set (gget [] sd n)" for key
    using that by (simp add: look2_def map_of_eq_None_iff)
  ultimately have "valid_key key" if "key \<in> fst ` set (gget [] sd n)" for key
    using run_data_keys [OF assms(1-5)] assms(9) that by metis
  moreover have "gwf (gget [] sd n)" using data_wf_run [OF assms(5)] by (rule data_wf_gget)
  ultimately show ?thesis by (simp add: valid_data_def)
qed

lemma update_overlay:
  assumes "kube_store api (podNamespace p) stored" and orig: "originals_ok (stored w) p" and sync: "synced sha256 (stored w) p"
    and "range_order_ok rt" and "inj sha256"
    and valid: "\<And>sd n. run_data rt eng p cs [] = Ret sd \<Longrightarrow> valid_data (gget [] sd n)"
    and run: "updateRequiredK8sSecretsWithCleanup (provider_deps recorded api retr) rt eng sha256 cs [] p w = (Ret (u, None), p', w')"
  shows "\<exists>sd. run_data rt eng p cs [] = Ret sd
    \<and> (\<forall>n s. stored w n = Some s \<longrightarrow> (\<exists>s'. stored w' n = Some s' \<and> s' = s\<lparr>sec_Data := sec_Data s'\<rparr>
         \<and> (\<forall>key. map_of (data_of s') key = overlay (gget [] sd n) s key)))
    \<and> (\<forall>n. \<not> ghas (originalK8sSecrets p) n \<longrightarrow> stored w' n = stored w n)"
proof -
  obtain sd where sd: "run_data rt eng p cs [] = Ret sd"
    and out: "\<And>n. case map_of sd n of None \<Rightarrow> stored w' n = stored w n
        | Some d \<Rightarrow> outcome_of sha256 [] p (stored w) (stored w') n d"
    using update_required_store [OF assms(1) originals_ok_names [OF orig] assms(4) sync run] by blast
  have "\<exists>s'. stored w' n = Some s' \<and> s' = s\<lparr>sec_Data := sec_Data s'\<rparr> \<and> (\<forall>key. map_of (data_of s') key = overlay (gget [] sd n) s key)"
    if "stored w n = Some s" for n s
  proof (cases "map_of sd n")
    case None
    then show ?thesis using out [of n] that by (simp add: overlay_def gget_def)
  next
    case (Some d)
    then have d: "gget [] sd n = d" by (simp add: gget_def)
    have o: "outcome_of sha256 [] p (stored w) (stored w') n d" "valid_data d"
      using out [of n] Some valid [OF sd, of n] d by simp_all
    show ?thesis unfolding d
      by (rule outcome_value [OF o(1) sync assms(5) o(2) orig _ that]) (simp add: gget_def)
  qed
  moreover have "stored w' n = stored w n" if "\<not> ghas (originalK8sSecrets p) n" for n
    using out [of n] that by (auto simp: outcome_of_def ghas_iff split: option.splits)
  ultimately show ?thesis using sd by blast
qed

lemma empty_spec:
  assumes "updateDestinations p = [] \<and> secretsGroups p = []"
    and "\<forall>n\<in>names. \<exists>s. secrets n = Some s \<and> sec_Name s = n \<and> (\<forall>y\<in>snd ` set (spec_map yamlm s). entry_spec y \<noteq> None)"
    and "\<forall>v. set (dests p v) = (\<Union>n\<in>names. spec_dests yamlm (the (secrets n)) v)"
    and "n \<in> names" and "secrets n = Some s"
  shows "spec_map yamlm s = []"
proof (rule ccontr)
  assume "spec_map yamlm s \<noteq> []"
  then obtain sn y where y: "map_of (spec_map yamlm s) sn = Some y" by (metis map_of.simps(2) fun_upd_same neq_Nil_conv)
  then have "y \<in> snd ` set (spec_map yamlm s)" using map_of_SomeD by force
  then obtain v ct where "entry_spec y = Some (v, ct)" using bspec [OF assms(2,4)] assms(5) by force
  then have "spec_dests yamlm s v \<noteq> {}" using y by (auto simp: spec_dests_def)
  then show False using assms(1,3-5) by (force simp: gget_def)
qed

text \<open>A successful run, from its reads to the stored Secrets.\<close>

lemma run_delivers:
  assumes hist: "history api stored eng sha256 sanitize config p w" and kube: "kube_store api (kc_PodNamespace config) stored"
    and inj: "inj sha256" and rt: "range_order_ok rt" and yaml: "yaml_map_ok yamlm"
    and names: "kc_RequiredK8sSecrets config \<noteq> []" "distinct (kc_RequiredK8sSecrets config)"
    and keeps: "keeps_secrets stored retr" and serves: "serves conjur retr"
    and plain: "\<forall>n s. n \<in> set (kc_RequiredK8sSecrets config) \<longrightarrow> stored w n = Some s \<longrightarrow> plain_map yamlm s"
    and run: "k8s_Provide (provider_deps recorded api retr) rt yamls yamlm eng sha256 p w = (Ret (u, None), p', w')"
  shows "\<forall>n. if n \<in> set (kc_RequiredK8sSecrets config)
       then \<exists>s s'. stored w n = Some s \<and> stored w' n = Some s' \<and> s' = s\<lparr>sec_Data := sec_Data s'\<rparr>
          \<and> (\<forall>key. \<not> ghas (sec_Annotations s) (SecretGroupPrefix @ key) \<longrightarrow>
               map_of (data_of s') key = wanted_value yamlm sanitize conjur s key)
       else stored w' n = stored w n"
proof -
  let ?deps = "provider_deps recorded api retr"
  have p: "synced sha256 (stored w) p" "cleared p" "podNamespace p = kc_PodNamespace config"
      "requiredK8sSecrets p = kc_RequiredK8sSecrets config" "sanitize_on p = sanitize"
    using history_inv [OF hist kube] by (simp_all add: same_settings_def newProvider_def)
  have store: "kube_store api (podNamespace p) stored" using kube p(3) by simp
  obtain p1 w1 where a: "retrieveRequiredK8sSecrets ?deps yamls yamlm p w = (Ret None, p1, w1)"
    using run by (auto simp: k8s_Provide_def ProvideWithCleanup_def provide_body_def split: prod.splits outcome.splits option.splits)
  note reads = required_reads [OF store p(2) a]
  note rdy = named_ready [OF store yaml p(2) _ _ _ a, unfolded p(4), OF names plain]
  have san: "sanitize_on p1 = sanitize" using reads p(5) by (simp add: same_config_def)
  show ?thesis
  proof (cases "updateDestinations p1 = [] \<and> secretsGroups p1 = []")
    case True
    then have "w' = w1" using run a by (simp add: k8s_Provide_def ProvideWithCleanup_def provide_body_def)
    moreover have "spec_map yamlm s = []" if "n \<in> set (kc_RequiredK8sSecrets config)" "stored w n = Some s" for n s
      using True rdy(4,5) that by (rule empty_spec)
    ultimately show ?thesis using reads rdy(4) by (auto simp: wanted_value_def)
  next
    case False
    obtain cs w2 where b: "retrieveConjurSecrets ?deps rt p1 w1 = (Ret (Inr cs), w2)"
      and "\<exists>p2. updateRequiredK8sSecretsWithCleanup ?deps rt eng sha256 cs [] p1 w2 = (Ret (u, None), p2, w')"
      using run a False by (auto simp: k8s_Provide_def ProvideWithCleanup_def provide_body_def
          split: prod.splits outcome.splits option.splits sum.splits if_splits)
    then obtain p2 where c: "updateRequiredK8sSecretsWithCleanup ?deps rt eng sha256 cs [] p1 w2 = (Ret (u, None), p2, w')" by blast
    have w2: "stored w2 = stored w" using retrieveConjurSecrets_keeps [OF keeps b] reads by simp
    note cs = fetched_serve [OF rt rdy(1,3) serves b rdy(7)]
    have some: "\<forall>n\<in>set (kc_RequiredK8sSecrets config). stored w n \<noteq> None" using rdy(4) by auto
    have st: "kube_store api (podNamespace p1) stored" "originals_ok (stored w2) p1" "synced sha256 (stored w2) p1"
      using reads store p(1) w2 by (auto simp: same_config_def synced_def)
    have "valid_data (gget [] sd n)" if "run_data rt eng p1 cs [] = Ret sd" for sd n
      by (rule run_data_valid [OF rt conjunct1 [OF cs] rdy(1,2) that rdy(5) plain some kube_storeD(7) [OF kube]])
    from update_overlay [OF st rt inj this c] obtain sd where sd: "run_data rt eng p1 cs [] = Ret sd"
      and val: "\<forall>n s. stored w n = Some s \<longrightarrow> (\<exists>s'. stored w' n = Some s' \<and> s' = s\<lparr>sec_Data := sec_Data s'\<rparr>
         \<and> (\<forall>key. map_of (data_of s') key = overlay (gget [] sd n) s key))"
      and other: "\<forall>n. \<not> ghas (originalK8sSecrets p1) n \<longrightarrow> stored w' n = stored w n"
      unfolding w2 by blast
    have "overlay (gget [] sd n) s key = wanted_value yamlm sanitize conjur s key"
      if "n \<in> set (kc_RequiredK8sSecrets config)" "stored w n = Some s" "\<not> ghas (sec_Annotations s) (SecretGroupPrefix @ key)" for n s key
      using run_data_wanted [OF rt conjunct1 [OF cs] rdy(1,2) sd rdy(5,4) conjunct2 [OF cs] that] san by simp
    then show ?thesis using val some other rdy(6) by (metis not_None_eq)
  qed
qed

section \<open>Properties\<close>

text \<open>
  (C2) A run that succeeds delivers: for a provider in any state that earlier runs, failed or not,
  may have left while nobody else wrote to the Secrets, the Secrets named in the configuration hold
  afterwards what their conjur-maps ask for. Every key of a conjur-map has the value that Conjur has
  for its variable, decoded where the entry says so, or the empty value if there is none and
  sanitizing is on; every other key, those of secret groups apart, is as it was, and so are the
  names, labels and annotations of the Secrets and all other Secrets. This holds although Secrets
  are skipped on the word of a recorded checksum. Checksums are taken to be free of collisions. The
  conjur-maps are plain: they do not ask for everything, name no variable by an identifier with
  two colons, which the client would cut, and their keys are valid in a Secret.
\<close>

theorem k8s_run_delivers:
  assumes hist: "history api stored eng sha256 sanitize config p w" and kube: "kube_store api (kc_PodNamespace config) stored"
    and inj: "inj sha256" and rt: "range_order_ok rt" and yaml: "yaml_map_ok yamlm"
    and names: "kc_RequiredK8sSecrets config \<noteq> []" "distinct (kc_RequiredK8sSecrets config)"
    and keeps: "keeps_secrets stored retr" and serves: "serves conjur retr"
    and plain: "\<forall>n s. n \<in> set (kc_RequiredK8sSecrets config) \<longrightarrow> stored w n = Some s \<longrightarrow> plain_map yamlm s"
    and run: "k8s_Provide (provider_deps recorded api retr) rt yamls yamlm eng sha256 p w = (Ret (u, None), p', w')"
  shows "\<forall>n. if n \<in> set (kc_RequiredK8sSecrets config)
       then \<exists>s s'. stored w n = Some s \<and> stored w' n = Some s' \<and> s' = s\<lparr>sec_Data := sec_Data s'\<rparr>
          \<and> (\<forall>key. \<not> ghas (sec_Annotations s) (SecretGroupPrefix @ key) \<longrightarrow>
               map_of (data_of s') key = wanted_value yamlm sanitize conjur s key)
       else stored w' n = stored w n"
  by (rule run_delivers [OF assms])

section \<open>Concrete situations\<close>

text \<open>A cluster that keeps its Secrets by name and rejects invalid objects.\<close>

definition secret_ok :: "v1_secret \<Rightarrow> bool" where
  "secret_ok s \<longleftrightarrow> list_all (\<lambda>(a, _). HasPrefix a SecretGroupPrefix \<longrightarrow> valid_key (TrimPrefix a SecretGroupPrefix)) (sec_Annotations s)"

definition store_get :: "(string, v1_secret) gomap \<Rightarrow> string \<Rightarrow> v1_secret option" where
  "store_get w n = (case map_of w n of Some s \<Rightarrow> if secret_ok s \<and> sec_Name s = n then Some s else None | None \<Rightarrow> None)"

definition store_api :: "(string, v1_secret) gomap kube_api" where
  "store_api = \<lparr>InClusterConfig = (\<lambda>_. None), NewForConfig = (\<lambda>_. None),
     api_get = (\<lambda>ns n w. (case store_get w n of None \<Rightarrow> Inl ''not found'' | Some s \<Rightarrow> Inr s, w)),
     api_update = (\<lambda>ns s w. if secret_ok s \<and> list_all valid_key (gkeys (data_of s)) then (Inr s, gput (sec_Name s) s w)
        else (Inl ''invalid'', w)),
     api_list = (\<lambda>ns l w. (Inr (map (\<lambda>n. the (store_get w n)) (filter (\<lambda>n. store_get w n \<noteq> None) (remdups (gkeys w)))), w))\<rparr>"

definition store_retr :: "(string, string) gomap \<Rightarrow> string list \<Rightarrow> 'w \<Rightarrow> (gerror + (string, string) gomap) outcome \<times> 'w" where
  "store_retr vals ids w = (Ret (Inr (filter (\<lambda>(v, _). v \<in> set ids) vals)), w)"

lemma store_get_name: "store_get w n = Some s \<Longrightarrow> sec_Name s = n \<and> secret_ok s"
  by (auto simp: store_get_def split: option.splits if_splits)

lemma store_get_put: "secret_ok s \<Longrightarrow> store_get (gput (sec_Name s) s w) = (store_get w)(sec_Name s \<mapsto> s)"
  by (auto simp: store_get_def fun_eq_iff)

lemma store_api_kube: "kube_store store_api ns store_get"
  unfolding kube_store_def
proof (intro conjI allI impI)
  fix sel w r w' items
  assume "api_list store_api ns sel w = (r, w')" and "r = Inr items"
  then have i: "items = map (\<lambda>n. the (store_get w n)) (filter (\<lambda>n. store_get w n \<noteq> None) (remdups (gkeys w)))"
    by (auto simp: store_api_def)
  have "map sec_Name items = filter (\<lambda>n. store_get w n \<noteq> None) (remdups (gkeys w))"
    unfolding i map_map by (rule map_idI) (auto dest: store_get_name)
  then show "distinct (map sec_Name items)" by simp
  show "\<forall>s\<in>set items. store_get w (sec_Name s) = Some s" unfolding i using store_get_name by fastforce
next
  fix w n s g
  assume "store_get w n = Some s" and "ghas (sec_Annotations s) (SecretGroupPrefix @ g)"
  then show "valid_key g" using store_get_name by (force simp: secret_ok_def ghas_fst list_all_iff simp del: append_Cons)
qed (auto simp: store_api_def store_get_put ghas_fst gkeys_def list_all_iff dest: store_get_name split: option.splits if_splits)

lemma store_retr_serves: "gwf vals \<Longrightarrow> serves (map_of vals) (store_retr vals)"
proof -
  assume wf: "gwf vals"
  have "map_of (filter (\<lambda>(v, _). v \<in> set ids) vals) v = map_of vals v" if "v \<in> set ids" for ids v
    using that by (induction vals) auto
  moreover have "gwf (filter (\<lambda>(v, _). v \<in> set ids) vals)" for ids
    using wf unfolding gwf_def by (induction vals) auto
  ultimately show ?thesis by (auto simp: serves_def store_retr_def)
qed

lemma store_retr_keeps: "keeps_secrets store_get (store_retr vals)"
  by (simp add: keeps_secrets_def store_retr_def)

text \<open>A first run, and a second one after the password has changed.\<close>

definition demo_config :: K8sProviderConfig where
  "demo_config = \<lparr>kc_PodNamespace = ''ns'', kc_RequiredK8sSecrets = [''app'']\<rparr>"

definition demo_run :: "(string, string) gomap \<Rightarrow> K8sProvider \<Rightarrow> (string, v1_secret) gomap
   \<Rightarrow> (bool \<times> gerror option) outcome \<times> K8sProvider \<times> (string, v1_secret) gomap" where
  "demo_run vals = k8s_Provide (provider_deps (\<lambda>m. m) store_api (store_retr vals)) (\<lambda>_ ks. ks) demo_yamls demo_yamlm id_engine (\<lambda>x. x)"

definition demo_first :: "(bool \<times> gerror option) outcome \<times> K8sProvider \<times> (string, v1_secret) gomap" where
  "demo_first = demo_run demo_fetched (newProvider True demo_config) [(''app'', k8s_secret ''app'' ''two'')]"

definition demo_second :: "(bool \<times> gerror option) outcome \<times> K8sProvider \<times> (string, v1_secret) gomap" where
  "demo_second = demo_run (gput ''db/pw'' ''rotated'' demo_fetched) (fst (snd demo_first)) (snd (snd demo_first))"

lemma demo_first_world: "store_get (snd (snd demo_first)) ''app'' =
    Some (k8s_secret ''app'' ''two''\<lparr>sec_Data := Some [(ConjurMapKey, ''two''), (''cert'', ''hi''), (''pw'', ''s3cret'')]\<rparr>)"
  by code_simp

lemma demo_second_ok: "fst demo_second = Ret (True, None)"
  by code_simp

theorem k8s_run_delivers_witness:
  "\<exists>s'. store_get (snd (snd demo_second)) ''app'' = Some s' \<and> map_of (data_of s') ''pw'' = Some ''rotated''
     \<and> map_of (data_of s') ''cert'' = Some ''hi'' \<and> map_of (data_of s') ConjurMapKey = Some ''two''"
proof -
  let ?vals = "gput ''db/pw'' ''rotated'' demo_fetched" and ?w0 = "[(''app'', k8s_secret ''app'' ''two'')]"
  let ?s = "k8s_secret ''app'' ''two''\<lparr>sec_Data := Some [(ConjurMapKey, ''two''), (''cert'', ''hi''), (''pw'', ''s3cret'')]\<rparr>"
  have f: "ProvideWithCleanup (provider_deps (\<lambda>m. m) store_api (store_retr demo_fetched)) (\<lambda>_ ks. ks) demo_yamls demo_yamlm id_engine
      (\<lambda>x. x) [] (newProvider True demo_config) ?w0 = (fst demo_first, fst (snd demo_first), snd (snd demo_first))"
    by (simp add: demo_first_def demo_run_def k8s_Provide_def)
  have h: "history store_api store_get id_engine (\<lambda>x. x) True demo_config (fst (snd demo_first)) (snd (snd demo_first))"
    by (rule history.ran [OF history.fresh store_retr_keeps range_order_id f])
  have m: "spec_map demo_yamlm ?s = [(''pw'', YStr ''db/pw''), (''cert'', YMap [(''id'', YStr ''web/cert''), (''content-type'', YStr ''base64'')])]"
    by code_simp
  have plain: "\<forall>n s. n \<in> set (kc_RequiredK8sSecrets demo_config) \<longrightarrow> store_get (snd (snd demo_first)) n = Some s \<longrightarrow> plain_map demo_yamlm s"
    unfolding demo_config_def using demo_first_world m
    by (simp add: plain_map_def entry_spec_def string_at_def valid_key_def k8s_key_char_def plain_variable_def)
  have c: "kc_RequiredK8sSecrets demo_config \<noteq> []" "distinct (kc_RequiredK8sSecrets demo_config)" by (simp_all add: demo_config_def)
  have run: "demo_run ?vals (fst (snd demo_first)) (snd (snd demo_first)) = (Ret (True, None), fst (snd demo_second), snd (snd demo_second))"
    using demo_second_ok by (simp add: demo_second_def [symmetric] prod_eq_iff)
  have "gwf ?vals" by (simp add: demo_fetched_wf)
  note d = k8s_run_delivers [OF h store_api_kube _ range_order_id demo_yaml_ok c store_retr_keeps
      store_retr_serves [OF this] plain run [unfolded demo_run_def], simplified]
  have "\<exists>s'. store_get (snd (snd demo_second)) ''app'' = Some s'
      \<and> (\<forall>key. map_of (data_of s') key = wanted_value demo_yamlm True (map_of ?vals) ?s key)"
    using spec [OF d, of "''app''"] demo_first_world by (auto simp: demo_config_def k8s_secret_def ghas_iff)
  then obtain s' where s': "store_get (snd (snd demo_second)) ''app'' = Some s'"
      "\<forall>key. map_of (data_of s') key = wanted_value demo_yamlm True (map_of ?vals) ?s key" by blast
  have "wanted_value demo_yamlm True (map_of ?vals) ?s ''pw'' = Some ''rotated''"
    "wanted_value demo_yamlm True (map_of ?vals) ?s ''cert'' = Some ''hi''"
    "wanted_value demo_yamlm True (map_of ?vals) ?s ConjurMapKey = Some ''two''" by code_simp+
  then show ?thesis using s' by simp
qed

text \<open>
  Without the condition on other writers it fails: a value that somebody overwrote after the first
  run stays overwritten, because the checksum is that of the data sent and not of the data stored.
\<close>

definition drifted :: "(string, v1_secret) gomap" where
  "drifted = [(''app'', k8s_secret ''app'' ''two''\<lparr>sec_Data := Some [(ConjurMapKey, ''two''), (''cert'', ''hi''), (''pw'', ''tampered'')]\<rparr>)]"

lemma drift_is_not_repaired:
  "(fst (demo_run demo_fetched (fst (snd demo_first)) drifted), snd (snd (demo_run demo_fetched (fst (snd demo_first)) drifted)))
     = (Ret (False, None), drifted)"
  by code_simp

end
