(* ===== verification/Go_Path.thy ===== *)
theory Go_Path
  imports Go_Text
begin

text \<open>
  Lexical path processing, Go's package path (and path/filepath, which agrees with it on the
  systems the program runs on): Clean keeps a stack of path elements; Join cleans the
  elements joined by slashes. The lemmas describe what Join gives below a clean base
  directory when the relative path has no parent element.
\<close>

definition IsAbs :: "string \<Rightarrow> bool" where
  "IsAbs p \<longleftrightarrow> HasPrefix p ''/''"

text \<open>One element of the path; the stack is kept with its top first.\<close>

fun clean_step :: "bool \<Rightarrow> string \<Rightarrow> string list \<Rightarrow> string list" where
  "clean_step rooted e st =
     (if e = [] \<or> e = ''.'' then st
      else if e = ''..'' then
        (case st of [] \<Rightarrow> if rooted then [] else [''..'']
         | x # xs \<Rightarrow> if x = ''..'' then ''..'' # st else xs)
      else e # st)"

declare clean_step.simps [simp del]

definition Clean :: "string \<Rightarrow> string" where
  "Clean p =
     (if p = [] then ''.''
      else let rooted = HasPrefix p ''/'';
               out = JoinSep (rev (fold (clean_step rooted) (Split p CHR ''/'') [])) ''/''
           in if rooted then CHR ''/'' # out else if out = [] then ''.'' else out)"

definition Join :: "string list \<Rightarrow> string" where
  "Join es = (let rest = dropWhile (\<lambda>e. e = []) es
              in if rest = [] then [] else Clean (JoinSep rest ''/''))"

definition SplitPath :: "string \<Rightarrow> string \<times> string" where
  "SplitPath p = (let i = nat (LastIndexByte p CHR ''/'' + 1) in (take i p, drop i p))"

definition Dir :: "string \<Rightarrow> string" where
  "Dir p = Clean (fst (SplitPath p))"

definition proper_elem :: "string \<Rightarrow> bool" where
  "proper_elem e \<longleftrightarrow> e \<noteq> [] \<and> e \<noteq> ''.'' \<and> e \<noteq> ''..'' \<and> CHR ''/'' \<notin> set e"

lemma fold_clean_proper:
  "\<forall>e\<in>set es. e \<noteq> ''..'' \<Longrightarrow>
     fold (clean_step r) es st = rev (filter (\<lambda>e. e \<noteq> [] \<and> e \<noteq> ''.'') es) @ st"
  by (induction es arbitrary: st) (auto simp: clean_step.simps)

lemma SplitPath_append: "fst (SplitPath p) @ snd (SplitPath p) = p"
  by (simp add: SplitPath_def Let_def)

lemma take_LastIndexByte: "take (nat (LastIndexByte s c + 1)) s = [] \<or> last (take (nat (LastIndexByte s c + 1)) s) = c"
proof (induction s)
  case (Cons x s)
  show ?case
  proof (cases "LastIndexByte s c \<ge> 0")
    case True
    then have "nat (LastIndexByte (x # s) c + 1) = Suc (nat (LastIndexByte s c + 1))" by (simp add: Let_def)
    then have "take (nat (LastIndexByte (x # s) c + 1)) (x # s) = x # take (nat (LastIndexByte s c + 1)) s"
      by (simp only: take_Suc_Cons)
    moreover have "take (nat (LastIndexByte s c + 1)) s \<noteq> []" using True by auto
    ultimately show ?thesis using Cons by simp
  next
    case False
    then show ?thesis by (simp add: Let_def)
  qed
qed simp

lemma SplitPath_dir: "fst (SplitPath p) = [] \<or> last (fst (SplitPath p)) = CHR ''/''"
  using take_LastIndexByte [of p "CHR ''/''"] by (simp add: SplitPath_def Let_def)

lemma SplitPath_no_slash: "CHR ''/'' \<notin> set (snd (SplitPath p))"
  by (auto simp: SplitPath_def Let_def drop_LastIndexByte dest: set_takeWhileD)

text \<open>A directory as the program's base paths are written: absolute and clean.\<close>

definition clean_dir :: "string \<Rightarrow> bool" where
  "clean_dir b \<longleftrightarrow> HasPrefix b ''/'' \<and> tl b \<noteq> [] \<and> list_all proper_elem (Split (tl b) CHR ''/'')"

definition path_elems :: "string \<Rightarrow> string list" where
  "path_elems p = filter (\<lambda>e. e \<noteq> [] \<and> e \<noteq> ''.'') (Split p CHR ''/'')"

lemma JoinSep_append:
  "xs \<noteq> [] \<Longrightarrow> ys \<noteq> [] \<Longrightarrow> JoinSep (xs @ ys) sep = JoinSep xs sep @ sep @ JoinSep ys sep"
  by (induction xs rule: induct_list012) (auto simp: JoinSep_Cons)

lemma Split_append:
  "Split (a @ CHR ''/'' # b) CHR ''/'' = Split a CHR ''/'' @ Split b CHR ''/''"
proof (induction a)
  case (Cons x a)
  then show ?case by (cases "Split a CHR ''/''") auto
qed simp

lemma Join_below_base:
  assumes base: "clean_dir b" and no_parent: "''..'' \<notin> set (Split f CHR ''/'')"
    and elems: "path_elems f \<noteq> []"
  shows "Join [b, f] = b @ ''/'' @ JoinSep (path_elems f) ''/''"
proof -
  from base obtain b' where b: "b = CHR ''/'' # b'" and b': "b' \<noteq> []"
    and pelem: "list_all proper_elem (Split b' CHR ''/'')"
    by (cases b) (auto simp: clean_dir_def HasPrefix_def)
  let ?cs = "Split b' CHR ''/''"
  have keep: "filter (\<lambda>e. e \<noteq> [] \<and> e \<noteq> ''.'') ?cs = ?cs"
    using pelem by (auto simp: list_all_iff proper_elem_def filter_id_conv)
  have split: "Split (b @ CHR ''/'' # f) CHR ''/'' = [] # ?cs @ Split f CHR ''/''"
    unfolding b append_Cons by (simp add: Split_append)
  have nopar: "\<forall>e\<in>set (Split (b @ CHR ''/'' # f) CHR ''/''). e \<noteq> ''..''"
    using pelem no_parent unfolding split by (auto simp: list_all_iff proper_elem_def)
  have "Clean (b @ CHR ''/'' # f) = CHR ''/'' # JoinSep (?cs @ path_elems f) ''/''"
    unfolding Clean_def Let_def fold_clean_proper [OF nopar]
    by (simp add: split keep path_elems_def) (simp add: b HasPrefix_def)
  then show ?thesis
    using elems by (simp add: Join_def b JoinSep_append JoinSep_Split)
qed

lemma path_elems_proper:
  assumes "''..'' \<notin> set (Split f CHR ''/'')" and "e \<in> set (path_elems f)"
  shows "proper_elem e"
  using assms Split_no_sep [of e f "CHR ''/''"] by (auto simp: path_elems_def proper_elem_def)

lemma Split_JoinSep_proper:
  assumes "es \<noteq> []" and "list_all proper_elem es"
  shows "Split (JoinSep es ''/'') CHR ''/'' = es"
  using assms by (intro Split_JoinSep) (auto simp: list_all_iff proper_elem_def)

lemma path_elems_JoinSep:
  assumes "es \<noteq> []" and "list_all proper_elem es"
  shows "path_elems (JoinSep es ''/'') = es"
  using Split_JoinSep_proper [OF assms] assms(2)
  by (auto simp: path_elems_def list_all_iff proper_elem_def filter_id_conv)

lemma Clean_relative:
  assumes "\<not> HasPrefix f ''/''" and "''..'' \<notin> set (Split f CHR ''/'')" and "path_elems f \<noteq> []"
  shows "Clean f = JoinSep (path_elems f) ''/''"
proof -
  have f: "f \<noteq> []" using assms(3) by (auto simp: path_elems_def)
  have "JoinSep (path_elems f) ''/'' \<noteq> []"
    using Split_JoinSep_proper [OF assms(3)] assms(2,3) path_elems_proper [of f]
    by (metis JoinSep_Split Split.simps(1) list.set_intros(1) list_all_iff proper_elem_def)
  moreover have "\<forall>e\<in>set (Split f CHR ''/''). e \<noteq> ''..''" using assms(2) by auto
  ultimately show ?thesis
    using f assms(1) by (simp add: Clean_def Let_def fold_clean_proper path_elems_def)
qed

lemma SplitPath_last:
  assumes "CHR ''/'' \<notin> set y"
  shows "SplitPath (x @ ''/'' @ y) = (x @ ''/'', y)"
proof -
  have "LastIndexByte (x @ ''/'' @ y) CHR ''/'' + 1 = int (length x + 1)"
    using assms by (induction x) (simp_all add: LastIndexByte_absent [THEN iffD2])
  then have "nat (LastIndexByte (x @ ''/'' @ y) CHR ''/'' + 1) = length x + 1" by simp
  then show ?thesis by (simp add: SplitPath_def Let_def)
qed

end
