(* ===== verification/File_System.thy ===== *)
theory File_System
  imports Go_Conv Go_Path
begin

text \<open>
  The part of the operating system that the file-writing components use (Go's package os):
  files with contents and permission bits, and calls that may fail. Which calls fail is
  decided by an oracle that sees how many calls came before, so a property that holds for
  every file system holds for every pattern of faults.
\<close>

datatype os_call = TempFile | ReadFile | WriteFile | SyncFile | Chmod | Rename | Remove | Truncate | MkdirAll | OpenFile

datatype os_error = NotExist | OsError gerror

fun IsNotExist :: "os_error \<Rightarrow> bool" where
  "IsNotExist NotExist = True"
| "IsNotExist (OsError _) = False"

record fsys =
  fs_files :: "(string, string \<times> nat) gomap"
  fs_clock :: nat
  fs_fault :: "nat \<Rightarrow> os_call \<Rightarrow> gerror option"
  fs_random :: "nat \<Rightarrow> nat"
  fs_partial :: "nat \<Rightarrow> nat"
  fs_tempDir :: string

definition tick :: "fsys \<Rightarrow> fsys" where
  "tick fs = fs\<lparr>fs_clock := Suc (fs_clock fs)\<rparr>"

definition fault :: "fsys \<Rightarrow> os_call \<Rightarrow> os_error option" where
  "fault fs c = map_option OsError (fs_fault fs (fs_clock fs) c)"

definition set_file :: "string \<Rightarrow> string \<times> nat \<Rightarrow> fsys \<Rightarrow> fsys" where
  "set_file p f fs = fs\<lparr>fs_files := gput p f (fs_files fs)\<rparr>"

definition del_file :: "string \<Rightarrow> fsys \<Rightarrow> fsys" where
  "del_file p fs = fs\<lparr>fs_files := gdel p (fs_files fs)\<rparr>"

abbreviation file_at :: "fsys \<Rightarrow> string \<Rightarrow> (string \<times> nat) option" where
  "file_at fs p \<equiv> map_of (fs_files fs) p"

text \<open>
  CreateTemp makes a new, empty file (mode 0600) in a directory, or in the system's directory for
  temporary files if none is given. A decimal number takes the place of the last \<^verbatim>\<open>*\<close> of the
  pattern, or follows it; a pattern with a separator is refused. The call never opens an existing
  file: it tries other numbers, at most 10000.
\<close>

definition temp_affixes :: "string \<Rightarrow> string \<times> string" where
  "temp_affixes pat =
     (case dropWhile (\<lambda>c. c \<noteq> CHR ''*'') (rev pat) of
        [] \<Rightarrow> (pat, [])
      | _ # rest \<Rightarrow> (rev rest, rev (takeWhile (\<lambda>c. c \<noteq> CHR ''*'') (rev pat))))"

definition temp_prefix :: "string \<Rightarrow> string \<Rightarrow> string" where
  "temp_prefix dir pre = (if dir \<noteq> [] \<and> last dir = CHR ''/'' then dir @ pre else dir @ ''/'' @ pre)"

definition temp_name :: "string \<Rightarrow> string \<Rightarrow> string \<Rightarrow> nat \<Rightarrow> string" where
  "temp_name tempDir dir pat k =
     temp_prefix (if dir = [] then tempDir else dir) (fst (temp_affixes pat)) @ FormatNat k @ snd (temp_affixes pat)"

primrec temp_tries :: "nat \<Rightarrow> (nat \<Rightarrow> string) \<Rightarrow> fsys \<Rightarrow> (os_error + string) \<times> fsys" where
  "temp_tries 0 name fs = (Inl (OsError ''file exists''), fs)"
| "temp_tries (Suc n) name fs =
     (let t = name (fs_random fs (fs_clock fs)) in
      case fault fs TempFile of Some e \<Rightarrow> (Inl e, tick fs)
      | None \<Rightarrow> if ghas (fs_files fs) t then temp_tries n name (tick fs)
               else (Inr t, set_file t ([], 0x180) (tick fs)))"

definition os_tempFile :: "string \<Rightarrow> string \<Rightarrow> fsys \<Rightarrow> (os_error + string) \<times> fsys" where
  "os_tempFile dir pat fs =
     (if CHR ''/'' \<in> set pat then (Inl (OsError ''pattern contains path separator''), fs)
      else temp_tries 10000 (temp_name (fs_tempDir fs) dir pat) fs)"

text \<open>
  A successful write appends all bytes and returns their number; a failed one may have
  written a part of them.
\<close>

definition os_write :: "string \<Rightarrow> string \<Rightarrow> fsys \<Rightarrow> (nat \<times> os_error option) \<times> fsys" where
  "os_write name content fs =
     (case file_at fs name of
        None \<Rightarrow> (case fault fs WriteFile of Some e \<Rightarrow> ((0, Some e), tick fs)
                | None \<Rightarrow> ((length content, None), tick fs))
      | Some (old, mode) \<Rightarrow>
          (case fault fs WriteFile of
             Some e \<Rightarrow> (let n = min (fs_partial fs (fs_clock fs)) (length content)
                       in ((n, Some e), set_file name (old @ take n content, mode) (tick fs)))
           | None \<Rightarrow> ((length content, None), set_file name (old @ content, mode) (tick fs))))"

definition os_sync :: "string \<Rightarrow> fsys \<Rightarrow> os_error option \<times> fsys" where
  "os_sync name fs = (fault fs SyncFile, tick fs)"

definition os_chmod :: "string \<Rightarrow> nat \<Rightarrow> fsys \<Rightarrow> os_error option \<times> fsys" where
  "os_chmod name mode fs =
     (case fault fs Chmod of Some e \<Rightarrow> (Some e, tick fs)
      | None \<Rightarrow> (case file_at fs name of None \<Rightarrow> (Some NotExist, tick fs)
                | Some (c, _) \<Rightarrow> (None, set_file name (c, mode) (tick fs))))"

definition os_rename :: "string \<Rightarrow> string \<Rightarrow> fsys \<Rightarrow> os_error option \<times> fsys" where
  "os_rename src dst fs =
     (case fault fs Rename of Some e \<Rightarrow> (Some e, tick fs)
      | None \<Rightarrow> (case file_at fs src of None \<Rightarrow> (Some NotExist, tick fs)
                | Some f \<Rightarrow> (None, set_file dst f (del_file src (tick fs)))))"

definition os_remove :: "string \<Rightarrow> fsys \<Rightarrow> os_error option \<times> fsys" where
  "os_remove name fs =
     (case fault fs Remove of Some e \<Rightarrow> (Some e, tick fs)
      | None \<Rightarrow> if ghas (fs_files fs) name then (None, del_file name (tick fs))
               else (Some NotExist, tick fs))"

definition os_truncate :: "string \<Rightarrow> fsys \<Rightarrow> os_error option \<times> fsys" where
  "os_truncate name fs =
     (case fault fs Truncate of Some e \<Rightarrow> (Some e, tick fs)
      | None \<Rightarrow> (case file_at fs name of None \<Rightarrow> (Some NotExist, tick fs)
                | Some (_, mode) \<Rightarrow> (None, set_file name ([], mode) (tick fs))))"

definition os_mkdirAll :: "string \<Rightarrow> fsys \<Rightarrow> os_error option \<times> fsys" where
  "os_mkdirAll dir fs = (fault fs MkdirAll, tick fs)"

text \<open>OpenFile with O\_WRONLY and O\_CREATE: an existing file is kept as it is.\<close>

definition os_openCreate :: "string \<Rightarrow> nat \<Rightarrow> fsys \<Rightarrow> os_error option \<times> fsys" where
  "os_openCreate name mode fs =
     (case fault fs OpenFile of Some e \<Rightarrow> (Some e, tick fs)
      | None \<Rightarrow> (None, if ghas (fs_files fs) name then tick fs else set_file name ([], mode) (tick fs)))"

text \<open>Create opens for writing and empties an existing file, which keeps its mode; a new file has mode 0666.\<close>

definition os_create :: "string \<Rightarrow> fsys \<Rightarrow> (os_error + string) \<times> fsys" where
  "os_create name fs =
     (case fault fs OpenFile of Some e \<Rightarrow> (Inl e, tick fs)
      | None \<Rightarrow> (case file_at fs name of
                   None \<Rightarrow> (Inr name, set_file name ([], 0x1B6) (tick fs))
                 | Some (_, mode) \<Rightarrow> (Inr name, set_file name ([], mode) (tick fs))))"

definition os_open :: "string \<Rightarrow> fsys \<Rightarrow> (os_error + string) \<times> fsys" where
  "os_open name fs =
     (case fault fs OpenFile of Some e \<Rightarrow> (Inl e, tick fs)
      | None \<Rightarrow> if ghas (fs_files fs) name then (Inr name, tick fs) else (Inl NotExist, tick fs))"

text \<open>Copy reads an open file to its end and writes what it read to another one.\<close>

definition io_Copy :: "string \<Rightarrow> string \<Rightarrow> fsys \<Rightarrow> os_error option \<times> fsys" where
  "io_Copy dst src fs =
     (case fault fs ReadFile of Some e \<Rightarrow> (Some e, tick fs)
      | None \<Rightarrow>
        (case os_write dst (case file_at fs src of None \<Rightarrow> [] | Some (c, _) \<Rightarrow> c) (tick fs) of
           ((_, err), fs1) \<Rightarrow> (err, fs1)))"

text \<open>No call fails.\<close>

definition quiet :: "fsys \<Rightarrow> bool" where
  "quiet fs \<longleftrightarrow> fs_fault fs = (\<lambda>_ _. None)"

section \<open>What each call leaves alone\<close>

lemma file_at_simps [simp]:
  "file_at (tick fs) p = file_at fs p"
  "file_at (set_file q f fs) p = (if p = q then Some f else file_at fs p)"
  "file_at (del_file q fs) p = (if p = q then None else file_at fs p)"
  by (simp_all add: tick_def set_file_def del_file_def)

lemma ghas_files [simp]: "ghas (fs_files fs) p \<longleftrightarrow> file_at fs p \<noteq> None"
  by (simp add: ghas_iff)

lemma fault_not_NotExist: "fault fs c = Some e \<Longrightarrow> \<not> IsNotExist e"
  by (auto simp: fault_def)

lemma fs_fault_simps [simp]:
  "fs_fault (tick fs) = fs_fault fs" "fs_fault (set_file p f fs) = fs_fault fs"
  "fs_fault (del_file p fs) = fs_fault fs"
  by (simp_all add: tick_def set_file_def del_file_def)

lemma fs_tempDir_simps [simp]:
  "fs_tempDir (tick fs) = fs_tempDir fs" "fs_tempDir (set_file p f fs) = fs_tempDir fs"
  "fs_tempDir (del_file p fs) = fs_tempDir fs"
  by (simp_all add: tick_def set_file_def del_file_def)

lemma fs_random_simps [simp]:
  "fs_random (tick fs) = fs_random fs" "fs_clock (tick fs) = Suc (fs_clock fs)"
  by (simp_all add: tick_def)

lemmas os_defs = os_write_def os_sync_def os_chmod_def os_rename_def
  os_remove_def os_truncate_def os_mkdirAll_def os_openCreate_def

lemma os_frame [simp]:
  "p \<noteq> n \<Longrightarrow> file_at (snd (os_write n c fs)) p = file_at fs p"
  "file_at (snd (os_sync n fs)) p = file_at fs p"
  "p \<noteq> n \<Longrightarrow> file_at (snd (os_chmod n m fs)) p = file_at fs p"
  "p \<noteq> n \<Longrightarrow> file_at (snd (os_remove n fs)) p = file_at fs p"
  "p \<noteq> n \<Longrightarrow> file_at (snd (os_truncate n fs)) p = file_at fs p"
  "file_at (snd (os_mkdirAll n fs)) p = file_at fs p"
  "p \<noteq> n \<Longrightarrow> file_at (snd (os_openCreate n m fs)) p = file_at fs p"
  "p \<noteq> src \<Longrightarrow> p \<noteq> dst \<Longrightarrow> file_at (snd (os_rename src dst fs)) p = file_at fs p"
  by (auto simp: os_defs Let_def split: option.splits prod.splits)

lemma temp_tries_kept:
  "fs_fault (snd (temp_tries n name fs)) = fs_fault fs \<and> fs_tempDir (snd (temp_tries n name fs)) = fs_tempDir fs"
  by (induction n arbitrary: fs) (auto simp: Let_def split: option.splits)

lemma os_tempFile_kept [simp]:
  "fs_fault (snd (os_tempFile d pat fs)) = fs_fault fs" "fs_tempDir (snd (os_tempFile d pat fs)) = fs_tempDir fs"
  by (simp_all add: os_tempFile_def temp_tries_kept)

lemma os_tempDir_kept [simp]:
  "fs_tempDir (snd (os_write n c fs)) = fs_tempDir fs"
  "fs_tempDir (snd (os_sync n fs)) = fs_tempDir fs"
  "fs_tempDir (snd (os_chmod n m fs)) = fs_tempDir fs"
  "fs_tempDir (snd (os_rename n n' fs)) = fs_tempDir fs"
  "fs_tempDir (snd (os_mkdirAll n fs)) = fs_tempDir fs"
  "fs_tempDir (snd (os_openCreate n m fs)) = fs_tempDir fs"
  by (auto simp: os_defs Let_def split: option.splits prod.splits)

lemma os_fault_kept [simp]:
  "fs_fault (snd (os_write n c fs)) = fs_fault fs"
  "fs_fault (snd (os_sync n fs)) = fs_fault fs"
  "fs_fault (snd (os_chmod n m fs)) = fs_fault fs"
  "fs_fault (snd (os_rename n n' fs)) = fs_fault fs"
  by (auto simp: os_defs Let_def split: option.splits prod.splits)

lemma os_fault_pair:
  "os_sync n fs = (e, g) \<Longrightarrow> fs_fault g = fs_fault fs"
  "os_chmod n m fs = (e, g) \<Longrightarrow> fs_fault g = fs_fault fs"
  "os_rename n n' fs = (e, g) \<Longrightarrow> fs_fault g = fs_fault fs"
  by (metis os_fault_kept snd_conv)+

lemma temp_tries_fresh:
  assumes "temp_tries n name fs = (Inr t, fs')"
  shows "(\<exists>k. t = name k) \<and> file_at fs t = None \<and> file_at fs' t = Some ([], 0x180)
     \<and> (\<forall>p. p \<noteq> t \<longrightarrow> file_at fs' p = file_at fs p)"
  using assms
proof (induction n arbitrary: fs)
  case (Suc n)
  then show ?case
    using Suc.IH [of "tick fs"]
    by (cases "file_at fs (name (fs_random fs (fs_clock fs)))") (auto simp: Let_def split: option.splits)
qed simp

lemma temp_tries_error: "temp_tries n name fs = (Inl e, fs') \<Longrightarrow> file_at fs' p = file_at fs p"
  by (induction n arbitrary: fs) (auto simp: Let_def split: option.splits if_splits)

text \<open>If the call does not fail then one free name among those tried is enough.\<close>

lemma temp_tries_quiet:
  assumes "\<forall>j. fs_fault fs j TempFile = None" and "i < n" and "file_at fs (name (fs_random fs (fs_clock fs + i))) = None"
  shows "\<exists>t fs'. temp_tries n name fs = (Inr t, fs')"
  using assms
proof (induction n arbitrary: i fs)
  case (Suc n)
  show ?case
  proof (cases "file_at fs (name (fs_random fs (fs_clock fs))) = None")
    case True
    then show ?thesis using Suc.prems(1) by (simp add: fault_def Let_def)
  next
    case False
    with Suc.prems obtain j where "i = Suc j" "j < n" by (cases i) auto
    with Suc.IH [of "tick fs" j] Suc.prems False show ?thesis by (auto simp: fault_def Let_def)
  qed
qed simp

lemma temp_affixes_append:
  "temp_affixes pat = (pre, suf) \<Longrightarrow> (pat = pre \<and> suf = [] \<and> CHR ''*'' \<notin> set pat) \<or> pat = pre @ ''*'' @ suf"
proof -
  let ?P = "\<lambda>c. c \<noteq> CHR ''*''"
  assume a: "temp_affixes pat = (pre, suf)"
  show ?thesis
  proof (cases "dropWhile ?P (rev pat)")
    case Nil
    with a show ?thesis by (auto simp: temp_affixes_def dropWhile_eq_Nil_conv)
  next
    case (Cons c rest)
    then have "c = CHR ''*''" by (metis (full_types) dropWhile_eq_Cons_conv)
    then have "rev pat = takeWhile ?P (rev pat) @ CHR ''*'' # rest" using Cons by (metis takeWhile_dropWhile_id)
    then have "pat = rev (takeWhile ?P (rev pat) @ CHR ''*'' # rest)" by (metis rev_rev_ident)
    with a Cons show ?thesis by (simp add: temp_affixes_def)
  qed
qed

lemma FormatNat_no_star: "CHR ''*'' \<notin> set (FormatNat k)"
  using FormatNat_digits [of "CHR ''*''" k] by (auto simp: of_char_def)

text \<open>A temporary file never has the name that its pattern comes from.\<close>

lemma temp_name_neq:
  assumes "dir = [] \<or> last dir = CHR ''/''" and "CHR ''/'' \<notin> set pat"
  shows "temp_name tempDir dir pat k \<noteq> dir @ pat"
proof (cases "dir = []")
  case True
  have "CHR ''/'' \<in> set (temp_prefix d pre)" for d pre
  proof (cases "d \<noteq> [] \<and> last d = CHR ''/''")
    case True
    then have "CHR ''/'' \<in> set d" using last_in_set [of d] by metis
    then show ?thesis by (simp add: temp_prefix_def)
  qed (auto simp: temp_prefix_def)
  then have "CHR ''/'' \<in> set (temp_name tempDir dir pat k)" by (simp add: temp_name_def)
  with True assms(2) show ?thesis by auto
next
  case False
  obtain pre suf where a: "temp_affixes pat = (pre, suf)" by (cases "temp_affixes pat")
  have name: "temp_name tempDir dir pat k = dir @ pre @ FormatNat k @ suf"
    using False assms(1) a by (simp add: temp_name_def temp_prefix_def)
  from temp_affixes_append [OF a] show ?thesis
  proof
    assume "pat = pre \<and> suf = [] \<and> CHR ''*'' \<notin> set pat"
    then show ?thesis using FormatNat_nonempty [of k] unfolding name by auto
  next
    assume "pat = pre @ ''*'' @ suf"
    moreover have "FormatNat k \<noteq> ''*''" using FormatNat_no_star [of k] by (metis list.set_intros(1))
    ultimately show ?thesis unfolding name by (metis append.assoc append_same_eq same_append_eq)
  qed
qed

lemma temp_name_plain:
  assumes "dir \<noteq> []" and "last dir = CHR ''/''" and "CHR ''*'' \<notin> set pat"
  shows "temp_name tempDir dir pat k = dir @ pat @ FormatNat k"
proof -
  have "dropWhile (\<lambda>c. c \<noteq> CHR ''*'') (rev pat) = []" using assms(3) unfolding dropWhile_eq_Nil_conv by auto
  then have "temp_affixes pat = (pat, [])" by (simp only: temp_affixes_def list.case)
  then show ?thesis using assms(1,2) by (simp add: temp_name_def temp_prefix_def)
qed

lemma os_tempFile_fresh:
  assumes "os_tempFile dir pat fs = (Inr t, fs')"
  shows "file_at fs t = None" and "file_at fs' t = Some ([], 0x180)"
    and "\<exists>k. t = temp_name (fs_tempDir fs) dir pat k" and "p \<noteq> t \<Longrightarrow> file_at fs' p = file_at fs p"
  using temp_tries_fresh [of 10000 "temp_name (fs_tempDir fs) dir pat" fs t fs'] assms
  by (auto simp: os_tempFile_def split: if_splits)

lemma os_tempFile_error: "os_tempFile dir pat fs = (Inl e, fs') \<Longrightarrow> file_at fs' p = file_at fs p"
  by (auto simp: os_tempFile_def split: if_splits dest: temp_tries_error)

text \<open>If the first name is free and the call does not fail then that file is made.\<close>

lemma os_tempFile_first:
  assumes "CHR ''/'' \<notin> set pat" and "fault fs TempFile = None"
    and "file_at fs (temp_name (fs_tempDir fs) dir pat (fs_random fs (fs_clock fs))) = None"
  shows "os_tempFile dir pat fs =
     (let t = temp_name (fs_tempDir fs) dir pat (fs_random fs (fs_clock fs)) in (Inr t, set_file t ([], 0x180) (tick fs)))"
proof -
  have "(10000::nat) = Suc 9999" by simp
  then show ?thesis unfolding os_tempFile_def using assms by (simp only: temp_tries.simps) simp
qed

end
