(* ===== verification/Atomic_Writer.thy ===== *)
theory Atomic_Writer
  imports File_System
begin

text \<open>
  Package atomicwriter (atomic\_writer.go): content goes to a temporary file beside the
  destination, and Close renames it over the destination. The lemmas say what each method
  leaves alone; the properties are the all-or-nothing behaviour of a write followed by a
  close, and that no secret content stays in a temporary file unless both removing and
  truncating it failed.
\<close>

record atomicWriter =
  aw_path :: string
  aw_permissions :: nat
  aw_tempFile :: "string option"

definition newAtomicWriter :: "string \<Rightarrow> nat \<Rightarrow> atomicWriter" where
  "newAtomicWriter path permissions =
     \<lparr>aw_path = path, aw_permissions = permissions, aw_tempFile = None\<rparr>"

definition Cleanup :: "atomicWriter \<Rightarrow> fsys \<Rightarrow> atomicWriter \<times> fsys" where
  "Cleanup w fs =
     (case aw_tempFile w of None \<Rightarrow> (w, fs)
      | Some t \<Rightarrow>
        (case os_remove t fs of (err, fs1) \<Rightarrow>
           if (case err of None \<Rightarrow> True | Some e \<Rightarrow> IsNotExist e) then (w\<lparr>aw_tempFile := None\<rparr>, fs1)
           else case os_truncate t fs1 of
             (Some e, fs2) \<Rightarrow> if IsNotExist e then (w\<lparr>aw_tempFile := None\<rparr>, fs2) else (w, fs2)
           | (None, fs2) \<Rightarrow> (w, fs2)))"

text \<open>Write: create the temporary file if there is none, write to it, clean up on error.\<close>

definition Write ::
  "string \<Rightarrow> atomicWriter \<Rightarrow> fsys \<Rightarrow> (nat \<times> os_error option) \<times> atomicWriter \<times> fsys" where
  "Write content w fs =
     (let create = (case aw_tempFile w of
            Some t \<Rightarrow> (Inr t, fs)
          | None \<Rightarrow> (let df = SplitPath (aw_path w) in os_tempFile (fst df) (snd df) fs))
      in case create of
           (Inl e, fs1) \<Rightarrow> ((0, Some e), w, fs1)
         | (Inr t, fs1) \<Rightarrow>
             (let w1 = w\<lparr>aw_tempFile := Some t\<rparr> in
              case os_write t content fs1 of
                ((n, None), fs2) \<Rightarrow> ((n, None), w1, fs2)
              | ((n, Some e), fs2) \<Rightarrow> (let (w2, fs3) = Cleanup w1 fs2 in ((n, Some e), w2, fs3))))"

text \<open>
  Close: flush, set the permissions (an error is only logged), rename; the deferred Cleanup
  runs on every path after the temporary file exists.
\<close>

definition Close :: "atomicWriter \<Rightarrow> fsys \<Rightarrow> os_error option \<times> atomicWriter \<times> fsys" where
  "Close w fs =
     (case aw_tempFile w of None \<Rightarrow> (None, w, fs)
      | Some t \<Rightarrow>
        (case os_sync t fs of
           (Some e, fs1) \<Rightarrow> (Some e, Cleanup w fs1)
         | (None, fs1) \<Rightarrow>
             (case os_chmod t (aw_permissions w) fs1 of (_, fs2) \<Rightarrow>
                case os_rename t (aw_path w) fs2 of
                  (Some e, fs3) \<Rightarrow> (Some e, Cleanup w fs3)
                | (None, fs3) \<Rightarrow> (None, Cleanup (w\<lparr>aw_tempFile := None\<rparr>) fs3))))"

section \<open>Lemmas\<close>

lemma Cleanup_None [simp]: "aw_tempFile w = None \<Longrightarrow> Cleanup w fs = (w, fs)"
  by (simp add: Cleanup_def)

lemma Cleanup_frame:
  "aw_tempFile w = Some t \<Longrightarrow> p \<noteq> t \<Longrightarrow> file_at (snd (Cleanup w fs)) p = file_at fs p"
  by (auto simp: Cleanup_def os_remove_def os_truncate_def split: prod.splits option.splits if_splits)

lemma Cleanup_path [simp]: "aw_path (fst (Cleanup w fs)) = aw_path w"
  by (auto simp: Cleanup_def split: prod.splits option.splits if_splits)

text \<open>After Cleanup the temporary file is gone or empty, or remove and truncate both failed.\<close>

definition both_failed :: "fsys \<Rightarrow> bool" where
  "both_failed fs \<longleftrightarrow> fault fs Remove \<noteq> None \<and> fault (tick fs) Truncate \<noteq> None"

lemma Cleanup_no_content:
  assumes "aw_tempFile w = Some t" and "\<not> both_failed fs"
    and "file_at (snd (Cleanup w fs)) t = Some (c, m)"
  shows "c = []"
  using assms fault_not_NotExist [of fs Remove]
  by (auto simp: Cleanup_def both_failed_def os_remove_def os_truncate_def
      split: prod.splits option.splits if_splits)

text \<open>The names that a temporary file for a path can get.\<close>

definition temp_for :: "string \<Rightarrow> string \<Rightarrow> nat \<Rightarrow> string" where
  "temp_for tempDir path k = temp_name tempDir (fst (SplitPath path)) (snd (SplitPath path)) k"

lemma temp_for_neq: "temp_for tempDir path k \<noteq> path"
  using temp_name_neq [of "fst (SplitPath path)" "snd (SplitPath path)" tempDir k]
    SplitPath_dir [of path] SplitPath_no_slash [of path] SplitPath_append [of path]
  by (simp add: temp_for_def)

lemma temp_for_plain:
  assumes "CHR ''/'' \<in> set path" and "CHR ''*'' \<notin> set path"
  shows "temp_for tempDir path k = path @ FormatNat k"
proof -
  have "fst (SplitPath path) \<noteq> []" using assms(1) SplitPath_append [of path] SplitPath_no_slash [of path] by (metis append_Nil)
  moreover have "CHR ''*'' \<notin> set (snd (SplitPath path))" using assms(2) SplitPath_append [of path] by (metis UnCI set_append)
  ultimately show ?thesis
    using temp_name_plain SplitPath_dir [of path] SplitPath_append [of path] by (metis append_assoc temp_for_def)
qed

lemma temp_file_neq: "os_tempFile (fst (SplitPath p)) (snd (SplitPath p)) fs = (Inr t, fs') \<Longrightarrow> t \<noteq> p"
  using os_tempFile_fresh(3) temp_for_neq unfolding temp_for_def by metis

text \<open>A first Write never touches the destination or any other existing file.\<close>

lemma Write_frame:
  assumes "aw_tempFile w = None" and "Write content w fs = (r, w', fs')" and "file_at fs p = Some f \<or> p = aw_path w"
  shows "file_at fs' p = file_at fs p"
proof (cases "os_tempFile (fst (SplitPath (aw_path w))) (snd (SplitPath (aw_path w))) fs")
  case (Pair res fs1)
  show ?thesis
  proof (cases res)
    case (Inl e)
    then show ?thesis using assms Pair os_tempFile_error [of _ _ fs e fs1 p]
      by (auto simp: Write_def split_beta)
  next
    case (Inr t)
    with Pair have tmp: "os_tempFile (fst (SplitPath (aw_path w))) (snd (SplitPath (aw_path w))) fs = (Inr t, fs1)"
      by simp
    have p: "p \<noteq> t"
      using assms(3) os_tempFile_fresh(1) [OF tmp] temp_file_neq [OF tmp] by auto
    have fs1: "file_at fs1 p = file_at fs p"
      using os_tempFile_fresh(4) [OF tmp p] .
    have w: "file_at (snd (os_write t content fs1)) p = file_at fs p"
      using p fs1 by simp
    then show ?thesis
      using assms(1,2) tmp p Cleanup_frame [of "w\<lparr>aw_tempFile := Some t\<rparr>" t p "snd (os_write t content fs1)"]
      by (auto simp: Write_def Let_def split_beta split: prod.splits option.splits)
  qed
qed

text \<open>A successful first Write leaves exactly the content in the temporary file.\<close>

lemma Write_ok:
  assumes "aw_tempFile w = None" and "Write content w fs = ((n, None), w', fs')"
  obtains t where "w' = w\<lparr>aw_tempFile := Some t\<rparr>" and "t \<noteq> aw_path w" and "n = length content"
    and "file_at fs' t = Some (content, 0x180)" and "file_at fs t = None"
    and "\<And>p. p \<noteq> t \<Longrightarrow> file_at fs' p = file_at fs p"
proof -
  obtain t fs1 where tmp: "os_tempFile (fst (SplitPath (aw_path w))) (snd (SplitPath (aw_path w))) fs = (Inr t, fs1)"
    and wr: "os_write t content fs1 = ((n, None), fs')" and w': "w' = w\<lparr>aw_tempFile := Some t\<rparr>"
    using assms
    by (cases "os_tempFile (fst (SplitPath (aw_path w))) (snd (SplitPath (aw_path w))) fs")
      (auto simp: Write_def Let_def split: sum.splits option.splits prod.splits)
  have f: "file_at fs' t = Some (content, 0x180) \<and> n = length content"
    using os_tempFile_fresh(2) [OF tmp] wr by (auto simp: os_write_def Let_def split: option.splits)
  have fr: "file_at fs' p = file_at fs p" if "p \<noteq> t" for p
    using os_frame(1) [OF that, of content fs1] os_tempFile_fresh(4) [OF tmp that] wr by simp
  show thesis
    by (rule that [OF w' temp_file_neq [OF tmp]]) (use f fr os_tempFile_fresh(1) [OF tmp] in auto)
qed

text \<open>
  Close with a temporary file: the destination keeps its old state, or it is the temporary
  file's content; no other file changes.
\<close>

lemma Close_dest:
  assumes "aw_tempFile w = Some t" and "t \<noteq> aw_path w" and "file_at fs t = Some (c, m)"
    and "Close w fs = (err, w', fs')"
  shows "(err \<noteq> None \<and> file_at fs' (aw_path w) = file_at fs (aw_path w))
       \<or> (err = None \<and> (\<exists>mode\<in>{m, aw_permissions w}. file_at fs' (aw_path w) = Some (c, mode))
            \<and> file_at fs' t = None \<and> aw_tempFile w' = None)"
proof -
  let ?p = "aw_path w"
  have p: "?p \<noteq> t" using assms(2) by simp
  obtain cerr fs2 where ch: "os_chmod t (aw_permissions w) (snd (os_sync t fs)) = (cerr, fs2)"
    by (cases "os_chmod t (aw_permissions w) (snd (os_sync t fs))")
  have fs2p: "file_at fs2 ?p = file_at fs ?p"
    using os_frame(3) [OF p, of "aw_permissions w" "snd (os_sync t fs)"] ch by simp
  obtain mode where mode: "mode \<in> {m, aw_permissions w}" and fs2t: "file_at fs2 t = Some (c, mode)"
    using assms(3) ch by (auto simp: os_chmod_def os_sync_def split: option.splits)
  show ?thesis
  proof (cases "fst (os_sync t fs)")
    case (Some e)
    then show ?thesis
      using assms(1,4) Cleanup_frame [OF assms(1) p, of "snd (os_sync t fs)"]
      by (auto simp: Close_def split: prod.splits)
  next
    case None
    then show ?thesis
      using assms(1,4) p ch mode fs2p fs2t Cleanup_frame [OF assms(1) p, of "tick fs2"]
      by (auto simp: Close_def os_rename_def split: prod.splits option.splits)
  qed
qed

lemma Close_frame:
  assumes "aw_tempFile w = Some t" and "q \<noteq> t" and "q \<noteq> aw_path w" and "Close w fs = (err, w', fs')"
  shows "file_at fs' q = file_at fs q"
proof -
  obtain cerr fs2 where ch: "os_chmod t (aw_permissions w) (snd (os_sync t fs)) = (cerr, fs2)"
    by (cases "os_chmod t (aw_permissions w) (snd (os_sync t fs))")
  have fs2: "file_at fs2 q = file_at fs q"
    using os_frame(3) [OF assms(2), of "aw_permissions w" "snd (os_sync t fs)"] ch by simp
  obtain rerr fs3 where rn: "os_rename t (aw_path w) fs2 = (rerr, fs3)"
    by (cases "os_rename t (aw_path w) fs2")
  have fs3: "file_at fs3 q = file_at fs q"
    using os_frame(8) [OF assms(2,3), of fs2] rn fs2 by simp
  show ?thesis
    using assms(1,4) ch rn fs3 Cleanup_frame [OF assms(1,2), of fs3]
      Cleanup_frame [OF assms(1,2), of "snd (os_sync t fs)"]
    by (auto simp: Close_def split: prod.splits option.splits)
qed

lemma no_faults_os:
  assumes "fs_fault fs = (\<lambda>_ _. None)"
  shows "fault fs c = None"
  using assms by (simp add: fault_def)

lemma Close_error_cleanup:
  assumes "aw_tempFile w = Some t" and "Close w fs = (Some e, w', fs')"
  shows "\<exists>g. fs' = snd (Cleanup w g) \<and> fs_fault g = fs_fault fs"
  using assms
  by (auto simp: Close_def split: prod.splits option.splits) (metis os_fault_pair snd_conv)+

lemma Write_fault_kept:
  assumes "aw_tempFile w = None" and "Write content w fs = ((n, None), w', fs')"
  shows "fs_fault fs' = fs_fault fs"
proof -
  let ?tmp = "os_tempFile (fst (SplitPath (aw_path w))) (snd (SplitPath (aw_path w))) fs"
  obtain t where "fs' = snd (os_write t content (snd ?tmp))"
    using assms by (auto simp: Write_def Let_def split: sum.splits prod.splits option.splits) (metis snd_conv)
  then show ?thesis by simp
qed

text \<open>The temporary file is made if the call does not fail and one of the names tried is free.\<close>

definition temp_free :: "string \<Rightarrow> fsys \<Rightarrow> bool" where
  "temp_free path fs \<longleftrightarrow>
     (\<exists>i<10000. file_at fs (temp_for (fs_tempDir fs) path (fs_random fs (fs_clock fs + i))) = None)"

lemma temp_file_made:
  assumes "\<forall>j. fs_fault fs j TempFile = None" and "temp_free path fs"
  obtains t g where "os_tempFile (fst (SplitPath path)) (snd (SplitPath path)) fs = (Inr t, g)"
    and "file_at fs t = None" and "file_at g t = Some ([], 0x180)" and "t \<noteq> path"
    and "\<And>p. p \<noteq> t \<Longrightarrow> file_at g p = file_at fs p" and "fs_fault g = fs_fault fs" and "fs_tempDir g = fs_tempDir fs"
proof -
  let ?d = "fst (SplitPath path)" and ?f = "snd (SplitPath path)"
  obtain i where i: "i < 10000" "file_at fs (temp_name (fs_tempDir fs) ?d ?f (fs_random fs (fs_clock fs + i))) = None"
    using assms(2) unfolding temp_free_def temp_for_def by blast
  obtain t g where tmp: "os_tempFile ?d ?f fs = (Inr t, g)"
    using temp_tries_quiet [OF assms(1) i(1), of "temp_name (fs_tempDir fs) ?d ?f"] i(2) SplitPath_no_slash [of path]
    unfolding os_tempFile_def by auto
  show thesis
    using that [OF tmp] os_tempFile_fresh [OF tmp] temp_file_neq [OF tmp] os_tempFile_kept [of ?d ?f fs] by (simp add: tmp)
qed

lemma write_close_quiet:
  assumes nofault: "fs_fault fs = (\<lambda>_ _. None)" and free: "temp_free path fs"
  shows "\<exists>w1 fs1 w2 fs2. Write content (newAtomicWriter path perm) fs = ((length content, None), w1, fs1)
     \<and> Close w1 fs1 = (None, w2, fs2) \<and> file_at fs2 path = Some (content, perm)
     \<and> (\<forall>q. q \<noteq> path \<longrightarrow> file_at fs2 q = file_at fs q) \<and> fs_fault fs2 = fs_fault fs \<and> fs_tempDir fs2 = fs_tempDir fs"
proof -
  obtain t g where tmp: "os_tempFile (fst (SplitPath path)) (snd (SplitPath path)) fs = (Inr t, g)"
    and g: "file_at fs t = None" "file_at g t = Some ([], 0x180)" "t \<noteq> path" "\<And>p. p \<noteq> t \<Longrightarrow> file_at g p = file_at fs p"
      "fs_fault g = fs_fault fs" "fs_tempDir g = fs_tempDir fs"
    using temp_file_made [OF _ free] nofault by auto
  have nf: "fault h c = None" if "fs_fault h = fs_fault fs" for h c
    using nofault that by (simp add: fault_def)
  show ?thesis
    using g
    by (auto simp: Write_def newAtomicWriter_def tmp os_write_def Close_def os_sync_def
        os_chmod_def os_rename_def nf Let_def)
qed

text \<open>When writing and removing fail, Cleanup keeps the temporary file, empty or with a part of the content.\<close>

lemma failed_write_keeps_temp:
  assumes made: "\<forall>j. fs_fault fs j TempFile = None" "temp_free path fs"
    and stuck: "\<forall>i. fs_fault fs i WriteFile \<noteq> None \<and> fs_fault fs i Remove \<noteq> None"
  obtains t n e c fs1 where "Write content (newAtomicWriter path perm) fs
      = ((n, Some e), (newAtomicWriter path perm)\<lparr>aw_tempFile := Some t\<rparr>, fs1)"
    and "t \<noteq> path" and "file_at fs1 t = Some (c, 0x180)" and "c = [] \<or> c = take n content"
    and "(\<forall>i. fs_fault fs i Truncate = None) \<longrightarrow> c = []"
    and "file_at fs1 path = file_at fs path" and "fs_fault fs1 = fs_fault fs"
proof -
  obtain t g where tmp: "os_tempFile (fst (SplitPath path)) (snd (SplitPath path)) fs = (Inr t, g)"
    and g: "file_at g t = Some ([], 0x180)" "t \<noteq> path" "file_at g path = file_at fs path" "fs_fault g = fs_fault fs"
    using temp_file_made [OF made] by metis
  let ?n = "min (fs_partial g (fs_clock g)) (length content)"
  define h where "h = set_file t (take ?n content, 0x180) (tick g)"
  have "fs_fault fs (fs_clock g) WriteFile \<noteq> None" using stuck by blast
  then obtain e where e: "fault g WriteFile = Some e" by (auto simp: fault_def g(4))
  have wr: "os_write t content g = ((?n, Some e), h)" by (simp add: os_write_def g(1) e h_def Let_def)
  have h: "file_at h t = Some (take ?n content, 0x180)" "fs_fault h = fs_fault fs" by (simp_all add: h_def g(4))
  have "fs_fault fs (fs_clock h) Remove \<noteq> None" using stuck by blast
  then obtain e' where e': "fault h Remove = Some (OsError e')" by (auto simp: fault_def h(2))
  let ?w = "(newAtomicWriter path perm)\<lparr>aw_tempFile := Some t\<rparr>"
  let ?c = "if fault (tick h) Truncate = None then [] else take ?n content"
  let ?fs1 = "if fault (tick h) Truncate = None then set_file t ([], 0x180) (tick (tick h)) else tick (tick h)"
  have cl: "Cleanup ?w h = (?w, ?fs1)"
    using fault_not_NotExist [of "tick h" Truncate]
    by (auto simp: Cleanup_def os_remove_def os_truncate_def e' h(1) split: option.splits)
  have "Write content (newAtomicWriter path perm) fs = ((?n, Some e), ?w, ?fs1)"
    by (simp add: Write_def newAtomicWriter_def [of path perm, THEN arg_cong [of _ _ aw_tempFile]]
        newAtomicWriter_def [of path perm, THEN arg_cong [of _ _ aw_path]] tmp wr cl Let_def)
  then show thesis
    by (rule that [where c = ?c]) (use g in \<open>auto simp: h_def fault_def\<close>)
qed

section \<open>Properties\<close>

text \<open>
  (C8) All or nothing: after a successful Write and whatever faults Close meets, the
  destination either is exactly what it was before (and Close reported an error) or holds
  the whole new content (and the temporary file is gone); every other file that existed is
  unchanged.
\<close>

theorem write_close_atomic:
  assumes wr: "Write content (newAtomicWriter path perm) fs = ((n, None), w1, fs1)"
    and cl: "Close w1 fs1 = (err, w2, fs2)"
  shows "(err \<noteq> None \<and> file_at fs2 path = file_at fs path
          \<or> err = None \<and> (\<exists>mode. file_at fs2 path = Some (content, mode)) \<and> aw_tempFile w2 = None)
       \<and> (\<forall>q f. file_at fs q = Some f \<and> q \<noteq> path \<longrightarrow> file_at fs2 q = Some f)"
proof -
  obtain t where w1: "w1 = (newAtomicWriter path perm)\<lparr>aw_tempFile := Some t\<rparr>"
    and t: "t \<noteq> path" "file_at fs1 t = Some (content, 0x180)" "file_at fs t = None"
    and fr: "\<And>p. p \<noteq> t \<Longrightarrow> file_at fs1 p = file_at fs p"
    using Write_ok [OF _ wr] by (auto simp: newAtomicWriter_def)
  have p: "aw_tempFile w1 = Some t" "aw_path w1 = path"
    by (simp_all add: w1 newAtomicWriter_def)
  have "path \<noteq> t" using t(1) by simp
  then have dest: "err \<noteq> None \<and> file_at fs2 path = file_at fs path
          \<or> err = None \<and> (\<exists>mode. file_at fs2 path = Some (content, mode)) \<and> aw_tempFile w2 = None"
    using Close_dest [OF p(1) _ t(2) cl] t(1) fr [of path] p by auto
  have "file_at fs2 q = Some f" if "file_at fs q = Some f" "q \<noteq> path" for q f
  proof -
    have "q \<noteq> t" using that(1) t(3) by auto
    then show ?thesis using Close_frame [OF p(1) _ _ cl] that p(2) fr by simp
  qed
  with dest show ?thesis by blast
qed

text \<open>A file system without faults, with one existing file.\<close>

lemma FormatNat_0: "FormatNat 0 = ''0''"
  by code_simp

definition demo_fs :: fsys where
  "demo_fs = \<lparr>fs_files = [(''/s/a'', (''old'', 0x1A4))], fs_clock = 0, fs_fault = (\<lambda>_ _. None),
              fs_random = (\<lambda>i. i), fs_partial = (\<lambda>_. 1), fs_tempDir = ''/tmp''\<rparr>"

text \<open>The temporary file of the examples.\<close>

lemma demo_temp:
  assumes "fs_fault fs 0 TempFile = None" and "fs_files fs = fs_files demo_fs" and "fs_clock fs = 0"
    and "fs_random fs = (\<lambda>i. i)"
  shows "os_tempFile ''/s/'' ''a'' fs = (Inr ''/s/a0'', set_file ''/s/a0'' ([], 0x180) (tick fs))"
proof -
  have "temp_name d ''/s/'' ''a'' 0 = ''/s/a0''" for d by (subst temp_name_plain) (simp_all add: FormatNat_0)
  then show ?thesis
    using assms by (subst os_tempFile_first) (simp_all add: fault_def demo_fs_def Let_def)
qed

lemma demo_free: "temp_free ''/s/a'' demo_fs"
  unfolding temp_free_def by (intro exI [of _ 0]) (simp add: temp_for_plain demo_fs_def FormatNat_0)

lemma demo_write:
  "Write ''new'' (newAtomicWriter ''/s/a'' 0x1B6) demo_fs =
     ((3, None), \<lparr>aw_path = ''/s/a'', aw_permissions = 0x1B6, aw_tempFile = Some ''/s/a0''\<rparr>,
      demo_fs\<lparr>fs_files := [(''/s/a'', (''old'', 0x1A4)), (''/s/a0'', (''new'', 0x180))], fs_clock := 2\<rparr>)"
  by (simp add: Write_def newAtomicWriter_def SplitPath_def demo_temp os_write_def demo_fs_def
      fault_def tick_def set_file_def gput_def ghas_def FormatNat_0 Let_def)

theorem write_close_atomic_witness:
  "\<exists>err w2 fs2. Close (fst (snd (Write ''new'' (newAtomicWriter ''/s/a'' 0x1B6) demo_fs)))
                  (snd (snd (Write ''new'' (newAtomicWriter ''/s/a'' 0x1B6) demo_fs))) = (err, w2, fs2)
     \<and> (file_at fs2 ''/s/a'' = file_at demo_fs ''/s/a''
        \<or> (\<exists>mode. file_at fs2 ''/s/a'' = Some (''new'', mode)))"
  using write_close_atomic [OF demo_write] unfolding demo_write by (metis prod.collapse snd_conv fst_conv)

text \<open>
  (C31) Without faults a Write followed by Close puts exactly the content with exactly the
  requested permissions at the path, and leaves no temporary file behind, provided one of the
  names tried for the temporary file is free.
\<close>

theorem write_close_succeeds:
  assumes nofault: "fs_fault fs = (\<lambda>_ _. None)"
    and free: "temp_free path fs"
  shows "\<exists>w1 fs1 w2 fs2. Write content (newAtomicWriter path perm) fs = ((length content, None), w1, fs1)
     \<and> Close w1 fs1 = (None, w2, fs2) \<and> file_at fs2 path = Some (content, perm)
     \<and> (\<forall>q. q \<noteq> path \<longrightarrow> file_at fs2 q = file_at fs q)"
  using write_close_quiet [OF assms] by blast

theorem write_close_succeeds_witness:
  "\<exists>w1 fs1 w2 fs2. Write ''new'' (newAtomicWriter ''/s/a'' 0x1B6) demo_fs = ((3, None), w1, fs1)
     \<and> Close w1 fs1 = (None, w2, fs2) \<and> file_at fs2 ''/s/a'' = Some (''new'', 0x1B6)"
proof -
  have "fs_fault demo_fs = (\<lambda>_ _. None)" by (simp add: demo_fs_def)
  from write_close_succeeds [OF this demo_free, of "''new''" "0x1B6"] show ?thesis by auto
qed

text \<open>Writing and removing fail, truncating works.\<close>

definition demo_faulty_fs :: fsys where
  "demo_faulty_fs = demo_fs\<lparr>fs_fault := (\<lambda>i c. if c = WriteFile \<or> c = Remove then Some ''EIO'' else None)\<rparr>"

text \<open>
  (C32) The guarantee needs the successful Write: whenever writing the temporary file fails and
  the file cannot be removed either, Cleanup keeps it as the writer's temporary file, and the
  Close that the caller defers, if it meets no fault, renames it over the destination and reports
  success. The old content is then replaced by an empty file, if truncating works, and by the
  written part of the new content otherwise, although Write reported an error.
\<close>

theorem failed_write_then_close_destroys_destination:
  assumes "\<forall>i. fs_fault fs i WriteFile \<noteq> None \<and> fs_fault fs i Remove \<noteq> None"
    and "\<forall>i. \<forall>call\<in>{TempFile, SyncFile, Chmod, Rename}. fs_fault fs i call = None"
    and "temp_free path fs"
  shows "\<exists>n e w1 fs1 w2 fs2 c. Write content (newAtomicWriter path perm) fs = ((n, Some e), w1, fs1)
     \<and> file_at fs1 path = file_at fs path \<and> Close w1 fs1 = (None, w2, fs2)
     \<and> file_at fs2 path = Some (c, perm) \<and> (c = [] \<or> c = take n content)
     \<and> ((\<forall>i. fs_fault fs i Truncate = None) \<longrightarrow> c = [])"
proof -
  have "\<forall>j. fs_fault fs j TempFile = None" using assms(2) by blast
  then obtain t n e c fs1 where wr: "Write content (newAtomicWriter path perm) fs
      = ((n, Some e), (newAtomicWriter path perm)\<lparr>aw_tempFile := Some t\<rparr>, fs1)"
    and f: "t \<noteq> path" "file_at fs1 t = Some (c, 0x180)" "c = [] \<or> c = take n content"
      "(\<forall>i. fs_fault fs i Truncate = None) \<longrightarrow> c = []" "file_at fs1 path = file_at fs path" "fs_fault fs1 = fs_fault fs"
    by (rule failed_write_keeps_temp [OF _ assms(3,1)])
  let ?w = "(newAtomicWriter path perm)\<lparr>aw_tempFile := Some t\<rparr>"
  have nf: "fault h call = None" if "fs_fault h = fs_fault fs" "call \<in> {SyncFile, Chmod, Rename}" for h call
    using assms(2) that by (auto simp: fault_def)
  have "\<exists>w2 fs2. Close ?w fs1 = (None, w2, fs2) \<and> file_at fs2 path = Some (c, perm)"
    using f(1,2,6) by (auto simp: Close_def newAtomicWriter_def os_sync_def os_chmod_def os_rename_def nf)
  with wr f(3,4,5) show ?thesis by blast
qed

theorem failed_write_then_close_destroys_destination_witness:
  "file_at demo_faulty_fs ''/s/a'' = Some (''old'', 0x1A4)
     \<and> (\<exists>n e w1 fs1 w2 fs2. Write ''new'' (newAtomicWriter ''/s/a'' 0x1B6) demo_faulty_fs = ((n, Some e), w1, fs1)
          \<and> Close w1 fs1 = (None, w2, fs2) \<and> file_at fs2 ''/s/a'' = Some ([], 0x1B6))"
proof -
  have "temp_free ''/s/a'' demo_faulty_fs"
    using demo_free by (simp add: temp_free_def demo_faulty_fs_def)
  from failed_write_then_close_destroys_destination [OF _ _ this, of "''new''" "0x1B6"] show ?thesis
    by (fastforce simp: demo_faulty_fs_def demo_fs_def)
qed

text \<open>
  (C33) No secret content stays behind: when a Close fails, the temporary file is gone or
  empty afterwards, unless removing it and truncating it both failed.
\<close>

theorem failed_close_leaves_no_content:
  assumes wr: "Write content (newAtomicWriter path perm) fs = ((n, None), w1, fs1)"
    and cl: "Close w1 fs1 = (Some e, w2, fs2)"
    and once: "\<forall>i. fs_fault fs i Remove = None \<or> fs_fault fs (Suc i) Truncate = None"
    and left: "file_at fs q = None" "file_at fs2 q = Some (c, m)" "q \<noteq> path"
  shows "c = []"
proof -
  obtain t where w1: "w1 = (newAtomicWriter path perm)\<lparr>aw_tempFile := Some t\<rparr>"
    and fr: "\<And>p. p \<noteq> t \<Longrightarrow> file_at fs1 p = file_at fs p"
    using Write_ok [OF _ wr] by (auto simp: newAtomicWriter_def)
  have w: "aw_tempFile w1 = Some t" "aw_path w1 = path"
    by (simp_all add: w1 newAtomicWriter_def)
  have q: "q = t"
    using Close_frame [OF w(1) _ _ cl, of q] fr [of q] left w(2) by (cases "q = t") auto
  obtain g where g: "fs2 = snd (Cleanup w1 g)" "fs_fault g = fs_fault fs1"
    using Close_error_cleanup [OF w(1) cl] by blast
  have "fs_fault fs1 = fs_fault fs"
    using Write_fault_kept [OF _ wr] by (simp add: newAtomicWriter_def)
  with g once have "\<not> both_failed g"
    by (auto simp: both_failed_def fault_def tick_def)
  then show ?thesis
    using Cleanup_no_content [OF w(1)] left(2) g(1) q by blast
qed

text \<open>Renaming fails; the temporary file is removed.\<close>

definition demo_rename_fs :: fsys where
  "demo_rename_fs = demo_fs\<lparr>fs_fault := (\<lambda>i c. if c = Rename then Some ''EXDEV'' else if c = Remove then Some ''EBUSY'' else None)\<rparr>"

theorem failed_close_leaves_no_content_witness:
  "\<exists>c m. file_at (snd (snd (Close (fst (snd (Write ''new'' (newAtomicWriter ''/s/a'' 0x1B6) demo_rename_fs)))
                  (snd (snd (Write ''new'' (newAtomicWriter ''/s/a'' 0x1B6) demo_rename_fs)))))) ''/s/a0''
          = Some (c, m) \<and> c = []"
proof -
  let ?w = "\<lparr>aw_path = ''/s/a'', aw_permissions = 0x1B6, aw_tempFile = Some ''/s/a0''\<rparr>"
  let ?fs1 = "demo_rename_fs\<lparr>fs_files := [(''/s/a'', (''old'', 0x1A4)), (''/s/a0'', (''new'', 0x180))], fs_clock := 2\<rparr>"
  let ?fs2 = "demo_rename_fs\<lparr>fs_files := [(''/s/a'', (''old'', 0x1A4)), (''/s/a0'', ([], 0x1B6))], fs_clock := 7\<rparr>"
  have wr: "Write ''new'' (newAtomicWriter ''/s/a'' 0x1B6) demo_rename_fs = ((3, None), ?w, ?fs1)"
    by (simp add: Write_def newAtomicWriter_def SplitPath_def demo_temp os_write_def demo_fs_def
        demo_rename_fs_def fault_def tick_def set_file_def gput_def ghas_def FormatNat_0 Let_def)
  have cl: "Close ?w ?fs1 = (Some (OsError ''EXDEV''), ?w, ?fs2)"
    by (simp add: Close_def Cleanup_def os_defs demo_fs_def demo_rename_fs_def fault_def tick_def
        set_file_def del_file_def gput_def ghas_def)
  have gone: "c = []" if "file_at ?fs2 ''/s/a0'' = Some (c, m)" for c m
    by (rule failed_close_leaves_no_content [OF wr cl _ _ that])
      (simp_all add: demo_rename_fs_def demo_fs_def)
  show ?thesis unfolding wr using gone by (simp add: cl)
qed

end
