(* ===== verification/Push_Writer.thy ===== *)
theory Push_Writer
  imports Atomic_Writer Utils File_Templates
begin

text \<open>
  Package pushtofile, push\_to\_writer.go and pull\_from\_reader.go: opening a destination,
  rendering a group's template and writing the result when its checksum changed. The state is
  the file system and the checksums of what was written last (the package variable
  prevFileChecksums). The template engine and SHA-256 are parameters.
\<close>

datatype p2f_error =
    MkdirFailed string os_error
  | OpenFailed string os_error
  | TemplateParse gerror
  | TemplateExecute gerror
  | WriteFailed os_error
  | UnknownFormat string
  | KeyTooLongYAML string
  | InvalidYAMLChar nat
  | KeyTooLongJSON string
  | InvalidJSONChar nat
  | InvalidProperty string
  | InvalidBashVar string
  | SecretCount nat nat
  | MissingAliases "string list"
  | MaskedTemplate string
  | BadSpec spec_error
  | CannotFormat string string p2f_error
  | CannotUseTemplate string p2f_error
  | AbsolutePath string string
  | OutsideBase string string
  | FilenameTooLong string string
  | TemplateRead string os_error
  | TemplateTwice string
  | TemplateRequired string
  | PermFormat string
  | PermOwner string
  | BadPermissions p2f_error
  | BadSpecs string gerror
  | DuplicatePath string "string list"
  | FetchFailed gerror

record p2f_state =
  p2f_fs :: fsys
  prevFileChecksums :: "(string, Checksum) gomap"

text \<open>The writers that are passed around: \<^verbatim>\<open>io.Discard\<close>, which takes every write, and an atomic writer.\<close>

datatype gwriter = Discard | Atomic atomicWriter

fun writer_Write :: "string \<Rightarrow> gwriter \<Rightarrow> fsys \<Rightarrow> (nat \<times> os_error option) \<times> gwriter \<times> fsys" where
  "writer_Write content Discard fs = ((length content, None), Discard, fs)"
| "writer_Write content (Atomic w) fs =
     (case Write content w fs of (r, w', fs') \<Rightarrow> (r, Atomic w', fs'))"

fun writer_Close :: "gwriter \<Rightarrow> p2f_state \<Rightarrow> gwriter \<times> p2f_state" where
  "writer_Close Discard st = (Discard, st)"
| "writer_Close (Atomic w) st =
     (case Close w (p2f_fs st) of (_, w', fs') \<Rightarrow> (Atomic w', st\<lparr>p2f_fs := fs'\<rparr>))"

definition openFileAsWriteCloser ::
  "string \<Rightarrow> nat \<Rightarrow> p2f_state \<Rightarrow> (p2f_error + gwriter) \<times> p2f_state" where
  "openFileAsWriteCloser path permissions st =
     (case os_mkdirAll (Dir path) (p2f_fs st) of
        (Some e, fs1) \<Rightarrow> (Inl (MkdirFailed path e), st\<lparr>p2f_fs := fs1\<rparr>)
      | (None, fs1) \<Rightarrow>
        (case os_openCreate path permissions fs1 of
           (Some e, fs2) \<Rightarrow> (Inl (OpenFailed path e), st\<lparr>p2f_fs := fs2\<rparr>)
         | (None, fs2) \<Rightarrow> (Inr (Atomic (newAtomicWriter path permissions)), st\<lparr>p2f_fs := fs2\<rparr>)))"

definition writeContent ::
  "(string \<Rightarrow> Checksum) \<Rightarrow> gwriter \<Rightarrow> string \<Rightarrow> string \<Rightarrow> p2f_state
     \<Rightarrow> (bool \<times> p2f_error option) \<times> gwriter \<times> p2f_state" where
  "writeContent sha256 writer fileContent groupName st =
     (if writer = Discard then
        (case writer_Write fileContent writer (p2f_fs st) of
           ((_, err), w', fs') \<Rightarrow> ((False, map_option WriteFailed err), w', st\<lparr>p2f_fs := fs'\<rparr>))
      else let checksum = FileChecksum sha256 fileContent in
        if \<not> ContentHasChanged groupName checksum (prevFileChecksums st) then ((False, None), writer, st)
        else case writer_Write fileContent writer (p2f_fs st) of
            ((_, Some e), w', fs') \<Rightarrow> ((False, Some (WriteFailed e)), w', st\<lparr>p2f_fs := fs'\<rparr>)
          | ((_, None), w', fs') \<Rightarrow>
              ((True, None), w',
               st\<lparr>p2f_fs := fs', prevFileChecksums := gput groupName checksum (prevFileChecksums st)\<rparr>))"

definition secrets_map :: "Secret list \<Rightarrow> (string, Secret) gomap" where
  "secrets_map groupSecrets = fold (\<lambda>s m. gput (s_Alias s) s m) groupSecrets []"

text \<open>What the template renders to, before anything is written.\<close>

definition render_group ::
  "'tpl engine \<Rightarrow> string \<Rightarrow> string \<Rightarrow> Secret list \<Rightarrow> p2f_error + string" where
  "render_group eng groupName groupTemplate groupSecrets =
     (let secretsMap = secrets_map groupSecrets in
      case parse eng (GetTemplate groupName secretsMap) groupTemplate of
        Inl e \<Rightarrow> Inl (TemplateParse e)
      | Inr tpl \<Rightarrow>
          (case RenderFile eng tpl \<lparr>SecretsArray = groupSecrets, SecretsMap = secretsMap\<rparr> of
             (_, Some e) \<Rightarrow> Inl (TemplateExecute e)
           | (fileContent, None) \<Rightarrow> Inr fileContent))"

definition pushToWriter ::
  "'tpl engine \<Rightarrow> (string \<Rightarrow> Checksum) \<Rightarrow> gwriter \<Rightarrow> string \<Rightarrow> string \<Rightarrow> Secret list \<Rightarrow> p2f_state
     \<Rightarrow> (bool \<times> p2f_error option) \<times> gwriter \<times> p2f_state" where
  "pushToWriter eng sha256 writer groupName groupTemplate groupSecrets st =
     (case render_group eng groupName groupTemplate groupSecrets of
        Inl e \<Rightarrow> ((False, Some e), writer, st)
      | Inr fileContent \<Rightarrow> writeContent sha256 writer fileContent groupName st)"

text \<open>
  Opening and reading a template file, which leaves the file system as it is; a reader is the
  name of the open file.
\<close>

definition openFileAsReadCloser :: "fsys \<Rightarrow> string \<Rightarrow> os_error + string" where
  "openFileAsReadCloser fs path =
     (case fault fs OpenFile of Some e \<Rightarrow> Inl e
      | None \<Rightarrow> if ghas (fs_files fs) path then Inr path else Inl NotExist)"

definition pullFromReader :: "fsys \<Rightarrow> string \<Rightarrow> os_error + string" where
  "pullFromReader fs reader =
     (case fault fs ReadFile of Some e \<Rightarrow> Inl e
      | None \<Rightarrow> Inr (case file_at fs reader of Some (c, _) \<Rightarrow> c | None \<Rightarrow> []))"

section \<open>Lemmas\<close>

lemma secrets_map_lookup:
  "map_of (secrets_map ss) a = map_of (rev (map (\<lambda>s. (s_Alias s, s)) ss)) a"
proof -
  have "map_of (fold (\<lambda>s m. gput (s_Alias s) s m) ss m) a
          = (map_of m ++ map_of (rev (map (\<lambda>s. (s_Alias s, s)) ss))) a" for m
    by (induction ss arbitrary: m) (auto simp: map_add_def split: option.splits)
  then show ?thesis by (simp add: secrets_map_def map_add_def split: option.splits)
qed

lemma writeContent_Discard:
  "writeContent sha256 Discard c g st = ((False, None), Discard, st)"
  by (simp add: writeContent_def)

end
