(* ===== verification/Standard_Templates.thy ===== *)
theory Standard_Templates
  imports Push_Writer
begin

text \<open>
  Package pushtofile, standard\_templates.go, standard\_templates\_definitions.go and
  standard\_templates\_validate.go: the built-in file formats and the aliases each accepts.
\<close>

section \<open>Template texts\<close>

definition text_lines :: "string list \<Rightarrow> string" where
  "text_lines ls = JoinSep ls [CHR 0x0A]"

definition newline_action :: string where
  "newline_action = ''{{- if $index }}{{ '' @ [CHR 0x22, CHR 0x5C] @ ''n'' @ [CHR 0x22] @ '' }}{{ end }}''"

definition quote_verb :: string where
  "quote_verb = ''printf '' @ [CHR 0x22] @ ''%q'' @ [CHR 0x22]"

definition jsonTemplate :: string where
  "jsonTemplate = text_lines
     [''{'',
      ''{{- range $index, $secret := .SecretsArray }}'',
      ''{{- if $index }},{{ end }}'',
      ''{{- '' @ quote_verb @ '' $secret.Alias }}:{{ '' @ quote_verb @ '' $secret.Value }}'',
      ''{{- end -}}'',
      ''}'']"

definition yamlTemplate :: string where
  "yamlTemplate = text_lines
     [[],
      ''{{- range $index, $secret := .SecretsArray }}'',
      newline_action,
      ''{{- '' @ quote_verb @ '' $secret.Alias }}: {{ '' @ quote_verb @ '' $secret.Value -}}'',
      ''{{- end -}}'',
      []]"

definition dotenvTemplate :: string where
  "dotenvTemplate = text_lines
     [[],
      ''{{- range $index, $secret := .SecretsArray -}}'',
      newline_action,
      ''{{- $secret.Alias }}={{ '' @ quote_verb @ '' $secret.Value }}'',
      ''{{- end -}}'',
      []]"

definition bashTemplate :: string where
  "bashTemplate = text_lines
     [[],
      ''{{- range $index, $secret := .SecretsArray -}}'',
      newline_action,
      ''{{- '' @ [CHR 0x22, CHR 0x22] @ ''}}export {{ $secret.Alias }}={{ '' @ quote_verb @ '' $secret.Value }}'',
      ''{{- end -}}'',
      []]"

section \<open>Alias validation\<close>

definition maxYAMLKeyLen :: nat where "maxYAMLKeyLen = 1024"
definition maxJSONKeyLen :: nat where "maxJSONKeyLen = 2097152"

definition isValidYAMLChar :: "nat \<Rightarrow> bool" where
  "isValidYAMLChar c \<longleftrightarrow>
     (if c = 0x0009 then True else if c = 0x000A then True else if c = 0x000D then True
      else if c \<ge> 0x0020 \<and> c \<le> 0x007E then True
      else if c = 0x0085 then True
      else if c \<ge> 0x00A0 \<and> c \<le> 0xD7FF then True
      else if c \<ge> 0xE000 \<and> c \<le> 0xFFFD then True
      else if c \<ge> 0x10000 \<and> c \<le> 0x10FFFF then True
      else False)"

definition isValidJSONChar :: "nat \<Rightarrow> bool" where
  "isValidJSONChar c \<longleftrightarrow>
     (if c \<ge> 0 \<and> c \<le> 0x001F then False else if c = 0x007F then False
      else if c = 0x22 then False else if c = 0x5C then False else True)"

fun first_invalid :: "(nat \<Rightarrow> bool) \<Rightarrow> nat list \<Rightarrow> nat option" where
  "first_invalid ok [] = None"
| "first_invalid ok (c # cs) = (if \<not> ok c then Some c else first_invalid ok cs)"

definition validateYAMLKey :: "string \<Rightarrow> p2f_error option" where
  "validateYAMLKey key =
     (if length key > maxYAMLKeyLen then Some (KeyTooLongYAML key)
      else map_option InvalidYAMLChar (first_invalid isValidYAMLChar (runes key)))"

definition validateJSONKey :: "string \<Rightarrow> p2f_error option" where
  "validateJSONKey key =
     (if length key > maxJSONKeyLen then Some (KeyTooLongJSON key)
      else map_option InvalidJSONChar (first_invalid isValidJSONChar (runes key)))"

text \<open>The character classes of the two regular expressions.\<close>

definition in_range :: "char \<Rightarrow> char \<Rightarrow> char \<Rightarrow> bool" where
  "in_range lo hi c \<longleftrightarrow> of_char lo \<le> (of_char c :: nat) \<and> (of_char c :: nat) \<le> of_char hi"

definition var_start :: "char \<Rightarrow> bool" where
  "var_start c \<longleftrightarrow> in_range (CHR ''a'') (CHR ''z'') c \<or> in_range (CHR ''A'') (CHR ''Z'') c \<or> c = CHR ''_''"

definition var_char :: "char \<Rightarrow> bool" where
  "var_char c \<longleftrightarrow> var_start c \<or> in_range (CHR ''0'') (CHR ''9'') c"

fun match_ident :: "(char \<Rightarrow> bool) \<Rightarrow> (char \<Rightarrow> bool) \<Rightarrow> string \<Rightarrow> bool" where
  "match_ident st ch [] = False"
| "match_ident st ch (c # cs) \<longleftrightarrow> st c \<and> list_all ch cs"

definition validatePropertyVarName :: "string \<Rightarrow> p2f_error option" where
  "validatePropertyVarName name =
     (if \<not> match_ident var_start (\<lambda>c. var_char c \<or> c = CHR ''.'') name then Some (InvalidProperty name) else None)"

definition validateBashVarName :: "string \<Rightarrow> p2f_error option" where
  "validateBashVarName name =
     (if \<not> match_ident var_start var_char name then Some (InvalidBashVar name) else None)"

section \<open>Standard templates\<close>

record standardTemplate =
  st_template :: string
  st_fileFormat :: string
  st_validateAlias :: "(string \<Rightarrow> p2f_error option) option"

definition ValidateAlias :: "standardTemplate \<Rightarrow> string \<Rightarrow> p2f_error option" where
  "ValidateAlias s alias = (case st_validateAlias s of None \<Rightarrow> None | Some v \<Rightarrow> v alias)"

definition standardTemplates :: "(string, standardTemplate) gomap" where
  "standardTemplates =
     [(''yaml'', \<lparr>st_template = yamlTemplate, st_fileFormat = [], st_validateAlias = Some validateYAMLKey\<rparr>),
      (''json'', \<lparr>st_template = jsonTemplate, st_fileFormat = [], st_validateAlias = Some validateJSONKey\<rparr>),
      (''dotenv'', \<lparr>st_template = dotenvTemplate, st_fileFormat = [], st_validateAlias = Some validateBashVarName\<rparr>),
      (''properties'', \<lparr>st_template = dotenvTemplate, st_fileFormat = [], st_validateAlias = Some validatePropertyVarName\<rparr>),
      (''bash'', \<lparr>st_template = bashTemplate, st_fileFormat = [], st_validateAlias = Some validateBashVarName\<rparr>)]"

fun check_aliases :: "standardTemplate \<Rightarrow> SecretSpec list \<Rightarrow> p2f_error option" where
  "check_aliases tpl [] = None"
| "check_aliases tpl (s # ss) =
     (case ValidateAlias tpl (Alias s) of Some e \<Rightarrow> Some e | None \<Rightarrow> check_aliases tpl ss)"

definition FileTemplateForFormat :: "string \<Rightarrow> SecretSpec list \<Rightarrow> p2f_error + string" where
  "FileTemplateForFormat fileFormat secretSpecs =
     (case map_of standardTemplates fileFormat of
        None \<Rightarrow> Inl (UnknownFormat fileFormat)
      | Some stdTemplate \<Rightarrow>
          (case check_aliases stdTemplate secretSpecs of
             Some e \<Rightarrow> Inl e | None \<Rightarrow> Inr (st_template stdTemplate)))"

section \<open>Lemmas\<close>

lemma first_invalid_None_iff: "first_invalid ok cs = None \<longleftrightarrow> list_all ok cs"
  by (induction cs) auto

lemma check_aliases_None_iff:
  "check_aliases tpl ss = None \<longleftrightarrow> (\<forall>s\<in>set ss. ValidateAlias tpl (Alias s) = None)"
  by (induction ss) (auto split: option.splits)

lemma FileTemplateForFormat_Inr_iff:
  "FileTemplateForFormat fmt specs = Inr t \<longleftrightarrow>
     (\<exists>s. map_of standardTemplates fmt = Some s \<and> st_template s = t
        \<and> (\<forall>sp\<in>set specs. ValidateAlias s (Alias sp) = None))"
  by (auto simp: FileTemplateForFormat_def check_aliases_None_iff [symmetric] split: option.splits)

lemma var_char_ascii: "var_char c \<Longrightarrow> 0x20 < (of_char c :: nat) \<and> of_char c < (0x7F :: nat)"
  by (auto simp: var_char_def var_start_def in_range_def)

lemma var_char_not: "var_char c \<Longrightarrow> of_char c \<noteq> (0x22 :: nat) \<and> of_char c \<noteq> (0x5C :: nat)"
  by (auto simp: var_char_def var_start_def in_range_def)

lemma var_char_valid: "var_char c \<Longrightarrow> isValidYAMLChar (of_char c) \<and> isValidJSONChar (of_char c)"
  using var_char_ascii [of c] var_char_not [of c] by (simp add: isValidYAMLChar_def isValidJSONChar_def)

section \<open>Properties\<close>

text \<open>
  The alias checks are ordered by strictness: a name that a shell variable may have is
  also a property name, and a property name is a valid YAML and JSON key when it is at most
  1024 bytes long; so a group that is accepted for dotenv or bash is accepted for every
  other format.
\<close>

lemma bash_aliases_fit_all_formats:
  assumes "FileTemplateForFormat ''bash'' specs = Inr t" and "\<forall>s\<in>set specs. length (Alias s) \<le> 1024"
    and "fmt \<in> {''yaml'', ''json'', ''dotenv'', ''properties'', ''bash''}"
  shows "\<exists>t'. FileTemplateForFormat fmt specs = Inr t'"
proof -
  have bash: "match_ident var_start var_char (Alias s)" if "s \<in> set specs" for s
    using assms(1) that
    by (auto simp: FileTemplateForFormat_Inr_iff standardTemplates_def ValidateAlias_def
        validateBashVarName_def split: if_splits)
  have vc: "list_all var_char (Alias s)" if "s \<in> set specs" for s
    using bash [OF that] by (cases "Alias s") (auto simp: var_char_def)
  have rn: "runes (Alias s) = map of_char (Alias s)" if "s \<in> set specs" for s
    by (rule runes_ascii) (use vc [OF that] var_char_ascii in \<open>fastforce simp: list_all_iff\<close>)
  have len: "length (Alias s) \<le> 1024" if "s \<in> set specs" for s
    using assms(2) that by blast
  have yaml: "validateYAMLKey (Alias s) = None" if "s \<in> set specs" for s
  proof -
    have "list_all isValidYAMLChar (map of_char (Alias s))"
      using vc [OF that] var_char_valid by (auto simp: list_all_iff)
    then show ?thesis
      using len [OF that] rn [OF that]
      by (simp add: validateYAMLKey_def maxYAMLKeyLen_def first_invalid_None_iff)
  qed
  have json: "validateJSONKey (Alias s) = None" if "s \<in> set specs" for s
  proof -
    have "list_all isValidJSONChar (map of_char (Alias s))"
      using vc [OF that] var_char_valid by (auto simp: list_all_iff)
    then show ?thesis
      using len [OF that] rn [OF that]
      by (simp add: validateJSONKey_def maxJSONKeyLen_def first_invalid_None_iff)
  qed
  have prty: "validatePropertyVarName (Alias s) = None" if "s \<in> set specs" for s
    using bash [OF that] by (cases "Alias s") (auto simp: validatePropertyVarName_def list_all_iff)
  show ?thesis
    using assms(3) bash yaml json prty
    by (auto simp: FileTemplateForFormat_Inr_iff standardTemplates_def ValidateAlias_def validateBashVarName_def)
qed

end
