(* ===== verification/Secret_Group.thy ===== *)
theory Secret_Group
  imports Standard_Templates
begin

text \<open>
  Package pushtofile, secret\_group.go: secret groups built from the Pod annotations, with the
  validation of their paths, permissions, templates and formats, and the push of one group to
  its file. Annotations are a map from keys to values whose list order is the order in which
  Go visits it. The YAML library, the template engine and SHA-256 are parameters, as are the
  two reader functions of the Config record.
\<close>

section \<open>Data\<close>

abbreviation "secretGroupPolicyPathPrefix \<equiv> ''conjur.org/conjur-secrets-policy-path.''"
abbreviation "secretGroupFilePathPrefix \<equiv> ''conjur.org/secret-file-path.''"
abbreviation "secretGroupFileFormatPrefix \<equiv> ''conjur.org/secret-file-format.''"
abbreviation "secretGroupFilePermissionsPrefix \<equiv> ''conjur.org/secret-file-permissions.''"

definition defaultFilePermissions :: nat where "defaultFilePermissions = 420"
definition maxFilenameLen :: nat where "maxFilenameLen = 255"

record p2f_Config =
  secretsBasePath :: string
  templatesBasePath :: string
  openReadCloser :: "string \<Rightarrow> os_error + string"
  pullReader :: "string \<Rightarrow> os_error + string"

record SecretGroup =
  Name :: string
  FilePath :: string
  FileTemplate :: string
  FileFormat :: string
  PolicyPathPrefix :: string
  FilePermissions :: nat
  SecretSpecs :: "SecretSpec list"

type_synonym annotations = "(string, string) gomap"

section \<open>Pushing a group to its file\<close>

definition resolvedSecretSpecs :: "string \<Rightarrow> SecretSpec list \<Rightarrow> SecretSpec list" where
  "resolvedSecretSpecs policyPathPrefix secretSpecs =
     (if length policyPathPrefix \<noteq> 0
      then map (\<lambda>s. s\<lparr>Path := TrimSuffix policyPathPrefix ''/'' @ ''/'' @ TrimPrefix (Path s) ''/''\<rparr>) secretSpecs
      else secretSpecs)"

definition validateSecretsAgainstSpecs :: "Secret list \<Rightarrow> SecretSpec list \<Rightarrow> p2f_error option" where
  "validateSecretsAgainstSpecs secrets specs =
     (if (case specs of [s] \<Rightarrow> Path s = ''*'' | _ \<Rightarrow> False) then None
      else if length secrets \<noteq> length specs then Some (SecretCount (length secrets) (length specs))
      else let aliasInSecrets = fold (\<lambda>s m. gput (s_Alias s) () m) secrets [];
               missingAliases = sort (filter (\<lambda>a. \<not> ghas aliasInSecrets a) (map Alias specs))
           in if length missingAliases > 0 then Some (MissingAliases missingAliases) else None)"

definition maybeFileTemplateFromFormat :: "string \<Rightarrow> string \<Rightarrow> SecretSpec list \<Rightarrow> p2f_error + string" where
  "maybeFileTemplateFromFormat fileTemplate fileFormat secretSpecs =
     (let fileFormat = (if length fileTemplate + length fileFormat = 0 then ''yaml'' else fileFormat)
      in if length fileTemplate = 0 then FileTemplateForFormat fileFormat secretSpecs
         else Inr fileTemplate)"

text \<open>
  The dependencies are the opener and the pusher; the writer is closed on every path once it
  is open, its error ignored. A panic of the pusher, like an error, is masked.
\<close>

type_synonym open_write_closer = "string \<Rightarrow> nat \<Rightarrow> p2f_state \<Rightarrow> (p2f_error + gwriter) \<times> p2f_state"
type_synonym push_to_writer =
  "gwriter \<Rightarrow> string \<Rightarrow> string \<Rightarrow> Secret list \<Rightarrow> p2f_state \<Rightarrow> (bool \<times> p2f_error option) outcome \<times> gwriter \<times> p2f_state"

definition pushToFileWithDeps ::
  "open_write_closer \<Rightarrow> push_to_writer \<Rightarrow> SecretGroup \<Rightarrow> Secret list \<Rightarrow> p2f_state
     \<Rightarrow> (bool \<times> p2f_error option) \<times> p2f_state" where
  "pushToFileWithDeps depOpenWriteCloser depPushToWriter sg secrets st =
     (case validateSecretsAgainstSpecs secrets (SecretSpecs sg) of
        Some e \<Rightarrow> ((False, Some e), st)
      | None \<Rightarrow>
        (case maybeFileTemplateFromFormat (FileTemplate sg) (FileFormat sg) (SecretSpecs sg) of
           Inl e \<Rightarrow> ((False, Some e), st)
         | Inr fileTemplate \<Rightarrow>
           (case depOpenWriteCloser (FilePath sg) (FilePermissions sg) st of
              (Inl e, st1) \<Rightarrow> ((False, Some e), st1)
            | (Inr wc, st1) \<Rightarrow>
              (case depPushToWriter wc (Name sg) fileTemplate secrets st1 of
                 (res, wc1, st2) \<Rightarrow>
                   (case res of
                      Panic \<Rightarrow> (False, Some (MaskedTemplate (Name sg)))
                    | Ret (updated, err) \<Rightarrow>
                        (updated, if err \<noteq> None then Some (MaskedTemplate (Name sg)) else None),
                    snd (writer_Close wc1 st2))))))"

definition pushToWriter_dep :: "'tpl engine \<Rightarrow> (string \<Rightarrow> Checksum) \<Rightarrow> push_to_writer" where
  "pushToWriter_dep eng sha256 wc groupName tpl secrets st =
     (case pushToWriter eng sha256 wc groupName tpl secrets st of (r, wc', st') \<Rightarrow> (Ret r, wc', st'))"

definition PushToFile ::
  "'tpl engine \<Rightarrow> (string \<Rightarrow> Checksum) \<Rightarrow> SecretGroup \<Rightarrow> Secret list \<Rightarrow> p2f_state
     \<Rightarrow> (bool \<times> p2f_error option) \<times> p2f_state" where
  "PushToFile eng sha256 = pushToFileWithDeps openFileAsWriteCloser (pushToWriter_dep eng sha256)"

section \<open>Validating and building groups\<close>

definition absoluteFilePath :: "SecretGroup \<Rightarrow> string \<Rightarrow> p2f_error + string" where
  "absoluteFilePath sg secretsBase =
     (let groupName = Name sg; filePath = FilePath sg in
      if IsAbs filePath then Inl (AbsolutePath filePath groupName)
      else let pathContainsFilename = (\<not> HasSuffix filePath ''/'' \<and> length filePath > 0);
               fileExt = (if \<not> pathContainsFilename \<and> length (FileTemplate sg) > 0 then ''out'' else FileFormat sg);
               filePath1 = (if \<not> pathContainsFilename then Join [filePath, groupName @ ''.'' @ fileExt] else filePath);
               absolute = Join [secretsBase, filePath1]
           in if \<not> HasPrefix absolute secretsBase then Inl (OutsideBase filePath1 groupName)
              else let filename = snd (SplitPath absolute) in
                if length filename > maxFilenameLen then Inl (FilenameTooLong filename groupName)
                else Inr absolute)"

definition dummySecrets :: "SecretSpec list \<Rightarrow> Secret list" where
  "dummySecrets secretSpecs = map (\<lambda>s. \<lparr>s_Alias = Alias s, s_Value = ''REDACTED''\<rparr>) secretSpecs"

definition validate ::
  "'tpl engine \<Rightarrow> (string \<Rightarrow> Checksum) \<Rightarrow> p2f_state \<Rightarrow> SecretGroup \<Rightarrow> p2f_error list" where
  "validate eng sha256 st sg =
     (let errors = fst (ValidateSecretPathsAndContents (SecretSpecs sg) (Name sg)) in
      if length errors > 0 then map BadSpec errors
      else case (if length (FileFormat sg) > 0 \<and> FileFormat sg \<noteq> ''template''
                 then FileTemplateForFormat (FileFormat sg) (SecretSpecs sg) else Inr []) of
        Inl e \<Rightarrow> [CannotFormat (Name sg) (FileFormat sg) e]
      | Inr _ \<Rightarrow>
          if length (FileTemplate sg) > 0 then
            (case pushToWriter eng sha256 Discard (Name sg) (FileTemplate sg) (dummySecrets (SecretSpecs sg)) st of
               ((_, Some e), _) \<Rightarrow> [CannotUseTemplate (Name sg) e]
             | ((_, None), _) \<Rightarrow> [])
          else [])"

definition readTemplateFromFile :: "string \<Rightarrow> annotations \<Rightarrow> p2f_Config \<Rightarrow> os_error + string" where
  "readTemplateFromFile groupName annots c =
     (case openReadCloser c (Join [templatesBasePath c, groupName @ ''.tpl'']) of
        Inl e \<Rightarrow> Inl e
      | Inr rc \<Rightarrow> pullReader c rc)"

definition collectTemplate :: "string \<Rightarrow> annotations \<Rightarrow> p2f_Config \<Rightarrow> p2f_error + string" where
  "collectTemplate groupName annots c =
     (let annotationTemplate = gget [] annots (SecretGroupFileTemplatePrefix @ groupName) in
      case readTemplateFromFile groupName annots c of
        Inl e \<Rightarrow> if IsNotExist e then Inr annotationTemplate else Inl (TemplateRead groupName e)
      | Inr configmapTemplate \<Rightarrow>
          if length annotationTemplate > 0 \<and> length configmapTemplate > 0 then Inl (TemplateTwice groupName)
          else if length annotationTemplate + length configmapTemplate = 0 then Inl (TemplateRequired groupName)
          else Inr configmapTemplate)"

definition perm_validChars :: string where "perm_validChars = ''rwx''"
definition perm_multipliers :: "nat list" where "perm_multipliers = [64, 8, 1]"
definition perm_bitValues :: "nat list" where "perm_bitValues = [4, 2, 1]"

text \<open>The two nested loops over groups and bits; the index runs over the nine characters.\<close>

fun perm_bits :: "string \<Rightarrow> nat \<Rightarrow> nat \<Rightarrow> nat option" where
  "perm_bits [] idx result = Some result"
| "perm_bits (c # cs) idx result =
     (if c = perm_validChars ! (idx mod 3)
      then perm_bits cs (Suc idx) (result + perm_bitValues ! (idx mod 3) * perm_multipliers ! (idx div 3))
      else if c = CHR ''-'' then perm_bits cs (Suc idx) result
      else None)"

definition permStrToFileMode :: "string \<Rightarrow> p2f_error + nat" where
  "permStrToFileMode perms =
     (if perms = [] then Inr defaultFilePermissions
      else case (if length perms = 9 then Some perms
                 else if length perms = 10 then (if hd perms \<noteq> CHR ''-'' then None else Some (tl perms))
                 else None) of
        None \<Rightarrow> Inl (PermFormat perms)
      | Some perms1 \<Rightarrow>
          if perms1 ! 0 \<noteq> CHR ''r'' \<or> perms1 ! 1 \<noteq> CHR ''w'' then Inl (PermOwner perms1)
          else case perm_bits perms1 0 0 of None \<Rightarrow> Inl (PermFormat perms) | Some m \<Rightarrow> Inr m)"

text \<open>Group names by file path; a path with several names is an error.\<close>

definition group_paths :: "SecretGroup list \<Rightarrow> (string, string list) gomap" where
  "group_paths sgs = fold (\<lambda>sg m.
     if length (gget [] m (FilePath sg)) = 0 then gput (FilePath sg) [Name sg] m
     else gput (FilePath sg) (gget [] m (FilePath sg) @ [Name sg]) m) sgs []"

definition validateGroupFilePaths :: "range_order \<Rightarrow> SecretGroup list \<Rightarrow> p2f_error list" where
  "validateGroupFilePaths rt sgs =
     fold (\<lambda>(path, groupNames) errors.
       if length groupNames > 1 then errors @ [DuplicatePath path groupNames] else errors)
       (grange rt 0 (group_paths sgs)) []"

definition newSecretGroup ::
  "yaml_list \<Rightarrow> 'tpl engine \<Rightarrow> (string \<Rightarrow> Checksum) \<Rightarrow> p2f_state \<Rightarrow> string \<Rightarrow> annotations \<Rightarrow> p2f_Config
     \<Rightarrow> p2f_error list + SecretGroup" where
  "newSecretGroup yaml eng sha256 st groupName annots c =
     (let groupSecrets = gget [] annots (SecretGroupPrefix @ groupName);
          filePath = gget [] annots (secretGroupFilePathPrefix @ groupName);
          fileFormat = gget [] annots (secretGroupFileFormatPrefix @ groupName);
          policyPathPrefix = TrimPrefix (gget [] annots (secretGroupPolicyPathPrefix @ groupName)) ''/'';
          filePermissions = gget [] annots (secretGroupFilePermissionsPrefix @ groupName)
      in case (if fileFormat = ''template'' then collectTemplate groupName annots c else Inr []) of
           Inl e \<Rightarrow> Inl [e]
         | Inr fileTemplate \<Rightarrow>
           (let fileFormat = (if length fileFormat = 0 then ''yaml'' else fileFormat) in
            case permStrToFileMode filePermissions of
              Inl e \<Rightarrow> Inl [BadPermissions e]
            | Inr fileMode \<Rightarrow>
              (case NewSecretSpecs yaml groupSecrets of
                 Inl e \<Rightarrow> Inl [BadSpecs (SecretGroupPrefix @ groupName) e]
               | Inr specs \<Rightarrow>
                 (let sg = \<lparr>Name = groupName, FilePath = filePath, FileTemplate = fileTemplate,
                            FileFormat = fileFormat, PolicyPathPrefix = policyPathPrefix,
                            FilePermissions = fileMode,
                            SecretSpecs = resolvedSecretSpecs policyPathPrefix specs\<rparr>;
                      errors = validate eng sha256 st sg
                  in if length errors > 0 then Inl errors
                     else case absoluteFilePath sg (secretsBasePath c) of
                            Inl e \<Rightarrow> Inl [e]
                          | Inr p \<Rightarrow> Inr (sg\<lparr>FilePath := p\<rparr>)))))"

text \<open>The loop over the annotations: groups and errors are collected in the order of the visit.\<close>

definition collect_groups ::
  "(string \<Rightarrow> p2f_error list + SecretGroup) \<Rightarrow> string list \<Rightarrow> SecretGroup list \<times> p2f_error list" where
  "collect_groups mk keys = fold (\<lambda>key (sgs, errors).
     if HasPrefix key SecretGroupPrefix then
       (case mk (TrimPrefix key SecretGroupPrefix) of
          Inl errs \<Rightarrow> (sgs, errors @ errs)
        | Inr sg \<Rightarrow> (sgs @ [sg], errors))
     else (sgs, errors)) keys ([], [])"

definition newSecretGroupsWithDeps ::
  "range_order \<Rightarrow> yaml_list \<Rightarrow> 'tpl engine \<Rightarrow> (string \<Rightarrow> Checksum) \<Rightarrow> p2f_state \<Rightarrow> annotations \<Rightarrow> p2f_Config
     \<Rightarrow> p2f_error list + SecretGroup list" where
  "newSecretGroupsWithDeps rt yaml eng sha256 st annots c =
     (case collect_groups (\<lambda>g. newSecretGroup yaml eng sha256 st g annots c) (gkeys annots) of
        (sgs, errors) \<Rightarrow>
          (let errors = errors @ validateGroupFilePaths rt sgs in
           if length errors > 0 then Inl errors else Inr (sort_key Name sgs)))"

definition NewSecretGroups ::
  "range_order \<Rightarrow> yaml_list \<Rightarrow> 'tpl engine \<Rightarrow> (string \<Rightarrow> Checksum) \<Rightarrow> p2f_state \<Rightarrow> string \<Rightarrow> string \<Rightarrow> annotations
     \<Rightarrow> p2f_error list + SecretGroup list" where
  "NewSecretGroups rt yaml eng sha256 st secretsBase templatesBase annots =
     newSecretGroupsWithDeps rt yaml eng sha256 st annots
       \<lparr>secretsBasePath = secretsBase, templatesBasePath = templatesBase,
        openReadCloser = openFileAsReadCloser (p2f_fs st), pullReader = pullFromReader (p2f_fs st)\<rparr>"

section \<open>Permission strings\<close>

text \<open>The nine characters of a permission set, as Go prints it (without the leading dash).\<close>

fun mode_chars :: "nat \<Rightarrow> nat \<Rightarrow> string" where
  "mode_chars 0 m = []"
| "mode_chars (Suc n) m =
     (if m div 2 ^ n = 1 then perm_validChars ! ((8 - n) mod 3) else CHR ''-'') # mode_chars n (m mod 2 ^ n)"

definition modeString :: "nat \<Rightarrow> string" where
  "modeString m = mode_chars 9 m"

lemma length_mode_chars [simp]: "length (mode_chars n m) = n"
  by (induction n arbitrary: m) auto

lemma perm_weight:
  assumes "idx \<le> 8"
  shows "perm_bitValues ! (idx mod 3) * perm_multipliers ! (idx div 3) = 2 ^ (8 - idx)"
    and "perm_validChars ! (idx mod 3) \<noteq> CHR ''-''"
proof -
  have "idx \<in> {0, 1, 2, 3, 4, 5, 6, 7, 8}" using assms by auto
  then show "perm_bitValues ! (idx mod 3) * perm_multipliers ! (idx div 3) = 2 ^ (8 - idx)"
    and "perm_validChars ! (idx mod 3) \<noteq> CHR ''-''"
    by (auto simp: perm_bitValues_def perm_multipliers_def perm_validChars_def)
qed

lemma ex_less_double: "(\<exists>k < 2 * n. P k) \<longleftrightarrow> (\<exists>k < n. P k) \<or> (\<exists>k < n. P (n + k :: nat))"
proof
  assume "\<exists>k < 2 * n. P k"
  then obtain k where k: "k < 2 * n" "P k" by blast
  show "(\<exists>k < n. P k) \<or> (\<exists>k < n. P (n + k))"
  proof (cases "k < n")
    case False
    then have "k - n < n" "n + (k - n) = k" using k(1) by auto
    then show ?thesis using k(2) by metis
  qed (use k in blast)
next
  assume "(\<exists>k < n. P k) \<or> (\<exists>k < n. P (n + k))"
  then obtain k where "k < 2 * n \<and> P k"
    by (metis add_less_cancel_left mult_2 trans_less_add1)
  then show "\<exists>k < 2 * n. P k" by blast
qed

lemma div_eq_1_iff: "m < 2 * n \<Longrightarrow> m div n = 1 \<longleftrightarrow> n \<le> (m :: nat)"
  by (cases "m < n") (auto simp: le_div_geq)

lemma perm_bits_iff:
  assumes "idx + length cs = 9"
  shows "perm_bits cs idx r = Some m \<longleftrightarrow> (\<exists>k < 2 ^ length cs. m = r + k \<and> cs = mode_chars (length cs) k)"
  using assms
proof (induction cs arbitrary: idx r)
  case (Cons c cs)
  let ?n = "length cs"
  let ?ch = "perm_validChars ! (idx mod 3)"
  have idx: "idx \<le> 8" "8 - idx = ?n" "8 - ?n = idx" using Cons.prems by auto
  note w = perm_weight [OF idx(1)]
  have ih: "perm_bits cs (Suc idx) r' = Some m \<longleftrightarrow> (\<exists>k < 2 ^ ?n. m = r' + k \<and> cs = mode_chars ?n k)" for r'
    using Cons.IH [of "Suc idx" r'] Cons.prems by simp
  note split = ex_less_double [of "2 ^ ?n"]
  have lo: "mode_chars (Suc ?n) k = CHR ''-'' # mode_chars ?n k" if "k < 2 ^ ?n" for k
    using that by simp
  have hi: "mode_chars (Suc ?n) (2 ^ ?n + k) = ?ch # mode_chars ?n k" if "k < 2 ^ ?n" for k
    using that div_eq_1_iff [of "2 ^ ?n + k" "2 ^ ?n"] by (simp add: idx)
  show ?case
    unfolding length_Cons power_Suc split
    using w by (auto simp: ih idx lo hi simp del: mode_chars.simps)
qed auto

lemma mode_owner:
  assumes "m < 512"
  shows "modeString m ! 0 = CHR ''r'' \<and> modeString m ! 1 = CHR ''w'' \<longleftrightarrow> 384 \<le> m"
proof -
  have s: "modeString m = (if m div 256 = 1 then CHR ''r'' else CHR ''-'')
      # (if m mod 256 div 128 = 1 then CHR ''w'' else CHR ''-'') # mode_chars 7 (m mod 256 mod 128)"
    using mode_chars.simps(2) [of 8 m] mode_chars.simps(2) [of 7 "m mod 256"]
    by (simp add: modeString_def perm_validChars_def)
  have "m div 256 = 1 \<longleftrightarrow> 256 \<le> m" using assms by (intro div_eq_1_iff) simp
  moreover have "m mod 256 div 128 = 1 \<longleftrightarrow> 128 \<le> m mod 256" by (intro div_eq_1_iff) simp
  moreover have "256 \<le> m \<Longrightarrow> m mod 256 = m - 256" using assms by (simp add: mod_if)
  ultimately show ?thesis
    unfolding s using assms by auto
qed

lemma permission_iff:
  assumes "perms \<noteq> []"
  shows "permStrToFileMode perms = Inr m \<longleftrightarrow>
     384 \<le> m \<and> m < 512 \<and> (perms = modeString m \<or> perms = CHR ''-'' # modeString m)"
proof -
  let ?core = "\<lambda>p. if p ! 0 \<noteq> CHR ''r'' \<or> p ! 1 \<noteq> CHR ''w'' then Inl (PermOwner p)
     else case perm_bits p 0 0 of None \<Rightarrow> Inl (PermFormat perms) | Some m \<Rightarrow> Inr m"
  have core: "?core p = Inr m \<longleftrightarrow> 384 \<le> m \<and> m < 512 \<and> p = modeString m" if "length p = 9" for p
    using perm_bits_iff [of 0 p 0 m] that mode_owner [of m] by (auto simp: modeString_def split: option.splits)
  have len: "length (modeString m) = 9" by (simp add: modeString_def)
  consider "length perms = 9" | c p where "perms = c # p" "length p = 9" | "length perms \<notin> {9, 10}"
    by (cases perms) auto
  then show ?thesis
  proof cases
    case 1
    then show ?thesis using assms core [of perms] len by (auto simp: permStrToFileMode_def)
  next
    case 2
    moreover have "c # p \<noteq> modeString m" using 2(2) len by (metis length_Cons n_not_Suc_n)
    ultimately show ?thesis using core [of p] by (auto simp: permStrToFileMode_def)
  next
    case 3
    then show ?thesis using assms len by (auto simp: permStrToFileMode_def)
  qed
qed

section \<open>File paths\<close>

abbreviation "known_formats \<equiv> {''yaml'', ''json'', ''dotenv'', ''properties'', ''bash'', ''template''}"

definition has_filename :: "string \<Rightarrow> bool" where
  "has_filename p \<longleftrightarrow> \<not> HasSuffix p ''/'' \<and> length p > 0"

definition default_filename :: "SecretGroup \<Rightarrow> string" where
  "default_filename sg = Name sg @ ''.'' @ (if length (FileTemplate sg) > 0 then ''out'' else FileFormat sg)"

text \<open>The path elements of a group's file below the base directory.\<close>

definition group_elems :: "SecretGroup \<Rightarrow> string list" where
  "group_elems sg = path_elems (FilePath sg) @ (if has_filename (FilePath sg) then [] else [default_filename sg])"

lemma default_filename_proper:
  assumes "CHR ''/'' \<notin> set (Name sg)" and "FileFormat sg \<in> known_formats"
  shows "proper_elem (default_filename sg)"
proof -
  let ?ext = "if length (FileTemplate sg) > 0 then ''out'' else FileFormat sg"
  have e: "?ext \<noteq> []" "last ?ext \<noteq> CHR ''.''" "CHR ''/'' \<notin> set ?ext" using assms(2) by auto
  then have "last (default_filename sg) \<noteq> CHR ''.''" by (simp add: default_filename_def)
  moreover have "last ''..'' = CHR ''.''" "last ''.'' = CHR ''.''" by simp_all
  ultimately have "default_filename sg \<noteq> ''..''" "default_filename sg \<noteq> ''.''" by metis+
  then show ?thesis using e assms(1) by (auto simp: proper_elem_def default_filename_def)
qed

lemma effective_path:
  assumes "\<not> IsAbs (FilePath sg)" and "''..'' \<notin> set (Split (FilePath sg) CHR ''/'')"
    and "proper_elem (default_filename sg)" and "\<not> has_filename (FilePath sg)"
  shows "Join [FilePath sg, default_filename sg] = JoinSep (group_elems sg) ''/''"
proof -
  let ?f = "default_filename sg"
  have sp: "Split ?f CHR ''/'' = [?f]" and ne: "?f \<noteq> []"
    using assms(3) by (auto simp: proper_elem_def Split_self)
  have pe: "path_elems ?f = [?f]" using assms(3) sp by (simp add: path_elems_def proper_elem_def)
  have pa: "\<not> HasPrefix ?f ''/''" using assms(3) by (cases ?f) (auto simp: proper_elem_def HasPrefix_def)
  show ?thesis
  proof (cases "FilePath sg = []")
    case True
    then have ge: "group_elems sg = [?f]" by (simp add: group_elems_def has_filename_def path_elems_def)
    have "''..'' \<notin> set (Split ?f CHR ''/'')" using sp assms(3) by (auto simp: proper_elem_def)
    then have "Clean ?f = ?f" using Clean_relative [OF pa] pe by simp
    then show ?thesis using True ge ne by (simp add: Join_def)
  next
    case False
    let ?p = "FilePath sg @ CHR ''/'' # ?f"
    have spl: "Split ?p CHR ''/'' = Split (FilePath sg) CHR ''/'' @ [?f]" using sp by (simp add: Split_append)
    have pel: "path_elems ?p = path_elems (FilePath sg) @ [?f]"
      using spl pe sp by (simp add: path_elems_def)
    have rel: "\<not> HasPrefix ?p ''/''" using assms(1) False by (cases "FilePath sg") (auto simp: IsAbs_def HasPrefix_def)
    have "''..'' \<notin> set (Split ?p CHR ''/'')" using spl assms(2,3) by (auto simp: proper_elem_def)
    then have "Clean ?p = JoinSep (path_elems ?p) ''/''" using Clean_relative [OF rel] pel by simp
    then show ?thesis using False ne assms(4) pel by (simp add: Join_def group_elems_def)
  qed
qed

lemma group_elems_proper:
  assumes "''..'' \<notin> set (Split (FilePath sg) CHR ''/'')" and "proper_elem (default_filename sg)"
  shows "list_all proper_elem (group_elems sg)"
  using path_elems_proper [OF assms(1)] assms(2) by (auto simp: group_elems_def list_all_iff)

lemma SplitPath_JoinSep:
  assumes "es \<noteq> []" and "list_all proper_elem es"
  shows "snd (SplitPath (b @ ''/'' @ JoinSep es ''/'')) = last es"
proof -
  have l: "CHR ''/'' \<notin> set (last es)" using assms by (auto simp: list_all_iff proper_elem_def)
  show ?thesis
  proof (cases "butlast es = []")
    case True
    then have "JoinSep es ''/'' = last es" using assms(1) by (cases es) (auto split: if_splits)
    then show ?thesis using SplitPath_last [OF l] by simp
  next
    case False
    then have "JoinSep es ''/'' = JoinSep (butlast es) ''/'' @ ''/'' @ last es"
      using JoinSep_append [OF False, of "[last es]" "''/''"] assms(1) by simp
    then show ?thesis using SplitPath_last [OF l, of "b @ ''/'' @ JoinSep (butlast es) ''/''"] by simp
  qed
qed

section \<open>Collections of groups\<close>

definition group_names :: "string list \<Rightarrow> string list" where
  "group_names keys = map (\<lambda>k. TrimPrefix k SecretGroupPrefix) (filter (\<lambda>k. HasPrefix k SecretGroupPrefix) keys)"

definition ok_groups :: "(string \<Rightarrow> p2f_error list + SecretGroup) \<Rightarrow> string list \<Rightarrow> SecretGroup list" where
  "ok_groups mk gs = concat (map (\<lambda>g. case mk g of Inl _ \<Rightarrow> [] | Inr sg \<Rightarrow> [sg]) gs)"

definition bad_groups :: "(string \<Rightarrow> p2f_error list + SecretGroup) \<Rightarrow> string list \<Rightarrow> p2f_error list" where
  "bad_groups mk gs = concat (map (\<lambda>g. case mk g of Inl es \<Rightarrow> es | Inr _ \<Rightarrow> []) gs)"

lemma collect_groups_eq:
  "collect_groups mk keys = (ok_groups mk (group_names keys), bad_groups mk (group_names keys))"
proof -
  have "fold (\<lambda>key (sgs, errors).
       if HasPrefix key SecretGroupPrefix then
         (case mk (TrimPrefix key SecretGroupPrefix) of
            Inl errs \<Rightarrow> (sgs, errors @ errs) | Inr sg \<Rightarrow> (sgs @ [sg], errors))
       else (sgs, errors)) keys (a, b)
     = (a @ ok_groups mk (group_names keys), b @ bad_groups mk (group_names keys))" for a b
    by (induction keys arbitrary: a b)
      (auto simp: ok_groups_def bad_groups_def group_names_def split: sum.splits)
  then show ?thesis by (simp add: collect_groups_def)
qed

lemma set_group_names: "g \<in> set (group_names keys) \<longleftrightarrow> SecretGroupPrefix @ g \<in> set keys"
  unfolding group_names_def
  by (auto simp del: append.simps intro!: image_eqI [of _ _ "SecretGroupPrefix @ g"]
      dest: HasPrefix_TrimPrefix)

lemma distinct_group_names: "distinct keys \<Longrightarrow> distinct (group_names keys)"
  unfolding group_names_def
  by (auto simp: distinct_map intro!: inj_onI) (metis HasPrefix_TrimPrefix)

lemma ok_groups_all:
  assumes "\<And>g sg. mk g = Inr sg \<Longrightarrow> Name sg = g" and "\<And>g es. mk g = Inl es \<Longrightarrow> es \<noteq> []"
    and "bad_groups mk gs = []"
  shows "map Name (ok_groups mk gs) = gs" and "\<forall>sg\<in>set (ok_groups mk gs). mk (Name sg) = Inr sg"
  using assms(3)
  by (induction gs) (auto simp: ok_groups_def bad_groups_def assms(1) split: sum.splits dest: assms(2))

lemma newSecretGroup_Inl: "newSecretGroup yaml eng sha256 st g annots c = Inl es \<Longrightarrow> es \<noteq> []"
  by (auto simp: newSecretGroup_def Let_def split: sum.splits if_splits)

lemma permStrToFileMode_bounds: "permStrToFileMode perms = Inr m \<Longrightarrow> 384 \<le> m \<and> m < 512"
  by (cases "perms = []") (auto simp: permission_iff, simp_all add: permStrToFileMode_def defaultFilePermissions_def)

lemma validate_Nil_paths:
  "validate eng sha256 st sg = [] \<Longrightarrow> s \<in> set (SecretSpecs sg) \<Longrightarrow>
     last_segment (Path s) \<noteq> [] \<and> length (last_segment (Path s)) \<le> 126"
  unfolding validateSecretPath_None_iff [of _ "Name sg", symmetric]
  by (auto simp: validate_def Let_def ValidateSecretPathsAndContents_def ValidateSecretPaths_Nil_iff split: if_splits)

lemma absoluteFilePath_prefix: "absoluteFilePath sg base = Inr p \<Longrightarrow> HasPrefix p base \<and> length (snd (SplitPath p)) \<le> 255"
  by (auto simp: absoluteFilePath_def Let_def maxFilenameLen_def split: if_splits)

lemma newSecretGroup_Inr:
  assumes "newSecretGroup yaml eng sha256 st g annots c = Inr sg"
  shows "Name sg = g" and "384 \<le> FilePermissions sg \<and> FilePermissions sg < 512"
    and "HasPrefix (FilePath sg) (secretsBasePath c) \<and> length (snd (SplitPath (FilePath sg))) \<le> 255"
    and "\<forall>s\<in>set (SecretSpecs sg). last_segment (Path s) \<noteq> [] \<and> length (last_segment (Path s)) \<le> 126"
  using assms
  by (auto simp: newSecretGroup_def Let_def split: sum.splits if_splits
      dest: permStrToFileMode_bounds absoluteFilePath_prefix validate_Nil_paths)

lemma group_paths_lookup:
  "gwf (group_paths sgs) \<and> map_of (group_paths sgs) p =
     (let ns = map Name (filter (\<lambda>sg. FilePath sg = p) sgs) in if ns = [] then None else Some ns)"
proof (induction sgs rule: rev_induct)
  case Nil
  then show ?case by (simp add: group_paths_def)
next
  case (snoc sg sgs)
  then show ?case
    by (auto simp: group_paths_def gget_def Let_def split: if_splits)
qed

lemma validateGroupFilePaths_Nil_iff:
  assumes "range_order_ok rt"
  shows "validateGroupFilePaths rt sgs = [] \<longleftrightarrow> distinct (map FilePath sgs)"
proof -
  let ?m = "group_paths sgs"
  have wf: "gwf ?m" using group_paths_lookup by blast
  have "fold (\<lambda>(path, groupNames) errors.
        if length groupNames > 1 then errors @ [DuplicatePath path groupNames] else errors) kvs acc
      = acc @ map (\<lambda>(p, ns). DuplicatePath p ns) (filter (\<lambda>(p, ns). length ns > 1) kvs)" for kvs acc
    by (induction kvs arbitrary: acc) auto
  then have "validateGroupFilePaths rt sgs = [] \<longleftrightarrow> (\<forall>(p, ns)\<in>set (grange rt 0 ?m). length ns \<le> 1)"
    by (auto simp: validateGroupFilePaths_def filter_empty_conv)
  also have "\<dots> \<longleftrightarrow> (\<forall>p ns. map_of ?m p = Some ns \<longrightarrow> length ns \<le> 1)"
    using grange_set [OF assms wf, of 0] gwf_map_of_mem [OF wf] by (auto simp: split_beta) 
  also have "\<dots> \<longleftrightarrow> (\<forall>p. length (filter (\<lambda>sg. FilePath sg = p) sgs) \<le> 1)"
    using group_paths_lookup [of sgs] by (auto simp: Let_def split: if_splits) (metis le_SucE length_0_conv One_nat_def le0)
  also have "\<dots> \<longleftrightarrow> distinct (map FilePath sgs)"
    by (induction sgs) (auto simp: filter_empty_conv le_Suc_eq, metis imageI)
  finally show ?thesis .
qed

lemma built_groups:
  assumes "bad_groups (\<lambda>g. newSecretGroup yaml eng sha256 st g annots c) gs = []"
  shows "map Name (ok_groups (\<lambda>g. newSecretGroup yaml eng sha256 st g annots c) gs) = gs"
    and "\<forall>sg\<in>set (ok_groups (\<lambda>g. newSecretGroup yaml eng sha256 st g annots c) gs).
           newSecretGroup yaml eng sha256 st (Name sg) annots c = Inr sg"
  by (rule ok_groups_all [OF _ _ assms]; erule newSecretGroup_Inr(1) newSecretGroup_Inl)+

lemma newSecretGroup_cong:
  assumes "map_of annots = map_of annots'"
  shows "newSecretGroup yaml eng sha256 st g annots c = newSecretGroup yaml eng sha256 st g annots' c"
proof -
  have g: "gget z annots = gget z annots'" for z :: string using assms by (simp add: gget_def fun_eq_iff)
  have ct: "collectTemplate gr annots c = collectTemplate gr annots' c" for gr
    unfolding collectTemplate_def readTemplateFromFile_def g ..
  show ?thesis unfolding newSecretGroup_def g ct ..
qed

lemma mset_ok_groups: "mset (ok_groups mk gs) = \<Sum>\<^sub># (image_mset (\<lambda>g. mset (case mk g of Inl _ \<Rightarrow> [] | Inr sg \<Rightarrow> [sg])) (mset gs))"
  by (induction gs) (auto simp: ok_groups_def)

lemma bad_groups_Nil: "bad_groups mk gs = [] \<longleftrightarrow> (\<forall>g\<in>set gs. (case mk g of Inl es \<Rightarrow> es | Inr _ \<Rightarrow> []) = [])"
  by (auto simp: bad_groups_def)

section \<open>Properties\<close>

text \<open>
  (C24) Permission strings and file modes correspond exactly: a non-empty string is accepted
  with mode m if and only if it is the nine permission characters of m, optionally after a
  dash, and m is a permission set in which the owner can read and write. So parsing undoes
  printing, no two modes share a string, and nothing else is accepted.
\<close>

theorem permission_string_iff:
  assumes "perms \<noteq> []"
  shows "permStrToFileMode perms = Inr m \<longleftrightarrow>
     384 \<le> m \<and> m < 512 \<and> (perms = modeString m \<or> perms = CHR ''-'' # modeString m)"
  using permission_iff [OF assms] .

theorem permission_string_iff_witness: "permStrToFileMode ''-rw-r-----'' = Inr 416"
proof -
  have "modeString 416 = ''rw-r-----''" by code_simp
  then show ?thesis using permission_string_iff [of "''-rw-r-----''" 416] by simp
qed

text \<open>
  (C25) A relative file path without parent elements always gives a file below the secrets base
  directory: the base, a slash and the proper elements of the path, followed by the default
  file name when the path names only a directory; the only error left is a file name of more
  than 255 bytes.
\<close>

theorem group_file_below_base:
  assumes base: "clean_dir base" and rel: "\<not> IsAbs (FilePath sg)"
    and nopar: "''..'' \<notin> set (Split (FilePath sg) CHR ''/'')"
    and name: "CHR ''/'' \<notin> set (Name sg)" and fmt: "FileFormat sg \<in> known_formats"
    and some: "has_filename (FilePath sg) \<longrightarrow> path_elems (FilePath sg) \<noteq> []"
  shows "list_all proper_elem (group_elems sg) \<and> absoluteFilePath sg base =
     (if length (last (group_elems sg)) > 255 then Inl (FilenameTooLong (last (group_elems sg)) (Name sg))
      else Inr (base @ ''/'' @ JoinSep (group_elems sg) ''/''))"
proof -
  note dp = default_filename_proper [OF name fmt]
  note pr = group_elems_proper [OF nopar dp]
  have ne: "group_elems sg \<noteq> []" using some by (auto simp: group_elems_def)
  let ?p1 = "if \<not> has_filename (FilePath sg) then Join [FilePath sg, default_filename sg] else FilePath sg"
  have nopar_elems: "''..'' \<notin> set (group_elems sg)"
    using pr by (auto simp: list_all_iff proper_elem_def)
  have el: "path_elems ?p1 = group_elems sg \<and> ''..'' \<notin> set (Split ?p1 CHR ''/'')"
  proof (cases "has_filename (FilePath sg)")
    case True
    then show ?thesis using nopar by (simp add: group_elems_def)
  next
    case False
    then show ?thesis
      using effective_path [OF rel nopar dp False] path_elems_JoinSep [OF ne pr]
        Split_JoinSep_proper [OF ne pr] nopar_elems by (simp del: JoinSep.simps)
  qed
  have abs: "Join [base, ?p1] = base @ ''/'' @ JoinSep (group_elems sg) ''/''"
    using Join_below_base [OF base conjunct2 [OF el]] el ne by simp
  have "absoluteFilePath sg base = (let absolute = Join [base, ?p1] in
      if \<not> HasPrefix absolute base then Inl (OutsideBase ?p1 (Name sg))
      else if length (snd (SplitPath absolute)) > 255 then Inl (FilenameTooLong (snd (SplitPath absolute)) (Name sg))
      else Inr absolute)"
    using rel by (simp add: absoluteFilePath_def Let_def has_filename_def default_filename_def maxFilenameLen_def)
  then show ?thesis
    unfolding abs Let_def SplitPath_JoinSep [OF ne pr] using pr by simp
qed

text \<open>A group with the default file name.\<close>

definition demo_group :: "string \<Rightarrow> SecretGroup" where
  "demo_group p = \<lparr>Name = ''db'', FilePath = p, FileTemplate = [], FileFormat = ''yaml'',
     PolicyPathPrefix = [], FilePermissions = 420,
     SecretSpecs = [\<lparr>Alias = ''pw'', Path = ''db/pw'', ContentType = ''text''\<rparr>]\<rparr>"

theorem group_file_below_base_witness:
  "absoluteFilePath (demo_group ''app/'') ''/conjur/secrets'' = Inr ''/conjur/secrets/app/db.yaml''"
proof -
  have g: "clean_dir ''/conjur/secrets''" "\<not> IsAbs (FilePath (demo_group ''app/''))"
      "''..'' \<notin> set (Split (FilePath (demo_group ''app/'')) CHR ''/'')"
      "CHR ''/'' \<notin> set (Name (demo_group ''app/''))" "FileFormat (demo_group ''app/'') \<in> known_formats"
      "has_filename (FilePath (demo_group ''app/'')) \<longrightarrow> path_elems (FilePath (demo_group ''app/'')) \<noteq> []"
    by code_simp+
  have "group_elems (demo_group ''app/'') = [''app'', ''db.yaml'']" by code_simp
  then show ?thesis using group_file_below_base [OF g] by simp
qed

text \<open>
  The containment check is a prefix test on strings, not on path elements: a path with a
  parent element can reach a sibling directory whose name continues the base directory's name.
\<close>

lemma sibling_directory_is_accepted:
  "absoluteFilePath (demo_group ''../secrets-other/db.yaml'') ''/conjur/secrets''
     = Inr ''/conjur/secrets-other/db.yaml''"
  by code_simp

text \<open>
  (C12) A successful construction gives well-formed groups: one for every annotation with the
  group prefix, sorted by distinct names, no two with the same file path, each with owner
  read and write permission, a file path that starts with the base path, a file name of at
  most 255 bytes and valid variable paths.
\<close>

theorem secret_groups_wellformed:
  assumes rt: "range_order_ok rt" and wf: "gwf annots"
    and ok: "newSecretGroupsWithDeps rt yaml eng sha256 st annots c = Inr gs"
  shows "sorted (map Name gs) \<and> distinct (map Name gs) \<and> distinct (map FilePath gs)
     \<and> (\<forall>g. g \<in> set (map Name gs) \<longleftrightarrow> ghas annots (SecretGroupPrefix @ g))
     \<and> (\<forall>sg\<in>set gs. 384 \<le> FilePermissions sg \<and> FilePermissions sg < 512
          \<and> HasPrefix (FilePath sg) (secretsBasePath c) \<and> length (snd (SplitPath (FilePath sg))) \<le> 255
          \<and> (\<forall>s\<in>set (SecretSpecs sg). last_segment (Path s) \<noteq> [] \<and> length (last_segment (Path s)) \<le> 126))"
proof -
  let ?mk = "\<lambda>g. newSecretGroup yaml eng sha256 st g annots c"
  let ?sgs = "ok_groups ?mk (group_names (gkeys annots))"
  have bad: "bad_groups ?mk (group_names (gkeys annots)) = []" and dup: "validateGroupFilePaths rt ?sgs = []"
    and gs: "gs = sort_key Name ?sgs"
    using ok by (auto simp: newSecretGroupsWithDeps_def collect_groups_eq Let_def split: if_splits)
  have all: "map Name ?sgs = group_names (gkeys annots)" "\<forall>sg\<in>set ?sgs. ?mk (Name sg) = Inr sg"
    using built_groups [OF bad] by blast+
  have m: "mset gs = mset ?sgs" using gs by simp
  then have st: "set gs = set ?sgs" by (metis set_mset_mset)
  have "distinct (map Name ?sgs)"
    using all(1) distinct_group_names [of "gkeys annots"] wf by (simp add: gwf_def gkeys_def)
  then have n: "distinct (map Name gs)"
    using m mset_eq_imp_distinct_iff [of "map Name gs" "map Name ?sgs"] by simp
  have "distinct (map FilePath ?sgs)" using dup validateGroupFilePaths_Nil_iff [OF rt] by blast
  then have p: "distinct (map FilePath gs)"
    using m mset_eq_imp_distinct_iff [of "map FilePath gs" "map FilePath ?sgs"] by simp
  have "Name ` set gs = set (group_names (gkeys annots))" using all(1) st by (metis list.set_map)
  then have k: "g \<in> set (map Name gs) \<longleftrightarrow> ghas annots (SecretGroupPrefix @ g)" for g
    by (simp add: set_group_names set_gkeys ghas_iff dom_def)
  have mk: "?mk (Name sg) = Inr sg" if "sg \<in> set gs" for sg using all(2) st that by blast
  have "384 \<le> FilePermissions sg \<and> FilePermissions sg < 512
          \<and> HasPrefix (FilePath sg) (secretsBasePath c) \<and> length (snd (SplitPath (FilePath sg))) \<le> 255
          \<and> (\<forall>s\<in>set (SecretSpecs sg). last_segment (Path s) \<noteq> [] \<and> length (last_segment (Path s)) \<le> 126)"
    if "sg \<in> set gs" for sg
    using newSecretGroup_Inr(2-4) [OF mk [OF that]] by blast
  moreover have "sorted (map Name gs)" unfolding gs by simp
  ultimately show ?thesis using n p k by blast
qed

definition demo_yaml :: yaml_list where
  "demo_yaml raw = Inr [\<lparr>Kind = ScalarNode, Line = 1, decode_string = Some raw, decode_map = None\<rparr>]"

definition demo_engine :: "string engine" where
  "demo_engine = \<lparr>parse = (\<lambda>_. Inr),
     execute = (\<lambda>t d. (t @ concat (map s_Value (SecretsArray d)), None))\<rparr>"

definition demo_state :: p2f_state where
  "demo_state = \<lparr>p2f_fs = demo_fs, prevFileChecksums = []\<rparr>"

definition demo_config :: p2f_Config where
  "demo_config = \<lparr>secretsBasePath = ''/s'', templatesBasePath = ''/t'',
     openReadCloser = (\<lambda>_. Inl NotExist), pullReader = (\<lambda>_. Inr [])\<rparr>"

definition demo_annotations :: annotations where
  "demo_annotations = [(SecretGroupPrefix @ ''web'', ''web/key''), (SecretGroupPrefix @ ''db'', ''db/pw''),
     (secretGroupFilePermissionsPrefix @ ''db'', ''rw-r-----'')]"

definition demo_groups :: "SecretGroup list" where
  "demo_groups =
     [\<lparr>Name = ''db'', FilePath = ''/s/db.yaml'', FileTemplate = [], FileFormat = ''yaml'', PolicyPathPrefix = [],
       FilePermissions = 416, SecretSpecs = [\<lparr>Alias = ''pw'', Path = ''db/pw'', ContentType = ''text''\<rparr>]\<rparr>,
      \<lparr>Name = ''web'', FilePath = ''/s/web.yaml'', FileTemplate = [], FileFormat = ''yaml'', PolicyPathPrefix = [],
       FilePermissions = 420, SecretSpecs = [\<lparr>Alias = ''key'', Path = ''web/key'', ContentType = ''text''\<rparr>]\<rparr>]"

lemma demo_groups_built:
  "newSecretGroupsWithDeps (\<lambda>_ ks. ks) demo_yaml demo_engine (\<lambda>x. x) demo_state demo_annotations demo_config
     = Inr demo_groups"
  by code_simp

lemma demo_annotations_wf: "gwf demo_annotations"
  by (simp add: gwf_def demo_annotations_def)

theorem secret_groups_wellformed_witness:
  "distinct (map FilePath demo_groups) \<and> (\<forall>g. g \<in> set (map Name demo_groups) \<longleftrightarrow> ghas demo_annotations (SecretGroupPrefix @ g))"
  using secret_groups_wellformed [OF range_order_id demo_annotations_wf demo_groups_built] by blast

text \<open>
  (C28) The groups do not depend on the order in which Go visits the annotations or the map of
  file paths.
\<close>

theorem secret_groups_order_irrelevant:
  assumes "range_order_ok rt" and "range_order_ok rt'" and "gwf annots" and "mset annots = mset annots'"
    and "newSecretGroupsWithDeps rt yaml eng sha256 st annots c = Inr gs"
  shows "newSecretGroupsWithDeps rt' yaml eng sha256 st annots' c = Inr gs"
proof -
  let ?mk = "\<lambda>g. newSecretGroup yaml eng sha256 st g annots c"
  let ?n = "group_names (gkeys annots)" and ?n' = "group_names (gkeys annots')"
  have mk: "(\<lambda>g. newSecretGroup yaml eng sha256 st g annots' c) = ?mk"
    using newSecretGroup_cong [OF map_of_mset_eq [OF assms(4,3)]] by (intro ext) (rule sym)
  have bad: "bad_groups ?mk ?n = []" and dup: "validateGroupFilePaths rt (ok_groups ?mk ?n) = []"
    and gs: "gs = sort_key Name (ok_groups ?mk ?n)"
    using assms(5) by (auto simp: newSecretGroupsWithDeps_def collect_groups_eq Let_def split: if_splits)
  have all: "map Name (ok_groups ?mk ?n) = ?n"
    by (rule built_groups(1) [OF bad])
  have n: "mset ?n = mset ?n'" using assms(4) by (simp add: group_names_def gkeys_def)
  then have m: "mset (ok_groups ?mk ?n) = mset (ok_groups ?mk ?n')" by (simp add: mset_ok_groups)
  have "distinct (map Name (ok_groups ?mk ?n))"
    using all distinct_group_names [of "gkeys annots"] assms(3) by (simp add: gwf_def gkeys_def)
  then have "inj_on Name (set (ok_groups ?mk ?n))" by (simp add: distinct_map)
  then have "sort_key Name (ok_groups ?mk ?n) = sort_key Name (ok_groups ?mk ?n')"
    using sort_key_inj_key_eq [of "ok_groups ?mk ?n" "sort_key Name (ok_groups ?mk ?n')" Name] m by simp
  moreover have "bad_groups ?mk ?n' = []" using bad n unfolding bad_groups_Nil by (metis set_mset_mset)
  moreover have "validateGroupFilePaths rt' (ok_groups ?mk ?n') = []"
    using dup m validateGroupFilePaths_Nil_iff [OF assms(1)] validateGroupFilePaths_Nil_iff [OF assms(2)]
      mset_eq_imp_distinct_iff [of "map FilePath (ok_groups ?mk ?n)" "map FilePath (ok_groups ?mk ?n')"] by simp
  ultimately show ?thesis
    using gs by (simp add: newSecretGroupsWithDeps_def collect_groups_eq mk Let_def)
qed

theorem secret_groups_order_irrelevant_witness:
  "newSecretGroupsWithDeps (\<lambda>_. rev) demo_yaml demo_engine (\<lambda>x. x) demo_state (rev demo_annotations) demo_config
     = Inr demo_groups"
  by (rule secret_groups_order_irrelevant [OF range_order_id range_order_rev demo_annotations_wf _ demo_groups_built])
    simp

text \<open>
  Where the template of a group comes from: a template file that cannot be read for any
  reason but its absence is an error; without the file the annotation is used, even when it is
  missing and the template is empty; and when the file exists the annotation is never used: two
  non-empty templates are an error, and an empty file makes the group's template empty although
  the annotation has one.
\<close>

lemma collectTemplate_sources:
  "collectTemplate g annots c =
     (let a = gget [] annots (SecretGroupFileTemplatePrefix @ g) in
      case readTemplateFromFile g annots c of
        Inl NotExist \<Rightarrow> Inr a
      | Inl (OsError e) \<Rightarrow> Inl (TemplateRead g (OsError e))
      | Inr f \<Rightarrow> if f = [] then (if a = [] then Inl (TemplateRequired g) else Inr [])
                 else if a = [] then Inr f else Inl (TemplateTwice g))"
  by (auto simp: collectTemplate_def Let_def split: sum.splits os_error.splits)

end
