(* ===== verification/Push_To_File.thy ===== *)
theory Push_To_File
  imports Secret_Group
begin

text \<open>
  Package pushtofile, retrieve\_secrets.go and provide\_conjur\_secrets.go: fetching the values
  of all groups in one call, and the provider that writes every group's file or, when the text of
  the error of a failed fetch mentions one of three codes, removes the files. The Conjur client is a parameter
  (from variable paths to values); tracing is left out.
\<close>

section \<open>retrieve\_secrets.go\<close>

type_synonym retrieve_secrets = "string list \<Rightarrow> gerror + (string, string) gomap"

text \<open>
  All paths of the groups, each once, in the order in which Go visits the set; a star stands for
  everything and ends the search.
\<close>

fun add_spec_paths :: "SecretSpec list \<Rightarrow> (string, unit) gomap \<Rightarrow> (string, unit) gomap option" where
  "add_spec_paths [] pathSet = Some pathSet"
| "add_spec_paths (spec # specs) pathSet =
     (if Path spec = ''*'' then None else add_spec_paths specs (gput (Path spec) () pathSet))"

fun add_group_paths :: "SecretGroup list \<Rightarrow> (string, unit) gomap \<Rightarrow> (string, unit) gomap option" where
  "add_group_paths [] pathSet = Some pathSet"
| "add_group_paths (g # gs) pathSet =
     (case add_spec_paths (SecretSpecs g) pathSet of None \<Rightarrow> None | Some ps \<Rightarrow> add_group_paths gs ps)"

definition getAllPaths :: "range_order \<Rightarrow> SecretGroup list \<Rightarrow> string list" where
  "getAllPaths rt secretGroups =
     (case add_group_paths secretGroups [] of
        None \<Rightarrow> [''*'']
      | Some pathSet \<Rightarrow> map fst (grange rt 1 pathSet))"

text \<open>A value that is not base64 although its content type says so is passed on as it is.\<close>

definition decodeIfNeeded :: "SecretSpec \<Rightarrow> string \<Rightarrow> string \<Rightarrow> string" where
  "decodeIfNeeded spec alias sValue =
     (if ContentType spec \<noteq> ''base64'' then sValue
      else case b64Decode sValue of None \<Rightarrow> sValue | Some decoded \<Rightarrow> decoded)"

datatype fetch_error = AliasNotPresent string

definition getSecretValueByID :: "(string, string) gomap \<Rightarrow> SecretSpec \<Rightarrow> string \<Rightarrow> fetch_error + Secret" where
  "getSecretValueByID secretValuesByID spec path =
     (let alias = (if Alias spec = [] \<or> Alias spec = ''*'' then path else Alias spec) in
      case map_of secretValuesByID path of
        None \<Rightarrow> Inl (AliasNotPresent alias)
      | Some sValue \<Rightarrow> Inr \<lparr>s_Alias = alias, s_Value = decodeIfNeeded spec alias sValue\<rparr>)"

definition CSPFK068E :: "string \<Rightarrow> string \<Rightarrow> gerror" where
  "CSPFK068E path groupName =
     ''CSPFK068E Retrieved secrets did not include secret '' @ [CHR 0x27] @ path @ [CHR 0x27]
     @ '' requested by secret group '' @ [CHR 0x27] @ groupName @ [CHR 0x27]"

fun fetch_paths ::
  "(string, string) gomap \<Rightarrow> string \<Rightarrow> SecretSpec \<Rightarrow> string list \<Rightarrow> (string, Secret list) gomap
     \<Rightarrow> gerror + (string, Secret list) gomap" where
  "fetch_paths vals groupName spec [] acc = Inr acc"
| "fetch_paths vals groupName spec (path # paths) acc =
     (case getSecretValueByID vals spec path of
        Inl _ \<Rightarrow> Inl (CSPFK068E path groupName)
      | Inr secret \<Rightarrow>
          fetch_paths vals groupName spec paths (gput groupName (gget [] acc groupName @ [secret]) acc))"

fun fetch_specs ::
  "range_order \<Rightarrow> (string, string) gomap \<Rightarrow> string \<Rightarrow> SecretSpec list \<Rightarrow> (string, Secret list) gomap
     \<Rightarrow> gerror + (string, Secret list) gomap" where
  "fetch_specs rt vals groupName [] acc = Inr acc"
| "fetch_specs rt vals groupName (spec # specs) acc =
     (let paths = (if Path spec = ''*'' then sort (map fst (grange rt 2 vals)) else [Path spec]) in
      case fetch_paths vals groupName spec paths acc of
        Inl e \<Rightarrow> Inl e
      | Inr acc1 \<Rightarrow> fetch_specs rt vals groupName specs acc1)"

fun fetch_groups ::
  "range_order \<Rightarrow> (string, string) gomap \<Rightarrow> SecretGroup list \<Rightarrow> (string, Secret list) gomap
     \<Rightarrow> gerror + (string, Secret list) gomap" where
  "fetch_groups rt vals [] acc = Inr acc"
| "fetch_groups rt vals (g # gs) acc =
     (case fetch_specs rt vals (Name g) (SecretSpecs g) acc of
        Inl e \<Rightarrow> Inl e
      | Inr acc1 \<Rightarrow> fetch_groups rt vals gs acc1)"

text \<open>The deferred clearing of the fetched values in memory.\<close>

definition clear_values :: "(string, string) gomap \<Rightarrow> (string, string) gomap" where
  "clear_values m = map (\<lambda>(k, v). (k, map (\<lambda>_. CHR 0x00) v)) m"

text \<open>The result and what is left of the fetched values in memory.\<close>

definition FetchSecretsForGroups ::
  "range_order \<Rightarrow> retrieve_secrets \<Rightarrow> SecretGroup list
     \<Rightarrow> (gerror + (string, Secret list) gomap) \<times> (string, string) gomap" where
  "FetchSecretsForGroups rt depRetrieveSecrets secretGroups =
     (case depRetrieveSecrets (getAllPaths rt secretGroups) of
        Inl e \<Rightarrow> (Inl e, [])
      | Inr vals \<Rightarrow> (fetch_groups rt vals secretGroups [], clear_values vals))"

section \<open>provide\_conjur\_secrets.go\<close>

record fileProvider =
  retrieveSecretsFunc :: retrieve_secrets
  secretGroups :: "SecretGroup list"
  sanitizeEnabled :: bool

record P2FProviderConfig =
  SecretFileBasePath :: string
  TemplateFileBasePath :: string
  AnnotationsMap :: annotations

definition NewProvider ::
  "range_order \<Rightarrow> yaml_list \<Rightarrow> 'tpl engine \<Rightarrow> (string \<Rightarrow> Checksum) \<Rightarrow> p2f_state \<Rightarrow> retrieve_secrets \<Rightarrow> bool
     \<Rightarrow> P2FProviderConfig \<Rightarrow> p2f_error list + fileProvider" where
  "NewProvider rt yaml eng sha256 st retrieve sanitize config =
     (case NewSecretGroups rt yaml eng sha256 st (SecretFileBasePath config) (TemplateFileBasePath config)
             (AnnotationsMap config) of
        Inl err \<Rightarrow> Inl err
      | Inr groups \<Rightarrow>
          Inr \<lparr>retrieveSecretsFunc = retrieve, secretGroups = groups, sanitizeEnabled = sanitize\<rparr>)"

text \<open>Errors that are taken to mean that access is gone: recognised by their text.\<close>

definition access_revoked :: "gerror \<Rightarrow> bool" where
  "access_revoked e \<longleftrightarrow> Contains e ''403'' \<or> Contains e ''404'' \<or> Contains e ''CSPFK068E''"

definition remove_files :: "SecretGroup list \<Rightarrow> p2f_state \<Rightarrow> p2f_state" where
  "remove_files groups st =
     fold (\<lambda>group st. st\<lparr>p2f_fs := snd (os_remove (FilePath group) (p2f_fs st))\<rparr>) groups st"

text \<open>The loop over the groups stops at the first error.\<close>

fun push_groups ::
  "open_write_closer \<Rightarrow> push_to_writer \<Rightarrow> (string, Secret list) gomap \<Rightarrow> SecretGroup list \<Rightarrow> bool \<Rightarrow> p2f_state
     \<Rightarrow> (bool \<times> p2f_error option) \<times> p2f_state" where
  "push_groups depOpen depPush secretsByGroup [] updated st = ((updated, None), st)"
| "push_groups depOpen depPush secretsByGroup (sg # groups) updated st =
     (case pushToFileWithDeps depOpen depPush sg (gget [] secretsByGroup (Name sg)) st of
        ((_, Some e), st1) \<Rightarrow> ((updated, Some e), st1)
      | ((groupUpdated, None), st1) \<Rightarrow>
          push_groups depOpen depPush secretsByGroup groups (if groupUpdated then True else updated) st1)"

definition provideWithDeps ::
  "range_order \<Rightarrow> open_write_closer \<Rightarrow> push_to_writer \<Rightarrow> retrieve_secrets \<Rightarrow> SecretGroup list \<Rightarrow> bool \<Rightarrow> p2f_state
     \<Rightarrow> (bool \<times> p2f_error option) \<times> p2f_state" where
  "provideWithDeps rt depOpen depPush retrieve groups sanitize st =
     (case fst (FetchSecretsForGroups rt retrieve groups) of
        Inl err \<Rightarrow>
          if access_revoked err \<and> sanitize then ((True, Some (FetchFailed err)), remove_files groups st)
          else ((False, Some (FetchFailed err)), st)
      | Inr secretsByGroup \<Rightarrow> push_groups depOpen depPush secretsByGroup groups False st)"

definition Provide ::
  "range_order \<Rightarrow> 'tpl engine \<Rightarrow> (string \<Rightarrow> Checksum) \<Rightarrow> fileProvider \<Rightarrow> p2f_state
     \<Rightarrow> (bool \<times> p2f_error option) \<times> p2f_state" where
  "Provide rt eng sha256 p st =
     provideWithDeps rt openFileAsWriteCloser (pushToWriter_dep eng sha256) (retrieveSecretsFunc p)
       (secretGroups p) (sanitizeEnabled p) st"

section \<open>Lemmas on fetching\<close>

definition spec_alias :: "SecretSpec \<Rightarrow> string \<Rightarrow> string" where
  "spec_alias spec path = (if Alias spec = [] \<or> Alias spec = ''*'' then path else Alias spec)"

text \<open>The secrets that a specification stands for, given the fetched values.\<close>

definition spec_paths :: "(string, string) gomap \<Rightarrow> SecretSpec \<Rightarrow> string list" where
  "spec_paths vals spec = (if Path spec = ''*'' then sort (gkeys vals) else [Path spec])"

definition spec_secret :: "(string, string) gomap \<Rightarrow> SecretSpec \<Rightarrow> string \<Rightarrow> Secret" where
  "spec_secret vals spec path =
     \<lparr>s_Alias = spec_alias spec path,
      s_Value = decodeIfNeeded spec (spec_alias spec path) (the (map_of vals path))\<rparr>"

definition group_secrets :: "(string, string) gomap \<Rightarrow> SecretGroup \<Rightarrow> Secret list" where
  "group_secrets vals g =
     concat (map (\<lambda>spec. map (spec_secret vals spec) (spec_paths vals spec)) (SecretSpecs g))"

definition specs_present :: "(string, string) gomap \<Rightarrow> SecretSpec list \<Rightarrow> bool" where
  "specs_present vals specs \<longleftrightarrow> (\<forall>spec\<in>set specs. Path spec = ''*'' \<or> ghas vals (Path spec))"

lemma getSecretValueByID_eq:
  "getSecretValueByID vals spec path =
     (if ghas vals path then Inr (spec_secret vals spec path) else Inl (AliasNotPresent (spec_alias spec path)))"
  by (auto simp: getSecretValueByID_def spec_alias_def spec_secret_def ghas_iff Let_def split: option.splits)

lemma fetch_paths_eq:
  "fetch_paths vals g spec paths acc =
     (case find (\<lambda>p. \<not> ghas vals p) paths of
        Some p \<Rightarrow> Inl (CSPFK068E p g)
      | None \<Rightarrow> Inr (if paths = [] then acc
                     else gput g (gget [] acc g @ map (spec_secret vals spec) paths) acc))"
proof (induction paths arbitrary: acc)
  case (Cons p ps)
  have "gput g v (gput g u acc) = gput g v acc" for u v :: "Secret list"
    by (simp add: gput_def)
  then show ?case using Cons by (auto simp: getSecretValueByID_eq split: option.splits)
qed simp

lemma fetch_paths_ok:
  assumes "fetch_paths vals g spec paths acc = Inr acc1"
  shows "\<forall>p\<in>set paths. ghas vals p"
    and "gget [] acc1 h = (if h = g then gget [] acc g @ map (spec_secret vals spec) paths else gget [] acc h)"
  using assms by (auto simp: fetch_paths_eq find_None_iff split: option.splits if_splits)

lemma fetch_paths_error:
  assumes "fetch_paths vals g spec paths acc = Inl e"
  shows "\<exists>p\<in>set paths. \<not> ghas vals p \<and> e = CSPFK068E p g"
  using assms by (auto simp: fetch_paths_eq find_Some_iff split: option.splits)

lemma star_paths:
  "range_order_ok rt \<Longrightarrow> gwf vals \<Longrightarrow>
     (if Path spec = ''*'' then sort (map fst (grange rt 2 vals)) else [Path spec]) = spec_paths vals spec"
  using grange_mset [of rt vals 2] by (simp add: spec_paths_def gkeys_def sorted_sort_unique)

lemma spec_paths_present:
  "(\<forall>p\<in>set (spec_paths vals spec). ghas vals p) \<longleftrightarrow> Path spec = ''*'' \<or> ghas vals (Path spec)"
  by (auto simp: spec_paths_def gkeys_def ghas_iff map_of_eq_None_iff)

lemma fetch_specs_ok:
  assumes "range_order_ok rt" and "gwf vals" and "fetch_specs rt vals g specs acc = Inr acc1"
  shows "specs_present vals specs
    \<and> (\<forall>h. gget [] acc1 h =
         (if h = g then gget [] acc g @ concat (map (\<lambda>spec. map (spec_secret vals spec) (spec_paths vals spec)) specs)
          else gget [] acc h))"
  using assms(3)
proof (induction specs arbitrary: acc)
  case (Cons spec specs)
  then obtain a where a: "fetch_paths vals g spec (spec_paths vals spec) acc = Inr a"
      "fetch_specs rt vals g specs a = Inr acc1"
    by (auto simp: star_paths [OF assms(1,2)] Let_def split: sum.splits)
  note fp = fetch_paths_ok [OF a(1)]
  have "Path spec = ''*'' \<or> ghas vals (Path spec)" using fp(1) spec_paths_present by blast
  then show ?case using Cons.IH [OF a(2)] fp(2) by (simp add: specs_present_def)
qed (simp add: specs_present_def)

lemma fetch_specs_error:
  assumes "range_order_ok rt" and "gwf vals" and "fetch_specs rt vals g specs acc = Inl e"
  shows "\<not> specs_present vals specs \<and> (\<exists>p. \<not> ghas vals p \<and> e = CSPFK068E p g)"
  using assms(3)
proof (induction specs arbitrary: acc)
  case (Cons spec specs)
  show ?case
  proof (cases "fetch_paths vals g spec (spec_paths vals spec) acc")
    case (Inl e')
    then have "e' = e" using Cons.prems by (simp add: star_paths [OF assms(1,2)] Let_def)
    with fetch_paths_error [OF Inl] obtain p where p: "p \<in> set (spec_paths vals spec)" "\<not> ghas vals p" "e = CSPFK068E p g"
      by blast
    then show ?thesis using spec_paths_present by (auto simp: specs_present_def)
  next
    case (Inr a)
    then have "fetch_specs rt vals g specs a = Inl e"
      using Cons.prems by (simp add: star_paths [OF assms(1,2)] Let_def)
    then show ?thesis using Cons.IH [of a] by (auto simp: specs_present_def)
  qed
qed simp

lemma fetch_groups_ok:
  assumes "range_order_ok rt" and "gwf vals" and "distinct (map Name gs)"
    and "fetch_groups rt vals gs acc = Inr m"
  shows "(\<forall>g\<in>set gs. specs_present vals (SecretSpecs g))
    \<and> (\<forall>g\<in>set gs. gget [] m (Name g) = gget [] acc (Name g) @ group_secrets vals g)
    \<and> (\<forall>h. h \<notin> Name ` set gs \<longrightarrow> gget [] m h = gget [] acc h)"
  using assms(3,4)
proof (induction gs arbitrary: acc)
  case (Cons g gs)
  then obtain a where a: "fetch_specs rt vals (Name g) (SecretSpecs g) acc = Inr a" "fetch_groups rt vals gs a = Inr m"
    by (auto split: sum.splits)
  note fs = fetch_specs_ok [OF assms(1,2) a(1)]
  note ih = Cons.IH [OF _ a(2)]
  have nin: "Name g \<notin> Name ` set gs" and d: "distinct (map Name gs)" using Cons.prems(1) by auto
  have neq: "Name h \<noteq> Name g" if "h \<in> set gs" for h using nin that by (metis imageI)
  show ?case
    using ih [OF d] fs nin neq by (auto simp: group_secrets_def)
qed simp

lemma fetch_groups_error:
  assumes "range_order_ok rt" and "gwf vals" and "fetch_groups rt vals gs acc = Inl e"
  shows "\<exists>g\<in>set gs. \<not> specs_present vals (SecretSpecs g) \<and> (\<exists>p. \<not> ghas vals p \<and> e = CSPFK068E p (Name g))"
  using assms(3)
proof (induction gs arbitrary: acc)
  case (Cons g gs)
  then show ?case using fetch_specs_error [OF assms(1,2)] by (auto split: sum.splits)
qed simp

lemma add_spec_paths_eq:
  "add_spec_paths specs ps =
     (if ''*'' \<in> Path ` set specs then None else Some (fold (\<lambda>spec. gput (Path spec) ()) specs ps))"
  by (induction specs arbitrary: ps) auto

lemma add_group_paths_eq:
  "add_group_paths gs ps =
     (if \<exists>g\<in>set gs. ''*'' \<in> Path ` set (SecretSpecs g) then None
      else Some (fold (\<lambda>spec. gput (Path spec) ()) (concat (map SecretSpecs gs)) ps))"
  by (induction gs arbitrary: ps) (auto simp: add_spec_paths_eq)

lemma fold_gput_paths:
  "gwf ps \<Longrightarrow> gwf (fold (\<lambda>spec. gput (Path spec) ()) specs ps)
     \<and> fst ` set (fold (\<lambda>spec. gput (Path spec) ()) specs ps) = fst ` set ps \<union> Path ` set specs"
  by (induction specs arbitrary: ps) (auto simp: fst_set_gput)

section \<open>Lemmas on writing\<close>

text \<open>No file has, and no group uses, a name that a temporary file of a group could get.\<close>

definition fresh_temps :: "SecretGroup list \<Rightarrow> fsys \<Rightarrow> bool" where
  "fresh_temps groups fs \<longleftrightarrow>
     (\<forall>g\<in>set groups. \<forall>k. file_at fs (temp_for (fs_tempDir fs) (FilePath g) k) = None
        \<and> temp_for (fs_tempDir fs) (FilePath g) k \<notin> FilePath ` set groups)"

text \<open>What a group's file should hold, when everything about the group is in order.\<close>

definition group_content :: "'tpl engine \<Rightarrow> Secret list \<Rightarrow> SecretGroup \<Rightarrow> string option" where
  "group_content eng secrets g =
     (if validateSecretsAgainstSpecs secrets (SecretSpecs g) \<noteq> None then None
      else case maybeFileTemplateFromFormat (FileTemplate g) (FileFormat g) (SecretSpecs g) of
        Inl _ \<Rightarrow> None
      | Inr tpl \<Rightarrow> (case render_group eng (Name g) tpl secrets of Inl _ \<Rightarrow> None | Inr c \<Rightarrow> Some c))"

lemma openFile_quiet:
  assumes "quiet (p2f_fs st)" and "openFileAsWriteCloser p m st = (r, st')"
  shows "r = Inr (Atomic (newAtomicWriter p m)) \<and> quiet (p2f_fs st')
     \<and> prevFileChecksums st' = prevFileChecksums st \<and> fs_tempDir (p2f_fs st') = fs_tempDir (p2f_fs st)
     \<and> (\<forall>q. file_at (p2f_fs st') q = (if q = p \<and> file_at (p2f_fs st) p = None then Some ([], m) else file_at (p2f_fs st) q))"
  using assms
  by (auto simp: openFileAsWriteCloser_def quiet_def os_mkdirAll_def os_openCreate_def fault_def split: if_splits)

lemma PushToFile_quiet:
  assumes q: "quiet (p2f_fs st)" and c: "group_content eng secrets g = Some content"
    and fresh: "\<forall>k. file_at (p2f_fs st) (temp_for (fs_tempDir (p2f_fs st)) (FilePath g) k) = None"
    and run: "PushToFile eng sha256 g secrets st = (r, st')"
  defines "ch \<equiv> ContentHasChanged (Name g) (sha256 content) (prevFileChecksums st)"
  shows "r = (ch, None) \<and> quiet (p2f_fs st') \<and> fs_tempDir (p2f_fs st') = fs_tempDir (p2f_fs st)
     \<and> prevFileChecksums st' = (if ch then gput (Name g) (sha256 content) (prevFileChecksums st) else prevFileChecksums st)
     \<and> file_at (p2f_fs st') (FilePath g) =
         (if ch then Some (content, FilePermissions g)
          else case file_at (p2f_fs st) (FilePath g) of None \<Rightarrow> Some ([], FilePermissions g) | Some f \<Rightarrow> Some f)
     \<and> (\<forall>p. p \<noteq> FilePath g \<longrightarrow> file_at (p2f_fs st') p = file_at (p2f_fs st) p)"
proof -
  let ?w = "newAtomicWriter (FilePath g) (FilePermissions g)"
  obtain tpl where v: "validateSecretsAgainstSpecs secrets (SecretSpecs g) = None"
    and t: "maybeFileTemplateFromFormat (FileTemplate g) (FileFormat g) (SecretSpecs g) = Inr tpl"
    and rd: "render_group eng (Name g) tpl secrets = Inr content"
    using c by (auto simp: group_content_def split: if_splits sum.splits)
  obtain wr st1 where op: "openFileAsWriteCloser (FilePath g) (FilePermissions g) st = (wr, st1)"
    by (metis surj_pair)
  note o = openFile_quiet [OF q op]
  have "file_at (p2f_fs st1) (temp_for (fs_tempDir (p2f_fs st1)) (FilePath g) k) = None" for k
    using o fresh temp_for_neq by simp
  then have fr: "temp_free (FilePath g) (p2f_fs st1)" unfolding temp_free_def by (intro exI [of _ 0]) simp
  have push: "PushToFile eng sha256 g secrets st =
      (case writeContent sha256 (Atomic ?w) content (Name g) st1 of (r, wc, st2) \<Rightarrow>
         ((fst r, if snd r \<noteq> None then Some (MaskedTemplate (Name g)) else None), snd (writer_Close wc st2)))"
    using v t op o rd
    by (simp add: PushToFile_def pushToFileWithDeps_def pushToWriter_dep_def pushToWriter_def split: prod.splits)
  show ?thesis
  proof (cases ch)
    case False
    then have "writeContent sha256 (Atomic ?w) content (Name g) st1 = ((False, None), Atomic ?w, st1)"
      using o by (simp add: writeContent_def ch_def FileChecksum_def)
    moreover have "Close ?w (p2f_fs st1) = (None, ?w, p2f_fs st1)" by (simp add: Close_def newAtomicWriter_def)
    ultimately have "r = (False, None)" "st' = st1" using push run by simp_all
    then show ?thesis using False o by (auto split: option.splits)
  next
    case True
    have qf: "fs_fault (p2f_fs st1) = (\<lambda>_ _. None)" using o by (simp add: quiet_def)
    obtain w1 fs1 w2 fs2 where w: "Write content ?w (p2f_fs st1) = ((length content, None), w1, fs1)"
      "Close w1 fs1 = (None, w2, fs2)" "file_at fs2 (FilePath g) = Some (content, FilePermissions g)"
      "\<forall>q. q \<noteq> FilePath g \<longrightarrow> file_at fs2 q = file_at (p2f_fs st1) q" "fs_fault fs2 = fs_fault (p2f_fs st1)" "fs_tempDir fs2 = fs_tempDir (p2f_fs st1)"
      using write_close_quiet [OF qf fr, of content "FilePermissions g"] by blast
    have "writeContent sha256 (Atomic ?w) content (Name g) st1 =
        ((True, None), Atomic w1, st1\<lparr>p2f_fs := fs1, prevFileChecksums := gput (Name g) (sha256 content) (prevFileChecksums st)\<rparr>)"
      using True o w(1) by (simp add: writeContent_def ch_def FileChecksum_def)
    then have "r = (True, None)"
      "st' = st1\<lparr>p2f_fs := fs2, prevFileChecksums := gput (Name g) (sha256 content) (prevFileChecksums st)\<rparr>"
      using push run w(2) by simp_all
    then show ?thesis using True o w by (auto simp: quiet_def)
  qed
qed

definition file_after :: "bool \<Rightarrow> string \<Rightarrow> SecretGroup \<Rightarrow> (string \<times> nat) option \<Rightarrow> string \<times> nat" where
  "file_after ch content g old =
     (if ch then (content, FilePermissions g)
      else case old of None \<Rightarrow> ([], FilePermissions g) | Some f \<Rightarrow> f)"

abbreviation push_all ::
  "'tpl engine \<Rightarrow> (string \<Rightarrow> Checksum) \<Rightarrow> (string, Secret list) gomap \<Rightarrow> SecretGroup list \<Rightarrow> bool \<Rightarrow> p2f_state
     \<Rightarrow> (bool \<times> p2f_error option) \<times> p2f_state" where
  "push_all eng sha256 \<equiv> push_groups openFileAsWriteCloser (pushToWriter_dep eng sha256)"

definition is_changed :: "(string \<Rightarrow> Checksum) \<Rightarrow> (SecretGroup \<Rightarrow> string) \<Rightarrow> p2f_state \<Rightarrow> SecretGroup \<Rightarrow> bool" where
  "is_changed sha256 cont st g \<longleftrightarrow> ContentHasChanged (Name g) (sha256 (cont g)) (prevFileChecksums st)"

lemma unchanged_recorded:
  "\<not> is_changed sha256 cont st g \<Longrightarrow> map_of (prevFileChecksums st) (Name g) = Some (sha256 (cont g))"
  by (auto simp: is_changed_def ContentHasChanged_def split: option.splits)

text \<open>Pushing groups with distinct names and paths, on a file system without faults.\<close>

lemma push_all_quiet:
  assumes "distinct (map Name groups)" and "distinct (map FilePath groups)"
    and "quiet (p2f_fs st)" and "fresh_temps groups (p2f_fs st)"
    and "\<forall>g\<in>set groups. group_content eng (gget [] m (Name g)) g = Some (cont g)"
    and "push_all eng sha256 m groups upd st = (r, st')"
  shows "r = (upd \<or> (\<exists>g\<in>set groups. is_changed sha256 cont st g), None) \<and> quiet (p2f_fs st')
    \<and> (\<forall>g\<in>set groups. map_of (prevFileChecksums st') (Name g) = Some (sha256 (cont g))
         \<and> file_at (p2f_fs st') (FilePath g) =
             Some (file_after (is_changed sha256 cont st g) (cont g) g (file_at (p2f_fs st) (FilePath g))))
    \<and> (\<forall>p. p \<notin> FilePath ` set groups \<longrightarrow> file_at (p2f_fs st') p = file_at (p2f_fs st) p)
    \<and> (\<forall>h. h \<notin> Name ` set groups \<longrightarrow> map_of (prevFileChecksums st') h = map_of (prevFileChecksums st) h)"
  using assms
proof (induction groups arbitrary: upd st)
  case (Cons g gs)
  obtain r1 st1 where p: "PushToFile eng sha256 g (gget [] m (Name g)) st = (r1, st1)" by (metis surj_pair)
  let ?ch = "is_changed sha256 cont st g"
  have fr: "\<forall>k. file_at (p2f_fs st) (temp_for (fs_tempDir (p2f_fs st)) (FilePath g) k) = None" using Cons.prems(4) by (simp add: fresh_temps_def)
  have gc: "group_content eng (gget [] m (Name g)) g = Some (cont g)" using Cons.prems(5) by simp
  note pq = PushToFile_quiet [OF Cons.prems(3) gc fr p, folded is_changed_def]
  have run: "push_all eng sha256 m gs (if ?ch then True else upd) st1 = (r, st')"
    using Cons.prems(6) p pq by (simp add: PushToFile_def)
  have nn: "Name h \<noteq> Name g" "FilePath h \<noteq> FilePath g" if "h \<in> set gs" for h
    using Cons.prems(1,2) that by (metis distinct.simps(2) image_eqI list.set_map list.simps(9))+
  have other: "is_changed sha256 cont st1 h = is_changed sha256 cont st h" if "h \<in> set gs" for h
    using pq nn(1) [OF that] by (simp add: is_changed_def sums.changed_other)
  have "fresh_temps gs (p2f_fs st1)" using Cons.prems(4) pq by (auto simp: fresh_temps_def)
  then have ih: "r = ((if ?ch then True else upd) \<or> (\<exists>g\<in>set gs. is_changed sha256 cont st1 g), None) \<and> quiet (p2f_fs st')
    \<and> (\<forall>g\<in>set gs. map_of (prevFileChecksums st') (Name g) = Some (sha256 (cont g))
         \<and> file_at (p2f_fs st') (FilePath g) =
             Some (file_after (is_changed sha256 cont st1 g) (cont g) g (file_at (p2f_fs st1) (FilePath g))))
    \<and> (\<forall>p. p \<notin> FilePath ` set gs \<longrightarrow> file_at (p2f_fs st') p = file_at (p2f_fs st1) p)
    \<and> (\<forall>h. h \<notin> Name ` set gs \<longrightarrow> map_of (prevFileChecksums st') h = map_of (prevFileChecksums st1) h)"
    using Cons.IH [OF _ _ _ _ _ run] Cons.prems(1,2,5) pq by simp
  have gg: "FilePath g \<notin> FilePath ` set gs" "Name g \<notin> Name ` set gs" using Cons.prems(1,2) by auto
  have head: "map_of (prevFileChecksums st') (Name g) = Some (sha256 (cont g))
      \<and> file_at (p2f_fs st') (FilePath g) = Some (file_after ?ch (cont g) g (file_at (p2f_fs st) (FilePath g)))"
    using ih gg pq unchanged_recorded [of sha256 cont st g] by (auto simp: file_after_def split: option.splits)
  show ?case
    using ih head pq nn other by auto
qed simp

lemma fetched_ok:
  assumes "range_order_ok rt" and "gwf vals" and "distinct (map Name groups)"
    and "retrieve (getAllPaths rt groups) = Inr vals"
    and "\<forall>g\<in>set groups. specs_present vals (SecretSpecs g)"
  obtains m where "fst (FetchSecretsForGroups rt retrieve groups) = Inr m"
    and "\<forall>g\<in>set groups. gget [] m (Name g) = group_secrets vals g"
proof (cases "fetch_groups rt vals groups []")
  case (Inl e)
  then show ?thesis using fetch_groups_error [OF assms(1,2) Inl] assms(5) by blast
next
  case (Inr m)
  then show ?thesis
    using that [of m] fetch_groups_ok [OF assms(1,2,3) Inr] assms(4) by (simp add: FetchSecretsForGroups_def)
qed

lemma remove_files_quiet:
  assumes "quiet (p2f_fs st)"
  shows "quiet (p2f_fs (remove_files groups st)) \<and> fs_tempDir (p2f_fs (remove_files groups st)) = fs_tempDir (p2f_fs st)
    \<and> (\<forall>p. file_at (p2f_fs (remove_files groups st)) p = (if p \<in> FilePath ` set groups then None else file_at (p2f_fs st) p))
    \<and> prevFileChecksums (remove_files groups st) = prevFileChecksums st"
  using assms
proof (induction groups arbitrary: st)
  case (Cons g gs)
  let ?st = "st\<lparr>p2f_fs := snd (os_remove (FilePath g) (p2f_fs st))\<rparr>"
  have "quiet (p2f_fs ?st) \<and> fs_tempDir (p2f_fs ?st) = fs_tempDir (p2f_fs st)
     \<and> (\<forall>p. file_at (p2f_fs ?st) p = (if p = FilePath g then None else file_at (p2f_fs st) p))"
    using Cons.prems
    by (cases "file_at (p2f_fs st) (FilePath g)") (auto simp: quiet_def os_remove_def fault_def)
  then show ?case using Cons.IH [of ?st] by (simp add: remove_files_def)
qed (simp add: remove_files_def)

section \<open>Properties\<close>

text \<open>
  (C15) What is fetched: when the retrieved values cover every specification of every group, each
  group gets exactly its secrets, in the order of its specifications (all values sorted by path
  for a star), under their aliases and decoded where base64 content is declared; when a value is
  missing, the error is CSPFK068E for a path without a value. Either way the fetched values are
  zeroed in memory.
\<close>

theorem fetch_gives_each_group_its_secrets:
  assumes "range_order_ok rt" and "gwf vals" and "distinct (map Name groups)"
    and "retrieve (getAllPaths rt groups) = Inr vals"
    and "FetchSecretsForGroups rt retrieve groups = (res, mem)"
  shows "(case res of
            Inr m \<Rightarrow> (\<forall>g\<in>set groups. specs_present vals (SecretSpecs g) \<and> gget [] m (Name g) = group_secrets vals g)
          | Inl e \<Rightarrow> (\<exists>g\<in>set groups. \<exists>p. \<not> specs_present vals (SecretSpecs g) \<and> \<not> ghas vals p
                          \<and> e = CSPFK068E p (Name g)))
     \<and> map fst mem = map fst vals \<and> (\<forall>(k, v)\<in>set mem. \<forall>c\<in>set v. c = CHR 0x00)"
proof -
  have res: "res = fetch_groups rt vals groups []" and mem: "mem = clear_values vals"
    using assms(4,5) by (simp_all add: FetchSecretsForGroups_def)
  have "map fst mem = map fst vals \<and> (\<forall>(k, v)\<in>set mem. \<forall>c\<in>set v. c = CHR 0x00)"
    by (auto simp: mem clear_values_def)
  moreover have "case res of
            Inr m \<Rightarrow> (\<forall>g\<in>set groups. specs_present vals (SecretSpecs g) \<and> gget [] m (Name g) = group_secrets vals g)
          | Inl e \<Rightarrow> (\<exists>g\<in>set groups. \<exists>p. \<not> specs_present vals (SecretSpecs g) \<and> \<not> ghas vals p
                          \<and> e = CSPFK068E p (Name g))"
  proof (cases "fetch_groups rt vals groups []")
    case (Inl e)
    then show ?thesis using fetch_groups_error [OF assms(1,2) Inl] by (auto simp: res)
  next
    case (Inr m)
    then show ?thesis using fetch_groups_ok [OF assms(1-3) Inr] by (simp add: res)
  qed
  ultimately show ?thesis by blast
qed

definition demo_vals :: "(string, string) gomap" where
  "demo_vals = [(''web/key'', ''k3y''), (''db/pw'', ''s3cret'')]"

definition demo_contents :: "SecretGroup \<Rightarrow> string" where
  "demo_contents g = yamlTemplate @ (if Name g = ''db'' then ''s3cret'' else ''k3y'')"

lemma demo_basic:
  "gwf demo_vals" "distinct (map Name demo_groups)" "distinct (map FilePath demo_groups)"
  "\<forall>g\<in>set demo_groups. specs_present demo_vals (SecretSpecs g)"
  "\<forall>g\<in>set demo_groups. group_content demo_engine (group_secrets demo_vals g) g = Some (demo_contents g)"
  by code_simp+

lemma demo_quiet: "quiet (p2f_fs demo_state)" "prevFileChecksums demo_state = []"
  by (simp_all add: quiet_def demo_state_def demo_fs_def)

lemma demo_fresh: "fresh_temps demo_groups (p2f_fs demo_state)"
  by (simp add: fresh_temps_def temp_for_plain demo_groups_def demo_state_def demo_fs_def)

theorem fetch_gives_each_group_its_secrets_witness:
  "\<exists>m. fst (FetchSecretsForGroups (\<lambda>_ ks. ks) (\<lambda>_. Inr demo_vals) demo_groups) = Inr m
     \<and> (\<forall>g\<in>set demo_groups. gget [] m (Name g) = group_secrets demo_vals g)"
proof -
  obtain res mem where f: "FetchSecretsForGroups (\<lambda>_ ks. ks) (\<lambda>_. Inr demo_vals) demo_groups = (res, mem)"
    by (metis surj_pair)
  show ?thesis
    using fetch_gives_each_group_its_secrets [OF range_order_id demo_basic(1,2) _ f] demo_basic(4) f
    by (cases res) auto
qed

text \<open>
  (C4) A first run installs every group's file: when the values are there, every group renders and
  no system call fails, Provide reports an update (if there is a group at all) and no error, every
  group's file holds exactly the rendered content with the group's permissions, and no other file
  changes.
\<close>

theorem provide_installs_rendered_files:
  assumes "range_order_ok rt" and "gwf vals" and "distinct (map Name (secretGroups p))"
    and "distinct (map FilePath (secretGroups p))"
    and "retrieveSecretsFunc p (getAllPaths rt (secretGroups p)) = Inr vals"
    and "\<forall>g\<in>set (secretGroups p). specs_present vals (SecretSpecs g)"
    and "\<forall>g\<in>set (secretGroups p). group_content eng (group_secrets vals g) g = Some (cont g)"
    and "quiet (p2f_fs st)" and "fresh_temps (secretGroups p) (p2f_fs st)" and "prevFileChecksums st = []"
  shows "\<exists>st'. Provide rt eng sha256 p st = ((secretGroups p \<noteq> [], None), st')
     \<and> (\<forall>g\<in>set (secretGroups p). file_at (p2f_fs st') (FilePath g) = Some (cont g, FilePermissions g))
     \<and> (\<forall>q. q \<notin> FilePath ` set (secretGroups p) \<longrightarrow> file_at (p2f_fs st') q = file_at (p2f_fs st) q)"
proof -
  obtain m where m: "fst (FetchSecretsForGroups rt (retrieveSecretsFunc p) (secretGroups p)) = Inr m"
    and sec: "\<forall>g\<in>set (secretGroups p). gget [] m (Name g) = group_secrets vals g"
    using fetched_ok [where retrieve = "retrieveSecretsFunc p", OF assms(1,2,3,5,6)] .
  obtain r st' where run: "push_all eng sha256 m (secretGroups p) False st = (r, st')" by (metis surj_pair)
  have prov: "Provide rt eng sha256 p st = (r, st')" using m run by (simp add: Provide_def provideWithDeps_def)
  have ch: "is_changed sha256 cont st g" for g using assms(10) by (simp add: is_changed_def ContentHasChanged_def)
  have gc: "\<forall>g\<in>set (secretGroups p). group_content eng (gget [] m (Name g)) g = Some (cont g)"
    using assms(7) sec by simp
  have "(\<exists>g\<in>set (secretGroups p). is_changed sha256 cont st g) \<longleftrightarrow> secretGroups p \<noteq> []"
    using ch by (cases "secretGroups p") auto
  then show ?thesis
    using push_all_quiet [OF assms(3,4,8,9) gc run] ch prov by (simp add: file_after_def)
qed

definition demo_provider :: "(gerror + (string, string) gomap) \<Rightarrow> fileProvider" where
  "demo_provider r = \<lparr>retrieveSecretsFunc = (\<lambda>_. r), secretGroups = demo_groups, sanitizeEnabled = True\<rparr>"

theorem provide_installs_rendered_files_witness:
  "\<exists>st'. Provide (\<lambda>_ ks. ks) demo_engine (\<lambda>x. x) (demo_provider (Inr demo_vals)) demo_state = ((True, None), st')
     \<and> file_at (p2f_fs st') ''/s/db.yaml'' = Some (yamlTemplate @ ''s3cret'', 416)"
proof -
  have ne: "demo_groups \<noteq> []" and mem: "\<exists>g\<in>set demo_groups. FilePath g = ''/s/db.yaml''
      \<and> demo_contents g = yamlTemplate @ ''s3cret'' \<and> FilePermissions g = 416"
    by (simp_all add: demo_groups_def demo_contents_def)
  show ?thesis
    using provide_installs_rendered_files [of "\<lambda>_ ks. ks" demo_vals "demo_provider (Inr demo_vals)" demo_engine
        demo_contents demo_state "\<lambda>x. x"] range_order_id demo_basic demo_quiet demo_fresh ne mem
    by (fastforce simp: demo_provider_def)
qed

text \<open>
  (C23) A run with unchanged values is silent: when the checksum of every group's content is the
  recorded one and its file exists, Provide reports no update and no error, and not a single file
  or checksum changes.
\<close>

theorem provide_unchanged_is_silent:
  assumes "range_order_ok rt" and "gwf vals" and "distinct (map Name (secretGroups p))"
    and "distinct (map FilePath (secretGroups p))"
    and "retrieveSecretsFunc p (getAllPaths rt (secretGroups p)) = Inr vals"
    and "\<forall>g\<in>set (secretGroups p). specs_present vals (SecretSpecs g)"
    and "\<forall>g\<in>set (secretGroups p). group_content eng (group_secrets vals g) g = Some (cont g)"
    and "quiet (p2f_fs st)" and "fresh_temps (secretGroups p) (p2f_fs st)"
    and "\<forall>g\<in>set (secretGroups p). map_of (prevFileChecksums st) (Name g) = Some (sha256 (cont g))
           \<and> file_at (p2f_fs st) (FilePath g) \<noteq> None"
  shows "\<exists>st'. Provide rt eng sha256 p st = ((False, None), st')
     \<and> (\<forall>q. file_at (p2f_fs st') q = file_at (p2f_fs st) q)
     \<and> map_of (prevFileChecksums st') = map_of (prevFileChecksums st)"
proof -
  obtain m where m: "fst (FetchSecretsForGroups rt (retrieveSecretsFunc p) (secretGroups p)) = Inr m"
    and sec: "\<forall>g\<in>set (secretGroups p). gget [] m (Name g) = group_secrets vals g"
    using fetched_ok [where retrieve = "retrieveSecretsFunc p", OF assms(1,2,3,5,6)] .
  obtain r st' where run: "push_all eng sha256 m (secretGroups p) False st = (r, st')" by (metis surj_pair)
  have prov: "Provide rt eng sha256 p st = (r, st')" using m run by (simp add: Provide_def provideWithDeps_def)
  have ch: "\<not> is_changed sha256 cont st g" if "g \<in> set (secretGroups p)" for g
    using assms(10) that by (simp add: is_changed_def ContentHasChanged_def)
  have gc: "\<forall>g\<in>set (secretGroups p). group_content eng (gget [] m (Name g)) g = Some (cont g)"
    using assms(7) sec by simp
  note pq = push_all_quiet [OF assms(3,4,8,9) gc run]
  have "file_at (p2f_fs st') q = file_at (p2f_fs st) q" for q
    using pq ch assms(10) by (cases "q \<in> FilePath ` set (secretGroups p)") (auto simp: file_after_def)
  moreover have "map_of (prevFileChecksums st') h = map_of (prevFileChecksums st) h" for h
    using pq assms(10) by (cases "h \<in> Name ` set (secretGroups p)") auto
  ultimately show ?thesis using prov pq ch by auto
qed

definition demo_synced :: p2f_state where
  "demo_synced = \<lparr>p2f_fs = demo_fs\<lparr>fs_files := map (\<lambda>g. (FilePath g, (demo_contents g, FilePermissions g))) demo_groups\<rparr>,
     prevFileChecksums = map (\<lambda>g. (Name g, demo_contents g)) demo_groups\<rparr>"

lemma demo_synced_facts:
  "quiet (p2f_fs demo_synced)" "fresh_temps demo_groups (p2f_fs demo_synced)"
  "\<forall>g\<in>set demo_groups. map_of (prevFileChecksums demo_synced) (Name g) = Some (demo_contents g)
     \<and> file_at (p2f_fs demo_synced) (FilePath g) \<noteq> None"
  by (simp_all add: quiet_def demo_fs_def fresh_temps_def temp_for_plain demo_groups_def demo_synced_def)

theorem provide_unchanged_is_silent_witness:
  "\<exists>st'. Provide (\<lambda>_ ks. ks) demo_engine (\<lambda>x. x) (demo_provider (Inr demo_vals)) demo_synced = ((False, None), st')
     \<and> (\<forall>q. file_at (p2f_fs st') q = file_at (p2f_fs demo_synced) q)"
  using provide_unchanged_is_silent [of "\<lambda>_ ks. ks" demo_vals "demo_provider (Inr demo_vals)" demo_engine
      demo_contents demo_synced "\<lambda>x. x"] range_order_id demo_basic demo_synced_facts
  by (auto simp: demo_provider_def)

text \<open>
  What a failed run leaves: the error of the fetch, and, if the files are given up, an update is
  reported and every group's file is gone; nothing else changes.
\<close>

definition run_failed :: "fileProvider \<Rightarrow> p2f_state \<Rightarrow> bool \<Rightarrow> gerror \<Rightarrow> bool \<times> p2f_error option \<Rightarrow> p2f_state \<Rightarrow> bool" where
  "run_failed p st gone err r st' \<longleftrightarrow>
     r = (gone, Some (FetchFailed err)) \<and> prevFileChecksums st' = prevFileChecksums st
     \<and> (\<forall>q. file_at (p2f_fs st') q = (if gone \<and> q \<in> FilePath ` set (secretGroups p) then None else file_at (p2f_fs st) q))"

lemma Provide_fetch_failed:
  assumes "fst (FetchSecretsForGroups rt (retrieveSecretsFunc p) (secretGroups p)) = Inl err"
    and "quiet (p2f_fs st)" and "Provide rt eng sha256 p st = (r, st')"
  shows "run_failed p st (access_revoked err \<and> sanitizeEnabled p) err r st'"
  using assms remove_files_quiet [OF assms(2), of "secretGroups p"]
  by (auto simp: run_failed_def Provide_def provideWithDeps_def split: if_splits)

text \<open>
  (C18) A failed run: if Conjur could not be asked then, with sanitizing enabled, every group's
  file is removed exactly if the text of the error mentions 403, 404 or CSPFK068E; if Conjur
  answered but the answer has no value for some specification then the error is CSPFK068E, and
  every group's file is removed exactly if sanitizing is enabled, those of complete groups
  included. An update is reported together with the error exactly if the files are removed; no
  other file and no checksum changes.
\<close>

theorem failed_fetch_sanitizes:
  assumes "quiet (p2f_fs st)" and "Provide rt eng sha256 p st = (r, st')"
  shows "(\<forall>err. retrieveSecretsFunc p (getAllPaths rt (secretGroups p)) = Inl err \<longrightarrow>
       run_failed p st
         (sanitizeEnabled p \<and> (sublist ''403'' err \<or> sublist ''404'' err \<or> sublist ''CSPFK068E'' err)) err r st')
   \<and> (\<forall>vals. range_order_ok rt \<and> gwf vals \<and> distinct (map Name (secretGroups p))
         \<and> retrieveSecretsFunc p (getAllPaths rt (secretGroups p)) = Inr vals
         \<and> (\<exists>g\<in>set (secretGroups p). \<not> specs_present vals (SecretSpecs g)) \<longrightarrow>
       (\<exists>path g. g \<in> set (secretGroups p) \<and> \<not> ghas vals path
          \<and> run_failed p st (sanitizeEnabled p) (CSPFK068E path (Name g)) r st'))"
proof (intro conjI allI impI)
  fix err
  assume "retrieveSecretsFunc p (getAllPaths rt (secretGroups p)) = Inl err"
  then have "fst (FetchSecretsForGroups rt (retrieveSecretsFunc p) (secretGroups p)) = Inl err"
    by (simp add: FetchSecretsForGroups_def)
  from Provide_fetch_failed [OF this assms]
  show "run_failed p st
      (sanitizeEnabled p \<and> (sublist ''403'' err \<or> sublist ''404'' err \<or> sublist ''CSPFK068E'' err)) err r st'"
    by (simp add: access_revoked_def Contains_sublist conj_commute)
next
  fix vals
  assume a: "range_order_ok rt \<and> gwf vals \<and> distinct (map Name (secretGroups p))
      \<and> retrieveSecretsFunc p (getAllPaths rt (secretGroups p)) = Inr vals
      \<and> (\<exists>g\<in>set (secretGroups p). \<not> specs_present vals (SecretSpecs g))"
  then have fetch: "fst (FetchSecretsForGroups rt (retrieveSecretsFunc p) (secretGroups p)) = fetch_groups rt vals (secretGroups p) []"
    by (simp add: FetchSecretsForGroups_def)
  obtain err where err: "fetch_groups rt vals (secretGroups p) [] = Inl err"
    using a fetch_groups_ok [of rt vals "secretGroups p" "[]"] by (cases "fetch_groups rt vals (secretGroups p) []") auto
  obtain g path where g: "g \<in> set (secretGroups p)" "\<not> ghas vals path" "err = CSPFK068E path (Name g)"
    using fetch_groups_error [OF _ _ err] a by blast
  have "Contains err ''CSPFK068E''"
    by (simp add: g(3) CSPFK068E_def HasPrefix_def)
  with Provide_fetch_failed [OF fetch [unfolded err] assms] g
  show "\<exists>path g. g \<in> set (secretGroups p) \<and> \<not> ghas vals path
      \<and> run_failed p st (sanitizeEnabled p) (CSPFK068E path (Name g)) r st'"
    by (auto simp: access_revoked_def)
qed

theorem failed_fetch_sanitizes_witness:
  "file_at (p2f_fs (snd (Provide (\<lambda>_ ks. ks) demo_engine (\<lambda>x. x) (demo_provider (Inl ''403 Forbidden'')) demo_synced)))
     ''/s/db.yaml'' = None
   \<and> file_at (p2f_fs (snd (Provide (\<lambda>_ ks. ks) demo_engine (\<lambda>x. x) (demo_provider (Inr [(''web/key'', ''k3y'')])) demo_synced)))
     ''/s/db.yaml'' = None"
proof -
  let ?run = "\<lambda>res. Provide (\<lambda>_ ks. ks) demo_engine (\<lambda>x. x) (demo_provider res) demo_synced"
  note facts = failed_fetch_sanitizes [OF demo_synced_facts(1) prod.collapse [symmetric]]
  have path: "''/s/db.yaml'' \<in> FilePath ` set demo_groups" by (simp add: demo_groups_def)
  have "sublist ''403'' ''403 Forbidden''" unfolding Contains_sublist [symmetric] by code_simp
  then have 1: "run_failed (demo_provider (Inl ''403 Forbidden'')) demo_synced True ''403 Forbidden''
      (fst (?run (Inl ''403 Forbidden''))) (snd (?run (Inl ''403 Forbidden'')))"
    using conjunct1 [OF facts [where rt = "\<lambda>_ ks. ks" and eng = demo_engine and ?sha256.0 = "\<lambda>x. x" and p = "demo_provider (Inl ''403 Forbidden'')"]] by (simp add: demo_provider_def)
  have missing: "gwf [(''web/key'', ''k3y'')]" "\<exists>g\<in>set demo_groups. \<not> specs_present [(''web/key'', ''k3y'')] (SecretSpecs g)"
    by code_simp+
  have 2: "\<exists>err. run_failed (demo_provider (Inr [(''web/key'', ''k3y'')])) demo_synced True err
      (fst (?run (Inr [(''web/key'', ''k3y'')]))) (snd (?run (Inr [(''web/key'', ''k3y'')])))"
    using conjunct2 [OF facts [where rt = "\<lambda>_ ks. ks" and eng = demo_engine and ?sha256.0 = "\<lambda>x. x" and p = "demo_provider (Inr [(''web/key'', ''k3y'')])"]] missing range_order_id demo_basic(2)
    by (fastforce simp: demo_provider_def)
  show ?thesis using 1 2 path by (auto simp: run_failed_def demo_provider_def)
qed

text \<open>
  (C35) Removing the files does not forget their checksums. So when access comes back with the same
  values, Provide takes the content for unchanged, creates each missing file and writes nothing:
  every group's file is empty afterwards, while no error and no update are reported.
\<close>

theorem restored_access_leaves_empty_files:
  assumes "range_order_ok rt" and "gwf vals" and "distinct (map Name groups)" and "distinct (map FilePath groups)"
    and "fst (FetchSecretsForGroups rt revoked groups) = Inl err" and "access_revoked err"
    and "restored (getAllPaths rt groups) = Inr vals"
    and "\<forall>g\<in>set groups. specs_present vals (SecretSpecs g)"
    and "\<forall>g\<in>set groups. group_content eng (group_secrets vals g) g = Some (cont g)"
    and "quiet (p2f_fs st)" and "fresh_temps groups (p2f_fs st)"
    and "\<forall>g\<in>set groups. map_of (prevFileChecksums st) (Name g) = Some (sha256 (cont g))"
  shows "\<exists>st1 st2.
     Provide rt eng sha256 \<lparr>retrieveSecretsFunc = revoked, secretGroups = groups, sanitizeEnabled = True\<rparr> st
       = ((True, Some (FetchFailed err)), st1)
   \<and> Provide rt eng sha256 \<lparr>retrieveSecretsFunc = restored, secretGroups = groups, sanitizeEnabled = True\<rparr> st1
       = ((False, None), st2)
   \<and> (\<forall>g\<in>set groups. file_at (p2f_fs st2) (FilePath g) = Some ([], FilePermissions g))"
proof -
  let ?st1 = "remove_files groups st"
  note rm = remove_files_quiet [OF assms(10), of groups]
  have first: "Provide rt eng sha256 \<lparr>retrieveSecretsFunc = revoked, secretGroups = groups, sanitizeEnabled = True\<rparr> st
      = ((True, Some (FetchFailed err)), ?st1)"
    using assms(5,6) by (simp add: Provide_def provideWithDeps_def)
  obtain m where m: "fst (FetchSecretsForGroups rt restored groups) = Inr m"
    and sec: "\<forall>g\<in>set groups. gget [] m (Name g) = group_secrets vals g"
    using fetched_ok [where retrieve = restored, OF assms(1,2,3,7,8)] .
  obtain r st2 where run: "push_all eng sha256 m groups False ?st1 = (r, st2)" by (metis surj_pair)
  have second: "Provide rt eng sha256 \<lparr>retrieveSecretsFunc = restored, secretGroups = groups, sanitizeEnabled = True\<rparr> ?st1
      = (r, st2)"
    using m run by (simp add: Provide_def provideWithDeps_def)
  have gc: "\<forall>g\<in>set groups. group_content eng (gget [] m (Name g)) g = Some (cont g)"
    using assms(9) sec by simp
  have fr: "fresh_temps groups (p2f_fs ?st1)" using assms(11) rm by (simp add: fresh_temps_def)
  have ch: "\<not> is_changed sha256 cont ?st1 g" if "g \<in> set groups" for g
    using assms(12) rm that by (simp add: is_changed_def ContentHasChanged_def)
  show ?thesis
    using first second push_all_quiet [OF assms(3,4) _ fr gc run] rm ch by (auto simp: file_after_def)
qed

theorem restored_access_leaves_empty_files_witness:
  "\<exists>st1 st2. Provide (\<lambda>_ ks. ks) demo_engine (\<lambda>x. x) (demo_provider (Inl ''403 Forbidden'')) demo_synced
       = ((True, Some (FetchFailed ''403 Forbidden'')), st1)
   \<and> Provide (\<lambda>_ ks. ks) demo_engine (\<lambda>x. x) (demo_provider (Inr demo_vals)) st1 = ((False, None), st2)
   \<and> file_at (p2f_fs st2) ''/s/db.yaml'' = Some ([], 416)"
proof -
  have f: "fst (FetchSecretsForGroups (\<lambda>_ ks. ks) (\<lambda>_. Inl ''403 Forbidden'') demo_groups) = Inl ''403 Forbidden''"
    by (simp add: FetchSecretsForGroups_def)
  have a: "access_revoked ''403 Forbidden''" by code_simp
  have g: "\<exists>g\<in>set demo_groups. FilePath g = ''/s/db.yaml'' \<and> FilePermissions g = 416" by (simp add: demo_groups_def)
  have c: "\<forall>g\<in>set demo_groups. map_of (prevFileChecksums demo_synced) (Name g) = Some (demo_contents g)"
    using demo_synced_facts(3) by blast
  show ?thesis
    using restored_access_leaves_empty_files [where ?sha256.0 = "\<lambda>x. x", OF range_order_id demo_basic(1-3) f a _ demo_basic(4,5)
        demo_synced_facts(1,2) c, of "\<lambda>_. Inr demo_vals"] g
    unfolding demo_provider_def by fastforce
qed

end
