(* ===== verification/K8s_Informer.thy ===== *)
theory K8s_Informer
  imports K8s_Provider
begin

text \<open>
  Package k8sinformer (secret\_informer.go, notifier.go, k8s\_client.go): watching the Secrets of a
  namespace. The handlers decide which additions and updates matter and queue an event for each;
  a worker takes the events from the queue and hands them to a notifier, which sends them to the
  provider's loop. The work queue and the shared informer belong to the client library: the queue
  is a parameter with the laws of a FIFO queue, the informer appears as the objects it passes to
  the handlers and as the answers of HasSynced, AddEventHandler and WaitForCacheSync.
\<close>

section \<open>Events\<close>

definition SecretEventTypeAdd :: string where "SecretEventTypeAdd = ''added''"
definition SecretEventTypeUpdate :: string where "SecretEventTypeUpdate = ''updated''"

record SecretEvent =
  se_Secret :: v1_secret
  se_OldSecret :: "v1_secret option"
  se_EventType :: string

text \<open>What the informer passes to a handler: a Secret, or an object of another type.\<close>

datatype informer_object = SecretObj v1_secret | OtherObj

text \<open>A notifier takes an event and says whether it was sent.\<close>

type_synonym 'n SecretEventNotifier = "SecretEvent \<Rightarrow> 'n \<Rightarrow> bool outcome \<times> 'n"

text \<open>
  The work queue of the client library. Get answers nothing while it blocks, no event once the
  queue is shut down and empty, and the oldest event otherwise.
\<close>

record 'q workqueue =
  wq_Add :: "SecretEvent \<Rightarrow> 'q \<Rightarrow> 'q"
  wq_Get :: "'q \<Rightarrow> (SecretEvent option \<times> 'q) option"
  wq_Done :: "SecretEvent \<Rightarrow> 'q \<Rightarrow> 'q"
  wq_ShutDown :: "'q \<Rightarrow> 'q"

text \<open>
  Its documented behaviour. The queue drops an item that equals a waiting one; events hold
  pointers to fresh copies, so no two of them are equal and every event is kept.
\<close>

definition fifo_queue :: "'q workqueue \<Rightarrow> ('q \<Rightarrow> SecretEvent list) \<Rightarrow> ('q \<Rightarrow> bool) \<Rightarrow> bool" where
  "fifo_queue wq items shut \<longleftrightarrow>
     (\<forall>e q. items (wq_Add wq e q) = (if shut q then items q else items q @ [e]) \<and> shut (wq_Add wq e q) = shut q) \<and>
     (\<forall>q e es. items q = e # es \<longrightarrow>
        (\<exists>q'. wq_Get wq q = Some (Some e, q') \<and> items q' = es \<and> shut q' = shut q)) \<and>
     (\<forall>q. items q = [] \<longrightarrow>
        (if shut q then \<exists>q'. wq_Get wq q = Some (None, q') \<and> items q' = [] \<and> shut q' else wq_Get wq q = None)) \<and>
     (\<forall>e q. items (wq_Done wq e q) = items q \<and> shut (wq_Done wq e q) = shut q) \<and>
     (\<forall>q. items (wq_ShutDown wq q) = items q \<and> shut (wq_ShutDown wq q))"

section \<open>notifier.go\<close>

text \<open>
  The events channel has a capacity; the state of the channel is the list of buffered events. The
  flag tells whether the receiver takes an event from a full channel within three seconds.
\<close>

record ChannelNotifier =
  eventsChan :: "nat option"

definition NewChannelNotifier :: "nat option \<Rightarrow> ChannelNotifier" where
  "NewChannelNotifier chan = \<lparr>eventsChan = chan\<rparr>"

definition NotifySecretEvent ::
  "ChannelNotifier \<Rightarrow> SecretEvent \<Rightarrow> bool \<times> SecretEvent list \<Rightarrow> bool outcome \<times> bool \<times> SecretEvent list" where
  "NotifySecretEvent n event ch =
     (case ch of (drained, buf) \<Rightarrow>
       (case eventsChan n of
          None \<Rightarrow> (Ret False, drained, buf)
        | Some cap \<Rightarrow>
            if length buf < cap then (Ret True, drained, buf @ [event])
            else if drained then (Ret True, drained, tl buf @ [event])
            else (Ret False, drained, buf)))"

section \<open>k8s\_client.go\<close>

definition NewInClusterK8sClient :: "'w kube_api \<Rightarrow> 'w \<Rightarrow> gerror + unit" where
  "NewInClusterK8sClient api w =
     (case InClusterConfig api w of
        Some err \<Rightarrow> Inl err
      | None \<Rightarrow> (case NewForConfig api w of Some err \<Rightarrow> Inl err | None \<Rightarrow> Inr ()))"

section \<open>secret\_informer.go\<close>

text \<open>
  The state: the factory and the informer are either created or nil, HasSynced is what the
  informer answers, and the worker is either running or not.
\<close>

record ('q, 'n) SecretInformer =
  si_namespace :: string
  si_notifier :: "'n SecretEventNotifier option"
  si_factory :: bool
  si_informer :: bool
  si_synced :: bool
  si_stopCh_closed :: bool
  si_queue :: 'q
  si_stopped :: bool
  si_worker :: bool

definition CSPFK076E :: string where "CSPFK076E = ''CSPFK076E Secret informer requires a notifier to send event''"
definition CSPFK078E :: "string \<Rightarrow> string" where
  "CSPFK078E e = ''CSPFK078E Secret informer failed to add event handler: '' @ e"
definition CSPFK082E :: string where
  "CSPFK082E = ''CSPFK082E Secret informer failed to send event using notifier''"

definition NewSecretInformer :: "'q \<Rightarrow> string \<Rightarrow> 'n SecretEventNotifier option \<Rightarrow> ('q, 'n) SecretInformer" where
  "NewSecretInformer queue namespace notifier =
     \<lparr>si_namespace = namespace, si_notifier = notifier, si_factory = False, si_informer = False, si_synced = False,
      si_stopCh_closed = False, si_queue = queue, si_stopped = False, si_worker = False\<rparr>"

definition hasManagedByProviderLabel :: "v1_secret option \<Rightarrow> bool" where
  "hasManagedByProviderLabel secret =
     (case secret of
        None \<Rightarrow> False
      | Some s \<Rightarrow>
          if sec_Labels s = [] then False
          else (case ParseBool (gget [] (sec_Labels s) ManagedByProviderKey) of
                  None \<Rightarrow> False | Some boolVal \<Rightarrow> boolVal))"

definition onAdd :: "'q workqueue \<Rightarrow> informer_object \<Rightarrow> ('q, 'n) SecretInformer \<Rightarrow> ('q, 'n) SecretInformer" where
  "onAdd wq obj si =
     (if \<not> si_informer si \<or> \<not> si_synced si then si
      else case obj of
        OtherObj \<Rightarrow> si
      | SecretObj secret \<Rightarrow>
          if hasManagedByProviderLabel (Some secret) then
            (let event = \<lparr>se_Secret = secret, se_OldSecret = None, se_EventType = SecretEventTypeAdd\<rparr>
             in si\<lparr>si_queue := wq_Add wq event (si_queue si)\<rparr>)
          else si)"

definition conjurMapChanged :: "v1_secret \<Rightarrow> v1_secret \<Rightarrow> bool" where
  "conjurMapChanged oldSecret newSecret =
     (let oldDataNil = (sec_Data oldSecret = None); newDataNil = (sec_Data newSecret = None) in
      if oldDataNil \<or> newDataNil then oldDataNil \<noteq> newDataNil
      else
        let oldMap = gget [] (data_of oldSecret) ConjurMapKey;
            newMap = gget [] (data_of newSecret) ConjurMapKey
        in if length oldMap \<noteq> length newMap then True
           else list_ex (\<lambda>i. oldMap ! i \<noteq> newMap ! i) [0..<length oldMap])"

definition labelsChanged :: "v1_secret \<Rightarrow> v1_secret \<Rightarrow> bool" where
  "labelsChanged oldSecret newSecret =
     (hasManagedByProviderLabel (Some oldSecret) \<noteq> hasManagedByProviderLabel (Some newSecret))"

definition isRelevantAnnotation :: "string \<Rightarrow> bool" where
  "isRelevantAnnotation key \<longleftrightarrow> HasPrefix key SecretGroupPrefix \<or> HasPrefix key SecretGroupFileTemplatePrefix"

definition relevantAnnotationsChanged :: "v1_secret \<Rightarrow> v1_secret \<Rightarrow> bool" where
  "relevantAnnotationsChanged oldSecret newSecret =
     (let oldAnnotations = sec_Annotations oldSecret;
          newAnnotations = sec_Annotations newSecret;
          note_key = (\<lambda>key m. if isRelevantAnnotation key then gput key True m else m);
          relevantKeys = fold note_key (gkeys newAnnotations) (fold note_key (gkeys oldAnnotations) [])
      in if oldAnnotations = [] \<and> newAnnotations = [] then False
         else list_ex (\<lambda>key. gget [] oldAnnotations key \<noteq> gget [] newAnnotations key) (gkeys relevantKeys))"

definition onUpdate ::
  "'q workqueue \<Rightarrow> informer_object \<Rightarrow> informer_object \<Rightarrow> ('q, 'n) SecretInformer \<Rightarrow> ('q, 'n) SecretInformer" where
  "onUpdate wq oldObj newObj si =
     (if \<not> si_informer si \<or> \<not> si_synced si then si
      else case (newObj, oldObj) of
        (SecretObj newSecret, SecretObj oldSecret) \<Rightarrow>
          if \<not> hasManagedByProviderLabel (Some newSecret) then si
          else if conjurMapChanged oldSecret newSecret \<or> labelsChanged oldSecret newSecret
              \<or> relevantAnnotationsChanged oldSecret newSecret then
            (let event = \<lparr>se_Secret = newSecret, se_OldSecret = Some oldSecret, se_EventType = SecretEventTypeUpdate\<rparr>
             in si\<lparr>si_queue := wq_Add wq event (si_queue si)\<rparr>)
          else si
      | _ \<Rightarrow> si)"

subsection \<open>The worker\<close>

definition processEvent :: "'n SecretEventNotifier option \<Rightarrow> SecretEvent \<Rightarrow> 'n \<Rightarrow> gerror option outcome \<times> 'n" where
  "processEvent notifier event n =
     (case notifier of
        None \<Rightarrow> (Panic, n)
      | Some notify \<Rightarrow>
          (case notify event n of
             (Panic, n1) \<Rightarrow> (Panic, n1)
           | (Ret sent, n1) \<Rightarrow> (Ret (if \<not> sent then Some CSPFK082E else None), n1)))"

text \<open>Nothing while Get blocks; the deferred Done runs after a panic too.\<close>

definition processNextItem ::
  "'q workqueue \<Rightarrow> ('q, 'n) SecretInformer \<Rightarrow> 'n \<Rightarrow> (bool outcome \<times> ('q, 'n) SecretInformer \<times> 'n) option" where
  "processNextItem wq si n =
     (case wq_Get wq (si_queue si) of
        None \<Rightarrow> None
      | Some (None, q1) \<Rightarrow> Some (Ret False, si\<lparr>si_queue := q1\<rparr>, n)
      | Some (Some item, q1) \<Rightarrow>
          (case processEvent (si_notifier si) item n of
             (r, n1) \<Rightarrow>
               Some (case r of Panic \<Rightarrow> Panic | Ret _ \<Rightarrow> Ret True, si\<lparr>si_queue := wq_Done wq item q1\<rparr>, n1)))"

text \<open>
  The loop ends when the queue is shut down and empty, or with the first panic, from which it
  recovers; it has no result while Get blocks forever.
\<close>

partial_function (option) runWorker ::
  "'q workqueue \<Rightarrow> ('q, 'n) SecretInformer \<Rightarrow> 'n \<Rightarrow> (('q, 'n) SecretInformer \<times> 'n) option" where
  "runWorker wq si n =
     (case processNextItem wq si n of
        None \<Rightarrow> None
      | Some (r, si1, n1) \<Rightarrow>
          if r = Ret True then runWorker wq si1 n1 else Some (si1\<lparr>si_worker := False\<rparr>, n1))"

subsection \<open>Starting and stopping\<close>

definition Start :: "gerror option \<Rightarrow> ('q, 'n) SecretInformer \<Rightarrow> gerror option \<times> ('q, 'n) SecretInformer" where
  "Start addHandlerError si =
     (case si_notifier si of
        None \<Rightarrow> (Some CSPFK076E, si)
      | Some _ \<Rightarrow>
          (let si1 = si\<lparr>si_factory := True, si_informer := True\<rparr> in
           case addHandlerError of
             Some err \<Rightarrow> (Some (CSPFK078E err), si1)
           | None \<Rightarrow> (None, si1\<lparr>si_worker := True\<rparr>)))"

text \<open>The body that runs once.\<close>

definition stop_once :: "'q workqueue \<Rightarrow> ('q, 'n) SecretInformer \<Rightarrow> ('q, 'n) SecretInformer" where
  "stop_once wq si =
     (if si_stopped si then si
      else si\<lparr>si_queue := wq_ShutDown wq (si_queue si), si_stopCh_closed := True, si_stopped := True\<rparr>)"

text \<open>Stop then waits for the worker; it has no result if the worker never ends.\<close>

definition Stop_informer ::
  "'q workqueue \<Rightarrow> ('q, 'n) SecretInformer \<Rightarrow> 'n \<Rightarrow> (('q, 'n) SecretInformer \<times> 'n) option" where
  "Stop_informer wq si n =
     (let si1 = stop_once wq si in if si_worker si1 then runWorker wq si1 n else Some (si1, n))"

text \<open>The goroutine that waits for the first synchronisation of the cache.\<close>

definition cache_sync ::
  "'q workqueue \<Rightarrow> bool \<Rightarrow> ('q, 'n) SecretInformer \<Rightarrow> 'n \<Rightarrow> (('q, 'n) SecretInformer \<times> 'n) option" where
  "cache_sync wq synced si n =
     (if synced then Some (si\<lparr>si_synced := True\<rparr>, n) else Stop_informer wq si n)"

section \<open>Lemmas\<close>

lemma bytes_differ:
  "(if length a \<noteq> length b then True else list_ex (\<lambda>i. a ! i \<noteq> b ! i) [0..<length a]) \<longleftrightarrow> a \<noteq> b"
proof (cases "length a = length b")
  case True
  then show ?thesis
    using list_eq_iff_nth_eq [of a b] by (auto simp only: list_ex_iff set_upt if_True if_False simp_thms atLeastLessThan_iff)
qed auto

lemma conjurMapChanged_iff:
  "conjurMapChanged old new \<longleftrightarrow>
     (sec_Data old = None) \<noteq> (sec_Data new = None)
     \<or> gget [] (data_of old) ConjurMapKey \<noteq> gget [] (data_of new) ConjurMapKey"
  unfolding conjurMapChanged_def Let_def bytes_differ
  by (cases "sec_Data old"; cases "sec_Data new") (simp_all add: data_of_def)

lemma set_relevant_keys:
  "set (gkeys (fold (\<lambda>key m. if P key then gput key True m else m) ks m)) = set (gkeys m) \<union> {k \<in> set ks. P k}"
  by (induction ks arbitrary: m) (auto simp: gkeys_def fst_set_gput)

lemma gkeys_Nil [simp]: "gkeys [] = []"
  by (simp add: gkeys_def)

lemma gget_absent: "k \<notin> set (gkeys m) \<Longrightarrow> gget z m k = z"
  by (simp add: gget_def set_gkeys domIff)

lemma relevantAnnotationsChanged_iff:
  "relevantAnnotationsChanged old new \<longleftrightarrow>
     (\<exists>k. isRelevantAnnotation k \<and> gget [] (sec_Annotations old) k \<noteq> gget [] (sec_Annotations new) k)"
proof -
  let ?ks = "{k \<in> set (gkeys (sec_Annotations old)) \<union> set (gkeys (sec_Annotations new)). isRelevantAnnotation k}"
  have "relevantAnnotationsChanged old new \<longleftrightarrow>
      (\<exists>k\<in>?ks. gget [] (sec_Annotations old) k \<noteq> gget [] (sec_Annotations new) k)"
    by (cases "sec_Annotations old = [] \<and> sec_Annotations new = []")
      (auto simp: relevantAnnotationsChanged_def Let_def list_ex_iff set_relevant_keys)
  also have "\<dots> \<longleftrightarrow> (\<exists>k. isRelevantAnnotation k \<and> gget [] (sec_Annotations old) k \<noteq> gget [] (sec_Annotations new) k)"
    using gget_absent [of _ "sec_Annotations old" "[]"] gget_absent [of _ "sec_Annotations new" "[]"]
    by (metis (mono_tags, lifting) Un_iff mem_Collect_eq)
  finally show ?thesis .
qed

lemma labelled_iff:
  "hasManagedByProviderLabel (Some s) \<longleftrightarrow>
     gget [] (sec_Labels s) ManagedByProviderKey \<in> {''1'', ''t'', ''T'', ''TRUE'', ''true'', ''True''}"
  by (cases "sec_Labels s = []") (auto simp: hasManagedByProviderLabel_def ParseBool_def)

text \<open>The worker, once the queue is shut down: by induction on what is still queued.\<close>

lemma runWorker_drains:
  assumes q: "fifo_queue wq items shut"
    and notify: "si_notifier si = Some notify" "\<And>e n. fst (notify e n) \<noteq> Panic"
    and shut: "shut (si_queue si)"
  shows "\<exists>si'. runWorker wq si n = Some (si', fold (\<lambda>e n. snd (notify e n)) (items (si_queue si)) n)
     \<and> items (si_queue si') = [] \<and> \<not> si_worker si'"
  using notify(1) shut
proof (induction "items (si_queue si)" arbitrary: si n)
  case Nil
  then obtain q' where "wq_Get wq (si_queue si) = Some (None, q')" "items q' = []"
    using q unfolding fifo_queue_def by metis
  then show ?case
    using Nil.hyps by (subst runWorker.simps) (simp add: processNextItem_def)
next
  case (Cons e es)
  obtain q' where g: "wq_Get wq (si_queue si) = Some (Some e, q')" "items q' = es" "shut q'"
    using q Cons.hyps(2) [symmetric] Cons.prems(2) unfolding fifo_queue_def by metis
  obtain b n1 where no: "notify e n = (Ret b, n1)"
    using notify(2) [of e n] by (cases "notify e n"; cases "fst (notify e n)") auto
  let ?si = "si\<lparr>si_queue := wq_Done wq e q'\<rparr>"
  have "es = items (si_queue ?si)" "shut (si_queue ?si)" using q g by (simp_all add: fifo_queue_def)
  then have "\<exists>si'. runWorker wq ?si n1 = Some (si', fold (\<lambda>e n. snd (notify e n)) es n1)
     \<and> items (si_queue si') = [] \<and> \<not> si_worker si'"
    using Cons.hyps(1) [of ?si n1] Cons.prems(1) by simp
  moreover have "runWorker wq si n = runWorker wq ?si n1"
    by (subst runWorker.simps) (simp add: processNextItem_def g no processEvent_def Cons.prems(1))
  ultimately show ?case using no Cons.hyps(2) [symmetric] by simp
qed

section \<open>Properties\<close>

text \<open>
  (C14) Which updates matter, in every iteration order of the annotations: once the cache is
  synchronised, an update of a Secret is queued exactly if the new version has the managed-by
  label with a true value and the old one had not, or the conjur-map changed (a nil data map
  differs from an empty one), or the value of an annotation for secret groups or their templates
  changed.
\<close>

theorem informer_queues_relevant_updates:
  assumes "si_informer si" and "si_synced si"
  shows "onUpdate wq (SecretObj old) (SecretObj new) si =
    (let labelled = (\<lambda>s. gget [] (sec_Labels s) ManagedByProviderKey \<in> {''1'', ''t'', ''T'', ''TRUE'', ''true'', ''True''})
     in if labelled new \<and>
          (\<not> labelled old
           \<or> (sec_Data old = None) \<noteq> (sec_Data new = None)
           \<or> gget [] (data_of old) ConjurMapKey \<noteq> gget [] (data_of new) ConjurMapKey
           \<or> (\<exists>k. (HasPrefix k SecretGroupPrefix \<or> HasPrefix k SecretGroupFileTemplatePrefix)
                \<and> gget [] (sec_Annotations old) k \<noteq> gget [] (sec_Annotations new) k))
        then si\<lparr>si_queue := wq_Add wq \<lparr>se_Secret = new, se_OldSecret = Some old, se_EventType = ''updated''\<rparr> (si_queue si)\<rparr>
        else si)"
proof -
  have "onUpdate wq (SecretObj old) (SecretObj new) si =
      (if hasManagedByProviderLabel (Some new) \<and> (conjurMapChanged old new \<or> labelsChanged old new \<or> relevantAnnotationsChanged old new)
       then si\<lparr>si_queue := wq_Add wq \<lparr>se_Secret = new, se_OldSecret = Some old, se_EventType = ''updated''\<rparr> (si_queue si)\<rparr>
       else si)"
    using assms by (simp add: onUpdate_def SecretEventTypeUpdate_def)
  also have "hasManagedByProviderLabel (Some new) \<and> (conjurMapChanged old new \<or> labelsChanged old new \<or> relevantAnnotationsChanged old new)
      \<longleftrightarrow> hasManagedByProviderLabel (Some new) \<and> (\<not> hasManagedByProviderLabel (Some old) \<or> conjurMapChanged old new \<or> relevantAnnotationsChanged old new)"
    by (auto simp: labelsChanged_def)
  finally show ?thesis
    unfolding conjurMapChanged_iff relevantAnnotationsChanged_iff labelled_iff isRelevantAnnotation_def Let_def
    by (simp only: disj_assoc)
qed

text \<open>
  (C22) The provider does not wake itself: what an update writes (the original object, less the
  keys to clean up, with new entries) is not queued when the informer reports it, unless the
  object had no data at all or the conjur-map itself is among the written or removed keys.
\<close>

theorem own_writes_queue_nothing:
  assumes "sec_Data orig = Some d" and "ConjurMapKey \<notin> set keys" and "\<not> ghas entries ConjurMapKey"
  shows "onUpdate wq (SecretObj orig)
       (SecretObj ((delete_keys keys orig)\<lparr>sec_Data := Some (put_entries entries (data_of (delete_keys keys orig)))\<rparr>)) si = si"
proof -
  let ?new = "(delete_keys keys orig)\<lparr>sec_Data := Some (put_entries entries (data_of (delete_keys keys orig)))\<rparr>"
  have del: "map_of (fold gdel ks m) k = map_of m k" if "k \<notin> set ks" for ks :: "string list" and k and m :: "(string, string) gomap"
    using that by (induction ks arbitrary: m) auto
  have put: "map_of (put_entries es m) k = map_of m k" if "\<not> ghas es k" for es m k
    using that by (induction es arbitrary: m) (auto simp: put_entries_def ghas_iff split: if_splits)
  have "map_of (data_of ?new) ConjurMapKey = map_of (data_of orig) ConjurMapKey"
    using assms put [OF assms(3)] del [OF assms(2)] by (simp add: data_of_def delete_keys_def)
  then have "\<not> conjurMapChanged orig ?new"
    using assms(1) unfolding conjurMapChanged_iff gget_def by simp
  moreover have "\<not> labelsChanged orig ?new"
    by (simp add: labelsChanged_def hasManagedByProviderLabel_def delete_keys_def)
  moreover have "\<not> relevantAnnotationsChanged orig ?new"
    by (simp add: relevantAnnotationsChanged_iff delete_keys_def)
  ultimately show ?thesis by (simp add: onUpdate_def)
qed

text \<open>
  (C20) Stopping the informer returns, however many events are still queued: the worker hands
  each of them to the notifier exactly once, in the order of their arrival, whether or not an
  earlier one could be sent, and then ends.
\<close>

theorem stop_drains_the_queue:
  assumes "fifo_queue wq items shut" and "si_notifier si = Some notify" and "\<And>e n. fst (notify e n) \<noteq> Panic"
    and "si_worker si" and "\<not> si_stopped si"
  shows "\<exists>si'. Stop_informer wq si n = Some (si', fold (\<lambda>e n. snd (notify e n)) (items (si_queue si)) n)
     \<and> items (si_queue si') = [] \<and> \<not> si_worker si'"
proof -
  let ?si = "stop_once wq si"
  have "si_queue ?si = wq_ShutDown wq (si_queue si)" "si_notifier ?si = Some notify" "si_worker ?si"
    using assms(2,4,5) by (simp_all add: stop_once_def)
  moreover have "items (wq_ShutDown wq (si_queue si)) = items (si_queue si)" "shut (wq_ShutDown wq (si_queue si))"
    using assms(1) by (simp_all add: fifo_queue_def)
  ultimately show ?thesis
    using runWorker_drains [OF assms(1) _ assms(3), where si = ?si and n = n] by (simp add: Stop_informer_def)
qed

subsection \<open>Witnesses\<close>

text \<open>A list as the queue, with a flag for the shut-down.\<close>

definition list_queue :: "(SecretEvent list \<times> bool) workqueue" where
  "list_queue = \<lparr>wq_Add = (\<lambda>e (es, s). (if s then es else es @ [e], s)),
     wq_Get = (\<lambda>(es, s). case es of [] \<Rightarrow> if s then Some (None, ([], s)) else None | e # es' \<Rightarrow> Some (Some e, (es', s))),
     wq_Done = (\<lambda>_ q. q), wq_ShutDown = (\<lambda>(es, _). (es, True))\<rparr>"

lemma list_queue_fifo: "fifo_queue list_queue fst snd"
  by (auto simp: fifo_queue_def list_queue_def split: list.splits)

definition watched_secret :: "string \<Rightarrow> v1_secret" where
  "watched_secret raw = \<lparr>sec_Name = ''app'', sec_Namespace = ''ns'', sec_Labels = [(ManagedByProviderKey, ''true'')],
     sec_Annotations = [], sec_Data = Some [(ConjurMapKey, raw)]\<rparr>"

definition watch_event :: SecretEvent where
  "watch_event = \<lparr>se_Secret = watched_secret ''b'', se_OldSecret = Some (watched_secret ''a''), se_EventType = ''updated''\<rparr>"

definition watching :: "SecretEvent list \<Rightarrow> (SecretEvent list \<times> bool, SecretEvent list) SecretInformer" where
  "watching es = \<lparr>si_namespace = ''ns'', si_notifier = Some (\<lambda>e ch. (Ret True, ch @ [e])), si_factory = True,
     si_informer = True, si_synced = True, si_stopCh_closed = False, si_queue = (es, False), si_stopped = False,
     si_worker = True\<rparr>"

theorem informer_queues_relevant_updates_witness:
  "onUpdate list_queue (SecretObj (watched_secret ''a'')) (SecretObj (watched_secret ''b'')) (watching [])
     = watching [watch_event]"
proof -
  have a: "si_informer (watching [])" "si_synced (watching [])" by (simp_all add: watching_def)
  have "wq_Add list_queue watch_event (si_queue (watching [])) = ([watch_event], False)"
    by (simp add: list_queue_def watching_def)
  then show ?thesis
    using informer_queues_relevant_updates [OF a, of list_queue "watched_secret ''a''" "watched_secret ''b''"]
    by (simp add: watched_secret_def watch_event_def watching_def data_of_def gget_def)
qed

theorem own_writes_queue_nothing_witness:
  "onUpdate list_queue (SecretObj (watched_secret ''a''))
     (SecretObj ((watched_secret ''a'')\<lparr>sec_Data := Some [(ConjurMapKey, ''a''), (''pw'', ''s3cret'')]\<rparr>)) (watching [])
   = watching []"
proof -
  have d: "sec_Data (watched_secret ''a'') = Some [(ConjurMapKey, ''a'')]" by (simp add: watched_secret_def)
  have "(delete_keys [''old''] (watched_secret ''a''))\<lparr>sec_Data :=
        Some (put_entries [(''pw'', ''s3cret'')] (data_of (delete_keys [''old''] (watched_secret ''a''))))\<rparr>
      = (watched_secret ''a'')\<lparr>sec_Data := Some [(ConjurMapKey, ''a''), (''pw'', ''s3cret'')]\<rparr>"
    by (simp add: watched_secret_def delete_keys_def put_entries_def data_of_def gput_def gdel_def)
  then show ?thesis
    using own_writes_queue_nothing [OF d, of "[''old'']" "[(''pw'', ''s3cret'')]" list_queue "watching []"]
    by (simp add: ghas_def)
qed

theorem stop_drains_the_queue_witness:
  "\<exists>si'. Stop_informer list_queue (watching [watch_event]) [] = Some (si', [watch_event]) \<and> \<not> si_worker si'"
proof -
  have "\<exists>si'. Stop_informer list_queue (watching [watch_event]) [] =
      Some (si', fold (\<lambda>e n. snd ((\<lambda>e ch. (Ret True :: bool outcome, ch @ [e])) e n)) (fst (si_queue (watching [watch_event]))) [])
      \<and> fst (si_queue si') = [] \<and> \<not> si_worker si'"
    by (rule stop_drains_the_queue [OF list_queue_fifo]) (simp_all add: watching_def)
  then show ?thesis by (auto simp: watching_def)
qed

end
