(* ===== verification/Provider_Status.thy ===== *)
theory Provider_Status
  imports File_System
begin

text \<open>
  Package secrets, provider\_status.go: the status of the provider is recorded in empty sentinel
  files on a volume that the application containers may share, next to a script that checks them.
  The interface that the runner relies on is a record of three operations with a locale of laws,
  interpreted on the file updater.
\<close>

section \<open>provider\_status.go\<close>

definition statusFileMode :: nat where "statusFileMode = 0x1B6"
definition scriptFileMode :: nat where "scriptFileMode = 0x1ED"

datatype status_error = MkdirStatus string os_error | StatusOs os_error

record 's StatusUpdater =
  su_SetSecretsProvided :: "'s \<Rightarrow> status_error option \<times> 's"
  su_SetSecretsUpdated :: "'s \<Rightarrow> status_error option \<times> 's"
  su_CopyScripts :: "'s \<Rightarrow> status_error option \<times> 's"

text \<open>An open file is given by its name.\<close>

record osFuncs =
  f_chmod :: "string \<Rightarrow> nat \<Rightarrow> fsys \<Rightarrow> os_error option \<times> fsys"
  f_create :: "string \<Rightarrow> fsys \<Rightarrow> (os_error + string) \<times> fsys"
  f_open :: "string \<Rightarrow> fsys \<Rightarrow> (os_error + string) \<times> fsys"
  f_mkdirAll :: "string \<Rightarrow> nat \<Rightarrow> fsys \<Rightarrow> os_error option \<times> fsys"

definition stdOSFuncs :: osFuncs where
  "stdOSFuncs = \<lparr>f_chmod = os_chmod, f_create = os_create, f_open = os_open,
     f_mkdirAll = (\<lambda>dir _. os_mkdirAll dir)\<rparr>"

record fileUpdater =
  providedFile :: string
  updatedFile :: string
  scripts :: "string list"
  scriptSrcDir :: string
  scriptDestDir :: string
  fu_os :: osFuncs

definition default_updater :: fileUpdater where
  "default_updater =
     \<lparr>providedFile = ''/conjur/status/CONJUR_SECRETS_PROVIDED'',
      updatedFile = ''/conjur/status/CONJUR_SECRETS_UPDATED'',
      scripts = [''conjur-secrets-unchanged.sh''],
      scriptSrcDir = ''/usr/local/bin'',
      scriptDestDir = ''/conjur/status'',
      fu_os = stdOSFuncs\<rparr>"

definition setStatus :: "fileUpdater \<Rightarrow> string \<Rightarrow> fsys \<Rightarrow> status_error option \<times> fsys" where
  "setStatus f path fs =
     (case f_create (fu_os f) path fs of
        (Inl e, fs1) \<Rightarrow> (Some (StatusOs e), fs1)
      | (Inr file, fs1) \<Rightarrow>
          (case f_chmod (fu_os f) file statusFileMode fs1 of (err, fs2) \<Rightarrow> (map_option StatusOs err, fs2)))"

definition SetSecretsProvided :: "fileUpdater \<Rightarrow> fsys \<Rightarrow> status_error option \<times> fsys" where
  "SetSecretsProvided f fs = setStatus f (providedFile f) fs"

definition SetSecretsUpdated :: "fileUpdater \<Rightarrow> fsys \<Rightarrow> status_error option \<times> fsys" where
  "SetSecretsUpdated f fs = setStatus f (updatedFile f) fs"

definition copyFile :: "fileUpdater \<Rightarrow> string \<Rightarrow> string \<Rightarrow> fsys \<Rightarrow> os_error option \<times> fsys" where
  "copyFile f srcPath destPath fs =
     (case f_open (fu_os f) srcPath fs of
        (Inl e, fs1) \<Rightarrow> (Some e, fs1)
      | (Inr src, fs1) \<Rightarrow>
          (case f_create (fu_os f) destPath fs1 of
             (Inl e, fs2) \<Rightarrow> (Some e, fs2)
           | (Inr dest, fs2) \<Rightarrow> io_Copy dest src fs2))"

fun copy_scripts :: "fileUpdater \<Rightarrow> string list \<Rightarrow> fsys \<Rightarrow> status_error option \<times> fsys" where
  "copy_scripts f [] fs = (None, fs)"
| "copy_scripts f (script # rest) fs =
     (let srcFile = Join [scriptSrcDir f, script];
          destFile = Join [scriptDestDir f, script]
      in case copyFile f srcFile destFile fs of
           (Some e, fs1) \<Rightarrow> (Some (StatusOs e), fs1)
         | (None, fs1) \<Rightarrow>
             (case f_chmod (fu_os f) destFile scriptFileMode fs1 of
                (Some e, fs2) \<Rightarrow> (Some (StatusOs e), fs2)
              | (None, fs2) \<Rightarrow> copy_scripts f rest fs2))"

definition CopyScripts :: "fileUpdater \<Rightarrow> fsys \<Rightarrow> status_error option \<times> fsys" where
  "CopyScripts f fs =
     (case f_mkdirAll (fu_os f) (scriptDestDir f) 0x1FF fs of
        (Some e, fs1) \<Rightarrow> (Some (MkdirStatus (scriptDestDir f) e), fs1)
      | (None, fs1) \<Rightarrow> copy_scripts f (scripts f) fs1)"

definition NewStatusUpdater :: "fsys StatusUpdater" where
  "NewStatusUpdater =
     \<lparr>su_SetSecretsProvided = SetSecretsProvided default_updater,
      su_SetSecretsUpdated = SetSecretsUpdated default_updater,
      su_CopyScripts = CopyScripts default_updater\<rparr>"

section \<open>The status interface\<close>

text \<open>
  What the runner relies on: a successful SetSecretsProvided records the provision, and no other
  operation, successful or not, takes the record back.
\<close>

locale status_updater =
  fixes status :: "'s StatusUpdater" and provided :: "'s \<Rightarrow> bool" and updated :: "'s \<Rightarrow> bool"
  assumes records_provided: "su_SetSecretsProvided status s = (None, s') \<Longrightarrow> provided s'"
    and records_updated: "su_SetSecretsUpdated status s = (None, s') \<Longrightarrow> updated s'"
    and provided_keeps: "updated s \<Longrightarrow> updated (snd (su_SetSecretsProvided status s))"
    and updated_keeps: "provided s \<Longrightarrow> provided (snd (su_SetSecretsUpdated status s))"
    and scripts_keep: "provided s \<Longrightarrow> provided (snd (su_CopyScripts status s))"
begin

lemma provided_then_updated:
  assumes "su_SetSecretsProvided status s = (None, s1)" and "su_SetSecretsUpdated status s1 = (e, s2)"
  shows "provided s2" and "e = None \<Longrightarrow> updated s2"
  using assms records_provided updated_keeps [of s1] records_updated by auto

lemma provided_stays: "provided s \<Longrightarrow> provided (((snd \<circ> su_SetSecretsUpdated status) ^^ n) s)"
  by (induction n) (auto simp: updated_keeps)

end

text \<open>A sentinel is there with its mode, whatever it contains.\<close>

definition sentinel :: "string \<Rightarrow> fsys \<Rightarrow> bool" where
  "sentinel path fs \<longleftrightarrow> (\<exists>c. file_at fs path = Some (c, statusFileMode))"

lemma os_create_at:
  assumes "os_create n fs = (r, fs')"
  shows "p \<noteq> n \<Longrightarrow> file_at fs' p = file_at fs p"
    and "r = Inr m \<Longrightarrow> m = n \<and> (\<exists>mode. file_at fs' n = Some ([], mode)
          \<and> (case file_at fs n of None \<Rightarrow> mode = 0x1B6 | Some (_, mode') \<Rightarrow> mode = mode'))"
    and "r = Inl e \<Longrightarrow> file_at fs' n = file_at fs n" and "fs_fault fs' = fs_fault fs"
  using assms by (auto simp: os_create_def split: option.splits prod.splits)

lemma os_write_at: "os_write n c fs = (r, fs') \<Longrightarrow> p \<noteq> n \<Longrightarrow> file_at fs' p = file_at fs p"
  using os_frame(1) [of p n c fs] by simp

lemma os_chmod_at:
  assumes "os_chmod n mode fs = (e, fs')"
  shows "p \<noteq> n \<Longrightarrow> file_at fs' p = file_at fs p"
    and "file_at fs' n = (case file_at fs n of None \<Rightarrow> None | Some (c, m) \<Rightarrow> Some (c, if e = None then mode else m))"
    and "e = None \<Longrightarrow> file_at fs n \<noteq> None"
  using assms by (auto simp: os_chmod_def split: option.splits prod.splits)

lemma setStatus_sentinel:
  assumes "fu_os f = stdOSFuncs" and run: "setStatus f path fs = (e, fs')"
  shows "e = None \<Longrightarrow> file_at fs' path = Some ([], statusFileMode)"
    and "sentinel q fs \<Longrightarrow> sentinel q fs'"
    and "p \<noteq> path \<Longrightarrow> file_at fs' p = file_at fs p"
proof -
  obtain r fs1 where c: "os_create path fs = (r, fs1)" by (metis surj_pair)
  note C = os_create_at [OF c]
  have run': "(case r of Inl e \<Rightarrow> (Some (StatusOs e), fs1)
      | Inr file \<Rightarrow> (case os_chmod file statusFileMode fs1 of (err, fs2) \<Rightarrow> (map_option StatusOs err, fs2))) = (e, fs')"
    using run assms(1) by (simp add: setStatus_def stdOSFuncs_def c split: sum.splits)
  have all: "(e = None \<longrightarrow> file_at fs' path = Some ([], statusFileMode)) \<and> (sentinel q fs \<longrightarrow> sentinel q fs')
      \<and> (p \<noteq> path \<longrightarrow> file_at fs' p = file_at fs p)" for p q
  proof (cases r)
    case (Inl x)
    with run' C(1) C(3) [OF Inl] show ?thesis by (cases "q = path") (auto simp: sentinel_def)
  next
    case (Inr nm)
    then obtain m where m: "nm = path" "file_at fs1 path = Some ([], m)"
      "case file_at fs path of None \<Rightarrow> m = 0x1B6 | Some (_, mode') \<Rightarrow> m = mode'"
      using C(2) by blast
    obtain err fs2 where ch: "os_chmod path statusFileMode fs1 = (err, fs2)" by (metis surj_pair)
    have e: "e = map_option StatusOs err" "fs' = fs2" using run' by (simp_all add: Inr m(1) ch)
    show ?thesis
      using os_chmod_at(1) [OF ch] os_chmod_at(2) [OF ch] C(1) m(2,3)
      by (cases "q = path") (auto simp: e sentinel_def split: option.splits)
  qed
  then show "e = None \<Longrightarrow> file_at fs' path = Some ([], statusFileMode)"
    and "sentinel q fs \<Longrightarrow> sentinel q fs'" and "p \<noteq> path \<Longrightarrow> file_at fs' p = file_at fs p"
    by blast+
qed

text \<open>Copying scripts changes nothing but the scripts' destinations.\<close>

lemma copyFile_frame:
  assumes "fu_os f = stdOSFuncs" and "copyFile f src dst fs = (e, fs')" and "p \<noteq> dst"
  shows "file_at fs' p = file_at fs p"
proof -
  obtain r fs1 where o: "os_open src fs = (r, fs1)" by (metis surj_pair)
  have same: "file_at fs1 q = file_at fs q" for q using o by (auto simp: os_open_def split: option.splits if_splits)
  show ?thesis
  proof (cases r)
    case (Inl x)
    with assms o same show ?thesis by (simp add: copyFile_def stdOSFuncs_def)
  next
    case (Inr s)
    obtain r2 fs2 where c: "os_create dst fs1 = (r2, fs2)" by (metis surj_pair)
    show ?thesis
    proof (cases r2)
      case (Inl x)
      with assms o c Inr same os_create_at(1) [OF c] show ?thesis by (simp add: copyFile_def stdOSFuncs_def)
    next
      case r2: (Inr d)
      then have d: "d = dst" using os_create_at(2) [OF c] by blast
      have "(e, fs') = io_Copy dst s fs2" using assms(1,2) o c Inr r2 d by (simp add: copyFile_def stdOSFuncs_def)
      then have "file_at fs' p = file_at fs2 p"
        using assms(3) by (cases "file_at fs2 s")
          (auto simp: io_Copy_def dest: os_write_at split: option.splits prod.splits)
      then show ?thesis using os_create_at(1) [OF c] assms(3) same by simp
    qed
  qed
qed

lemma copy_scripts_frame:
  assumes "fu_os f = stdOSFuncs" and "copy_scripts f ss fs = (e, fs')"
    and "p \<notin> (\<lambda>s. Join [scriptDestDir f, s]) ` set ss"
  shows "file_at fs' p = file_at fs p"
  using assms(2,3)
proof (induction ss arbitrary: fs)
  case (Cons s ss)
  obtain e1 fs1 where c: "copyFile f (Join [scriptSrcDir f, s]) (Join [scriptDestDir f, s]) fs = (e1, fs1)"
    by (metis surj_pair)
  obtain e2 fs2 where m: "os_chmod (Join [scriptDestDir f, s]) scriptFileMode fs1 = (e2, fs2)" by (metis surj_pair)
  have p: "p \<noteq> Join [scriptDestDir f, s]" using Cons.prems(2) by auto
  have fs1: "file_at fs1 p = file_at fs p" by (rule copyFile_frame [OF assms(1) c p])
  have fs2: "file_at fs2 p = file_at fs1 p" using os_chmod_at(1) [OF m p] .
  show ?case
    using Cons.prems Cons.IH [of fs2] c m fs1 fs2 assms(1)
    by (auto simp: stdOSFuncs_def split: option.splits)
qed simp

lemma CopyScripts_frame:
  assumes "fu_os f = stdOSFuncs" and "CopyScripts f fs = (e, fs')"
    and "p \<notin> (\<lambda>s. Join [scriptDestDir f, s]) ` set (scripts f)"
  shows "file_at fs' p = file_at fs p"
proof -
  obtain e1 fs1 where m: "os_mkdirAll (scriptDestDir f) fs = (e1, fs1)" by (metis surj_pair)
  have "file_at fs1 p = file_at fs p" using os_frame(6) [of "scriptDestDir f" fs p] m by simp
  then show ?thesis
    using assms m copy_scripts_frame [OF assms(1) _ assms(3), of fs1]
    by (auto simp: CopyScripts_def stdOSFuncs_def split: option.splits)
qed

lemma default_updater_simps [simp]:
  "fu_os default_updater = stdOSFuncs" "scripts default_updater = [''conjur-secrets-unchanged.sh'']"
  "scriptDestDir default_updater = ''/conjur/status''" "scriptSrcDir default_updater = ''/usr/local/bin''"
  by (simp_all add: default_updater_def)

lemma default_script_paths:
  "Join [''/conjur/status'', ''conjur-secrets-unchanged.sh''] = ''/conjur/status/conjur-secrets-unchanged.sh''"
  "Join [''/usr/local/bin'', ''conjur-secrets-unchanged.sh''] = ''/usr/local/bin/conjur-secrets-unchanged.sh''"
  by code_simp+

interpretation files: status_updater NewStatusUpdater
  "sentinel (providedFile default_updater)" "sentinel (updatedFile default_updater)"
proof unfold_locales
  fix s s' :: fsys
  let ?f = default_updater
  note [simp] = NewStatusUpdater_def SetSecretsProvided_def SetSecretsUpdated_def
  show "su_SetSecretsProvided NewStatusUpdater s = (None, s') \<Longrightarrow> sentinel (providedFile ?f) s'"
    and "su_SetSecretsUpdated NewStatusUpdater s = (None, s') \<Longrightarrow> sentinel (updatedFile ?f) s'"
    using setStatus_sentinel(1) [of ?f _ s None s'] by (simp_all add: sentinel_def)
  show "sentinel (updatedFile ?f) s \<Longrightarrow> sentinel (updatedFile ?f) (snd (su_SetSecretsProvided NewStatusUpdater s))"
    and "sentinel (providedFile ?f) s \<Longrightarrow> sentinel (providedFile ?f) (snd (su_SetSecretsUpdated NewStatusUpdater s))"
    using setStatus_sentinel(2) [of ?f _ s] by (simp_all add: prod_eq_iff)
  have "providedFile ?f \<noteq> ''/conjur/status/conjur-secrets-unchanged.sh''" by (simp add: default_updater_def)
  then have "file_at (snd (CopyScripts ?f s)) (providedFile ?f) = file_at s (providedFile ?f)"
    using CopyScripts_frame [of ?f s _ _ "providedFile ?f"] by (simp add: prod_eq_iff default_script_paths(1))
  then show "sentinel (providedFile ?f) s \<Longrightarrow> sentinel (providedFile ?f) (snd (su_CopyScripts NewStatusUpdater s))"
    by (simp add: sentinel_def)
qed

section \<open>Properties\<close>

lemma copyFile_ok:
  assumes std: "fu_os f = stdOSFuncs" and run: "copyFile f src dst fs = (None, fs')" and ne: "src \<noteq> dst"
  shows "\<exists>c m m'. file_at fs src = Some (c, m) \<and> file_at fs' dst = Some (c, m')"
proof -
  obtain fs1 where o: "os_open src fs = (Inr src, fs1)" and src: "file_at fs src \<noteq> None"
      and same: "\<And>q. file_at fs1 q = file_at fs q"
    using run std by (auto simp: copyFile_def stdOSFuncs_def os_open_def split: option.splits if_splits)
  obtain d fs2 where c: "os_create dst fs1 = (Inr d, fs2)"
    using run std o by (auto simp: copyFile_def stdOSFuncs_def split: sum.splits prod.splits)
  obtain m where d: "d = dst" "file_at fs2 dst = Some ([], m)" using os_create_at(2) [OF c refl] by blast
  have fs2: "file_at fs2 src = file_at fs src" using os_create_at(1) [OF c ne] same by simp
  have copy: "io_Copy dst src fs2 = (None, fs')" using run std o c d(1) by (simp add: copyFile_def stdOSFuncs_def)
  obtain cc mm where cc: "file_at fs src = Some (cc, mm)" using src by force
  have "os_write dst cc (tick fs2) = ((fst (fst (os_write dst cc (tick fs2))), None), fs')"
    using copy by (auto simp: io_Copy_def fs2 cc split: option.splits prod.splits)
  then have "file_at fs' dst = Some (cc, m)"
    using d(2) by (auto simp: os_write_def Let_def split: option.splits)
  with cc show ?thesis by blast
qed

lemma setStatus_quiet: "quiet fs \<Longrightarrow> fu_os f = stdOSFuncs \<Longrightarrow> fst (setStatus f path fs) = None"
  by (auto simp: setStatus_def stdOSFuncs_def quiet_def os_create_def os_chmod_def fault_def
      split: option.splits prod.splits)

text \<open>
  (C27) The status files, for every pattern of failing system calls: if SetSecretsProvided reports
  success the sentinel is there, empty and with mode 0666, and if CopyScripts reports success the
  checking script is the one of the image, executable with mode 0755; neither touches any other
  file, whether it succeeds or not; and SetSecretsProvided reports success when no call fails.
\<close>

theorem status_files_exact:
  assumes "SetSecretsProvided default_updater fs = (e, fs')" and "CopyScripts default_updater fs = (e2, fs2)"
  shows "(quiet fs \<longrightarrow> e = None)
     \<and> (e = None \<longrightarrow> file_at fs' ''/conjur/status/CONJUR_SECRETS_PROVIDED'' = Some ([], 0x1B6))
     \<and> (\<forall>p. p \<noteq> ''/conjur/status/CONJUR_SECRETS_PROVIDED'' \<longrightarrow> file_at fs' p = file_at fs p)
     \<and> (e2 = None \<longrightarrow> (\<exists>c m. file_at fs ''/usr/local/bin/conjur-secrets-unchanged.sh'' = Some (c, m)
          \<and> file_at fs2 ''/conjur/status/conjur-secrets-unchanged.sh'' = Some (c, 0x1ED)))
     \<and> (\<forall>p. p \<noteq> ''/conjur/status/conjur-secrets-unchanged.sh'' \<longrightarrow> file_at fs2 p = file_at fs p)"
proof -
  let ?f = default_updater
  let ?src = "''/usr/local/bin/conjur-secrets-unchanged.sh''" and ?dst = "''/conjur/status/conjur-secrets-unchanged.sh''"
  have set: "setStatus ?f ''/conjur/status/CONJUR_SECRETS_PROVIDED'' fs = (e, fs')"
    using assms(1) by (simp add: SetSecretsProvided_def default_updater_def)
  have script: "\<exists>c m. file_at fs ?src = Some (c, m) \<and> file_at fs2 ?dst = Some (c, 0x1ED)" if "e2 = None"
  proof -
    obtain e1 fs1 where m: "os_mkdirAll ''/conjur/status'' fs = (e1, fs1)" by (metis surj_pair)
    obtain e3 fs3 where c: "copyFile ?f ?src ?dst fs1 = (e3, fs3)" by (metis surj_pair)
    obtain e4 fs4 where ch: "os_chmod ?dst scriptFileMode fs3 = (e4, fs4)" by (metis surj_pair)
    have ok: "e1 = None" "e3 = None" "e4 = None" "fs2 = fs4"
      using assms(2) that m c ch
      by (auto simp: CopyScripts_def default_script_paths stdOSFuncs_def split: option.splits)
    obtain cc mm m' where f1: "file_at fs1 ?src = Some (cc, mm)" "file_at fs3 ?dst = Some (cc, m')"
      using copyFile_ok [of ?f ?src ?dst fs1 fs3] c ok(2) by auto
    have "file_at fs ?src = Some (cc, mm)" using f1(1) m os_frame(6) [of "''/conjur/status''" fs ?src] by simp
    moreover have "file_at fs4 ?dst = Some (cc, 0x1ED)"
      using os_chmod_at(2) [OF ch] f1(2) ok(3) by (simp add: scriptFileMode_def)
    ultimately show ?thesis using ok(4) by blast
  qed
  have frame: "file_at fs2 p = file_at fs p" if "p \<noteq> ?dst" for p
    using CopyScripts_frame [OF _ assms(2), of p] that by (simp add: default_script_paths)
  show ?thesis
    using setStatus_quiet [of fs ?f "''/conjur/status/CONJUR_SECRETS_PROVIDED''"]
      setStatus_sentinel(1) [OF _ set] setStatus_sentinel(3) [OF _ set] script frame
    by (simp add: set statusFileMode_def)
qed

definition image_fs :: fsys where
  "image_fs = \<lparr>fs_files = [(''/usr/local/bin/conjur-secrets-unchanged.sh'', (''#!/bin/sh'', 0x1A4))],
     fs_clock = 0, fs_fault = (\<lambda>_ _. None), fs_random = (\<lambda>n. n), fs_partial = (\<lambda>_. 0), fs_tempDir = ''/tmp''\<rparr>"

lemma image_fs_ok:
  "quiet image_fs"
  "fst (CopyScripts default_updater image_fs) = None"
  by (simp add: quiet_def image_fs_def) code_simp

theorem status_files_exact_witness:
  "file_at (snd (SetSecretsProvided default_updater image_fs)) ''/conjur/status/CONJUR_SECRETS_PROVIDED'' = Some ([], 0x1B6)
   \<and> file_at (snd (CopyScripts default_updater image_fs)) ''/conjur/status/conjur-secrets-unchanged.sh''
       = Some (''#!/bin/sh'', 0x1ED)"
proof -
  have "file_at image_fs ''/usr/local/bin/conjur-secrets-unchanged.sh'' = Some (''#!/bin/sh'', 0x1A4)"
    by (simp add: image_fs_def)
  then show ?thesis
    using status_files_exact [OF prod.collapse [symmetric] prod.collapse [symmetric], of image_fs] image_fs_ok
    by auto
qed

end
