(* ===== verification/Health_Server.thy ===== *)
theory Health_Server
  imports Prelude
begin

text \<open>
  Package server (server.go): the HTTP server with the health and readiness probes. Listening on an
  address is a parameter; the server is its address and the two flags, and a request is its path.
\<close>

definition DefaultAddress :: string where "DefaultAddress = '':8080''"

record Server =
  srv_Address :: string
  isHealthy :: bool
  isReady :: bool

definition NewServer :: "(string \<Rightarrow> gerror + string) \<Rightarrow> string \<Rightarrow> gerror + Server" where
  "NewServer listen address =
     (case listen (if address = [] then DefaultAddress else address) of
        Inl err \<Rightarrow> Inl err
      | Inr listener \<Rightarrow> Inr \<lparr>srv_Address = listener, isHealthy = False, isReady = False\<rparr>)"

definition SetHealthy :: "bool \<Rightarrow> Server \<Rightarrow> Server" where
  "SetHealthy healthy s = s\<lparr>isHealthy := healthy\<rparr>"

definition SetReady :: "bool \<Rightarrow> Server \<Rightarrow> Server" where
  "SetReady ready s = s\<lparr>isReady := ready\<rparr>"

definition Start_server :: "Server \<Rightarrow> Server" where
  "Start_server s = SetHealthy True s"

definition healthHandler :: "Server \<Rightarrow> nat" where
  "healthHandler s = (if isHealthy s then 200 else 503)"

definition readyHandler :: "Server \<Rightarrow> nat" where
  "readyHandler s = (if isReady s then 200 else 503)"

text \<open>The multiplexer knows two exact paths.\<close>

definition serve :: "Server \<Rightarrow> string \<Rightarrow> nat" where
  "serve s path =
     (if path = ''/healthz'' then healthHandler s
      else if path = ''/readyz'' then readyHandler s
      else 404)"

lemma serve_ready [simp]:
  "serve (SetReady b s) ''/readyz'' = (if b then 200 else 503)"
  "serve (SetReady b s) ''/healthz'' = serve s ''/healthz''"
  "serve (SetHealthy b s) ''/healthz'' = (if b then 200 else 503)"
  "serve (SetHealthy b s) ''/readyz'' = serve s ''/readyz''"
  by (simp_all add: serve_def SetReady_def SetHealthy_def readyHandler_def healthHandler_def)

end
