(* ===== verification/Provider_Run.thy ===== *)
theory Provider_Run
  imports Push_To_File K8s_Informer Provider_Status Health_Server
begin

text \<open>
  Package secrets (provide\_conjur\_secrets.go): creating a provider for a store type, retrying it
  with a limited back-off, and running it once, periodically, or when the informer reports an
  event. The start of a run is one function; what follows is a system of three goroutines that
  interact through channels: the main one that waits, the periodic one and the informer-triggered
  one. It is a step relation over a state with a clock in nanoseconds. The library function
  \<^verbatim>\<open>backoff.RetryNotify\<close> is a parameter.
\<close>

section \<open>State and types\<close>

definition informerDebounceDelay :: int where "informerDebounceDelay = 200000000"
definition informerDebounceMaxDelay :: int where "informerDebounceMaxDelay = 10000000000"

datatype run_error =
    K8sFailed gerror
  | FileFailed p2f_error
  | StatusFailed status_error
  | UnsupportedStore string

text \<open>
  What the program acts on: the Kubernetes provider, once there is one (a package variable), the
  file system with the recorded checksums, the outside world (the API server and Conjur), the
  HTTP server, if any, and the state of the back-off that the retries share.
\<close>

record 'w app =
  K8sProviderInstance :: "K8sProvider option"
  app_files :: p2f_state
  app_world :: 'w
  httpServer :: "Server option"
  app_backoff :: limitedBackOff

text \<open>A provider function may not return, or panic, or return a flag and an error.\<close>

type_synonym 'w ProviderFunc = "'w app \<Rightarrow> ((bool \<times> run_error option) outcome \<times> 'w app) option"

record CommonProviderConfig =
  cp_StoreType :: string
  cp_SanitizeEnabled :: bool

record ProviderConfig =
  pc_Common :: CommonProviderConfig
  pc_K8s :: K8sProviderConfig
  pc_P2F :: P2FProviderConfig

text \<open>The libraries that the providers use, in one record.\<close>

record ('w, 'tpl) run_env =
  re_api :: "'w kube_api"
  re_recorded :: recorded_error
  re_retrieve :: "string list \<Rightarrow> 'w \<Rightarrow> (gerror + (string, string) gomap) outcome \<times> 'w"
  re_order :: range_order
  re_yaml_list :: yaml_list
  re_yaml_map :: yaml_map
  re_engine :: "'tpl engine"
  re_sha256 :: "string \<Rightarrow> Checksum"

section \<open>Creating a provider\<close>

text \<open>A run of the Kubernetes provider through its package variable; a nil provider panics.\<close>

definition instance_cleanup ::
  "('w, 'tpl) run_env \<Rightarrow> keys_to_remove \<Rightarrow> 'w app \<Rightarrow> (bool \<times> run_error option) outcome \<times> 'w app" where
  "instance_cleanup env keysToRemove a =
     (case K8sProviderInstance a of
        None \<Rightarrow> (Panic, a)
      | Some p \<Rightarrow>
          (case ProvideWithCleanup (provider_deps (re_recorded env) (re_api env) (re_retrieve env)) (re_order env)
                  (re_yaml_list env) (re_yaml_map env) (re_engine env) (re_sha256 env) keysToRemove p (app_world a) of
             (r, p1, w1) \<Rightarrow>
               (case r of Panic \<Rightarrow> Panic | Ret (updated, err) \<Rightarrow> Ret (updated, map_option K8sFailed err),
                a\<lparr>K8sProviderInstance := Some p1, app_world := w1\<rparr>)))"

definition k8s_provider_func :: "('w, 'tpl) run_env \<Rightarrow> 'w ProviderFunc" where
  "k8s_provider_func env a = Some (instance_cleanup env [] a)"

text \<open>
  A run of the file provider asks Conjur once, for all paths of its groups, before anything else.
  The provider's retrieve function acts on the world, so it is passed at every run.
\<close>

definition file_provider_func :: "('w, 'tpl) run_env \<Rightarrow> fileProvider \<Rightarrow> 'w ProviderFunc" where
  "file_provider_func env p a =
     (case re_retrieve env (getAllPaths (re_order env) (secretGroups p)) (app_world a) of
        (Panic, w1) \<Rightarrow> Some (Panic, a\<lparr>app_world := w1\<rparr>)
      | (Ret fetched, w1) \<Rightarrow>
          (case Provide (re_order env) (re_engine env) (re_sha256 env)
                  (p\<lparr>retrieveSecretsFunc := (\<lambda>_. fetched)\<rparr>) (app_files a) of
             ((updated, err), st1) \<Rightarrow>
               Some (Ret (updated, map_option FileFailed err), a\<lparr>app_files := st1, app_world := w1\<rparr>)))"

definition NewProviderForType ::
  "('w, 'tpl) run_env \<Rightarrow> ProviderConfig \<Rightarrow> 'w app \<Rightarrow> (run_error list + 'w ProviderFunc) \<times> 'w app" where
  "NewProviderForType env providerConfig a =
     (let common = pc_Common providerConfig in
      if cp_StoreType common = K8s then
        (Inr (k8s_provider_func env),
         a\<lparr>K8sProviderInstance := Some (newProvider (cp_SanitizeEnabled common) (pc_K8s providerConfig))\<rparr>)
      else if cp_StoreType common = File then
        (case NewProvider (re_order env) (re_yaml_list env) (re_engine env) (re_sha256 env) (app_files a)
                (\<lambda>_. Inl []) (cp_SanitizeEnabled common) (pc_P2F providerConfig) of
           Inl err \<Rightarrow> (Inl (map FileFailed err), a)
         | Inr provider \<Rightarrow> (Inr (file_provider_func env provider), a))
      else (Inl [UnsupportedStore (cp_StoreType common)], a))"

section \<open>Retrying\<close>

text \<open>
  The library's retry loop over a state: the operation, the reset and the next delay of the
  back-off, and the notification. It may not return.
\<close>

type_synonym ('x, 'e) retryNotify =
  "('x \<Rightarrow> ('e option outcome \<times> 'x) option) \<Rightarrow> ('x \<Rightarrow> 'x) \<Rightarrow> ('x \<Rightarrow> int \<times> 'x) \<Rightarrow> ('e \<Rightarrow> int \<Rightarrow> 'x \<Rightarrow> 'x)
     \<Rightarrow> 'x \<Rightarrow> ('e option outcome \<times> 'x) option"

text \<open>
  Its documented behaviour: it retries the operation until it returns no error or the back-off
  stops, in which case the last error is the result, and it notifies the error and the delay
  before each wait.
\<close>

inductive attempts ::
  "('x \<Rightarrow> ('e option outcome \<times> 'x) option) \<Rightarrow> ('x \<Rightarrow> int \<times> 'x) \<Rightarrow> ('e \<Rightarrow> int \<Rightarrow> 'x \<Rightarrow> 'x)
     \<Rightarrow> 'x \<Rightarrow> 'e option outcome \<Rightarrow> 'x \<Rightarrow> bool"
  for op and nextb and notify where
  succeeds: "op x = Some (Ret None, x1) \<Longrightarrow> attempts op nextb notify x (Ret None) x1"
| panics: "op x = Some (Panic, x1) \<Longrightarrow> attempts op nextb notify x Panic x1"
| stops: "op x = Some (Ret (Some e), x1) \<Longrightarrow> nextb x1 = (Stop, x2) \<Longrightarrow> attempts op nextb notify x (Ret (Some e)) x2"
| again: "op x = Some (Ret (Some e), x1) \<Longrightarrow> nextb x1 = (d, x2) \<Longrightarrow> d \<noteq> Stop
     \<Longrightarrow> attempts op nextb notify (notify e d x2) r x3 \<Longrightarrow> attempts op nextb notify x r x3"

definition retry_notify_ok :: "('x, 'e) retryNotify \<Rightarrow> bool" where
  "retry_notify_ok retry \<longleftrightarrow>
     (\<forall>op reset nextb notify x r x'. attempts op nextb notify (reset x) r x' \<longrightarrow> retry op reset nextb notify x = Some (r, x'))"

text \<open>The closure's variables are part of the loop's state.\<close>

type_synonym 'w retry_state = "'w app \<times> bool \<times> run_error option"

definition retry_op :: "'w ProviderFunc \<Rightarrow> 'w retry_state \<Rightarrow> (run_error option outcome \<times> 'w retry_state) option" where
  "retry_op provideSecrets x =
     (case x of (a, updated, retErr) \<Rightarrow>
       (case provideSecrets a of
          None \<Rightarrow> None
        | Some (Panic, a1) \<Rightarrow> Some (Panic, (a1, updated, retErr))
        | Some (Ret (updated1, retErr1), a1) \<Rightarrow> Some (Ret retErr1, (a1, updated1, retErr1))))"

definition retry_reset :: "'w retry_state \<Rightarrow> 'w retry_state" where
  "retry_reset x = (case x of (a, v) \<Rightarrow> (a\<lparr>app_backoff := Reset (app_backoff a)\<rparr>, v))"

definition retry_next :: "'w retry_state \<Rightarrow> int \<times> 'w retry_state" where
  "retry_next x =
     (case x of (a, v) \<Rightarrow> (case NextBackOff (app_backoff a) of (d, b) \<Rightarrow> (d, (a\<lparr>app_backoff := b\<rparr>, v))))"

definition retry_notify :: "(run_error \<Rightarrow> 'w app \<Rightarrow> 'w app) option \<Rightarrow> run_error \<Rightarrow> int \<Rightarrow> 'w retry_state \<Rightarrow> 'w retry_state" where
  "retry_notify onRetry err d x =
     (case x of (a, v) \<Rightarrow> (case onRetry of None \<Rightarrow> (a, v) | Some f \<Rightarrow> (f err a, v)))"

definition RetryableSecretProvider ::
  "('w retry_state, run_error) retryNotify \<Rightarrow> 'w ProviderFunc \<Rightarrow> (run_error \<Rightarrow> 'w app \<Rightarrow> 'w app) option \<Rightarrow> 'w ProviderFunc" where
  "RetryableSecretProvider retry provideSecrets onRetry a =
     (case retry (retry_op provideSecrets) retry_reset retry_next (retry_notify onRetry) (a, False, None) of
        None \<Rightarrow> None
      | Some (Panic, (a1, _, _)) \<Rightarrow> Some (Panic, a1)
      | Some (Ret (Some err), (a1, updated, _)) \<Rightarrow> Some (Ret (updated, Some err), a1)
      | Some (Ret None, (a1, updated, _)) \<Rightarrow> Some (Ret (updated, None), a1))"

section \<open>Starting a run\<close>

record ProviderRefreshConfig =
  Mode :: string
  RunOnce :: bool
  SecretRefreshInterval :: int
  hasInformerEvents :: bool
  RetryInterval :: int
  RetryCountLimit_run :: int

definition setReady :: "run_error option \<Rightarrow> 'w app \<Rightarrow> 'w app" where
  "setReady err a =
     (case httpServer a of
        None \<Rightarrow> a
      | Some s \<Rightarrow> if err = None then a\<lparr>httpServer := Some (SetReady True s)\<rparr>
                  else a\<lparr>httpServer := Some (SetReady False s)\<rparr>)"

text \<open>The operations of the status updater act on the file system.\<close>

definition on_files :: "(fsys \<Rightarrow> status_error option \<times> fsys) \<Rightarrow> 'w app \<Rightarrow> run_error option \<times> 'w app" where
  "on_files f a =
     (case f (p2f_fs (app_files a)) of
        (e, fs1) \<Rightarrow> (map_option StatusFailed e, a\<lparr>app_files := (app_files a)\<lparr>p2f_fs := fs1\<rparr>\<rparr>))"

definition with_retry ::
  "('w retry_state, run_error) retryNotify \<Rightarrow> ProviderRefreshConfig \<Rightarrow> 'w ProviderFunc \<Rightarrow> 'w app \<Rightarrow> 'w ProviderFunc \<times> 'w app" where
  "with_retry retry config provideSecrets a =
     (if RetryInterval config > 0 then
        (RetryableSecretProvider retry provideSecrets
           (if httpServer a \<noteq> None then Some (\<lambda>err. setReady (Some err)) else None),
         a\<lparr>app_backoff := NewLimitedBackOff (RetryInterval config) (RetryCountLimit_run config)\<rparr>)
      else (provideSecrets, a))"

text \<open>The start either returns from the run, or crashes, or leaves it waiting for its goroutines.\<close>

datatype run_start = StartReturned "run_error option" | StartCrashed | StartWaiting

definition run_start_phase ::
  "ProviderRefreshConfig \<Rightarrow> 'w ProviderFunc \<Rightarrow> fsys StatusUpdater \<Rightarrow> 'w app \<Rightarrow> (run_start \<times> 'w app) option" where
  "run_start_phase config provideSecrets status a =
     (case on_files (su_CopyScripts status) a of
        (Some err, a1) \<Rightarrow> Some (StartReturned (Some err), a1)
      | (None, a1) \<Rightarrow>
          (case provideSecrets a1 of
             None \<Rightarrow> None
           | Some (Panic, a2) \<Rightarrow> Some (StartCrashed, a2)
           | Some (Ret (_, err), a2) \<Rightarrow>
               if err \<noteq> None \<and> RunOnce config then Some (StartReturned err, a2)
               else
                 (let a3 = setReady err a2;
                      (err1, a4) = (if err = None then on_files (su_SetSecretsProvided status) a3 else (err, a3))
                  in if err = None \<and> err1 \<noteq> None \<and> RunOnce config then Some (StartReturned err1, a4)
                     else if RunOnce config then Some (StartReturned None, a4)
                     else Some (StartWaiting, a4))))"

section \<open>The informer-triggered goroutine\<close>

text \<open>
  Its local variables. The timer and its channel are set and cleared together: the field is the
  time at which the timer fires.
\<close>

record informer_loop =
  debounceTimer :: "int option"
  eventCount :: int
  firstEventTime :: int
  keysToRemoveCumulative :: keys_to_remove

definition new_informer_loop :: informer_loop where
  "new_informer_loop = \<lparr>debounceTimer = None, eventCount = 0, firstEventTime = 0, keysToRemoveCumulative = []\<rparr>"

text \<open>
  What an update adds to the keys to remove and takes back from them. Merging does not look at
  the provider; asking a nil provider for the removed keys panics.
\<close>

definition append_keys :: "keys_to_remove \<Rightarrow> keys_to_remove \<Rightarrow> keys_to_remove" where
  "append_keys keysToRemove cumulative =
     fold (\<lambda>(n, keys) c. gput n (gget [] c n @ keys) c) keysToRemove cumulative"

definition accumulate_keys ::
  "yaml_map \<Rightarrow> K8sProvider option \<Rightarrow> SecretEvent \<Rightarrow> keys_to_remove \<Rightarrow> keys_to_remove outcome" where
  "accumulate_keys yaml instance event cumulative =
     (if se_EventType event = SecretEventTypeUpdate then
        (let merged = MergeReAddedKeys yaml cumulative (se_OldSecret event) (Some (se_Secret event)) in
         case instance of
           None \<Rightarrow> Panic
         | Some p \<Rightarrow> Ret (append_keys (GetRemovedKeys yaml p (se_OldSecret event) (Some (se_Secret event))) merged))
      else Ret cumulative)"

text \<open>The provider runs with the keys to remove, if there are any, and without retries then.\<close>

definition run_provide_secrets ::
  "('w, 'tpl) run_env \<Rightarrow> 'w ProviderFunc \<Rightarrow> fsys StatusUpdater \<Rightarrow> informer_loop \<Rightarrow> 'w app
     \<Rightarrow> (run_error option outcome \<times> informer_loop \<times> 'w app) option" where
  "run_provide_secrets env provideSecrets status l a =
     (let keys = keysToRemoveCumulative l;
          provided = (if length keys > 0 then Some (instance_cleanup env keys a) else provideSecrets a);
          l1 = (if length keys > 0 then l\<lparr>keysToRemoveCumulative := []\<rparr> else l)
      in case provided of
           None \<Rightarrow> None
         | Some (Panic, a1) \<Rightarrow> Some (Panic, l1, a1)
         | Some (Ret (updated, err), a1) \<Rightarrow>
             (let a2 = setReady err a1;
                  (err1, a3) = (if err = None \<and> updated then on_files (su_SetSecretsUpdated status) a2 else (err, a2))
              in Some (Ret err1, l1\<lparr>debounceTimer := None, eventCount := 0\<rparr>, a3)))"

text \<open>An event is counted and accumulated; it restarts the timer, unless the maximal delay is over.\<close>

definition count_event :: "int \<Rightarrow> informer_loop \<Rightarrow> informer_loop" where
  "count_event now l =
     (let l1 = l\<lparr>eventCount := eventCount l + 1\<rparr>
      in if eventCount l1 = 1 then l1\<lparr>firstEventTime := now\<rparr> else l1)"

definition handle_event ::
  "('w, 'tpl) run_env \<Rightarrow> 'w ProviderFunc \<Rightarrow> fsys StatusUpdater \<Rightarrow> int \<Rightarrow> SecretEvent \<Rightarrow> informer_loop \<Rightarrow> 'w app
     \<Rightarrow> (run_error option outcome \<times> informer_loop \<times> 'w app) option" where
  "handle_event env provideSecrets status now event l a =
     (let l1 = count_event now l in
      case accumulate_keys (re_yaml_map env) (K8sProviderInstance a) event (keysToRemoveCumulative l1) of
        Panic \<Rightarrow> Some (Panic, l1, a)
      | Ret keys \<Rightarrow>
          (let l2 = l1\<lparr>keysToRemoveCumulative := keys\<rparr> in
           if now - firstEventTime l2 \<ge> informerDebounceMaxDelay
           then run_provide_secrets env provideSecrets status l2 a
           else Some (Ret None, l2\<lparr>debounceTimer := Some (now + informerDebounceDelay)\<rparr>, a)))"

section \<open>The periodic goroutine\<close>

definition periodic_provide ::
  "'w ProviderFunc \<Rightarrow> fsys StatusUpdater \<Rightarrow> 'w app \<Rightarrow> (run_error option outcome \<times> 'w app) option" where
  "periodic_provide provideSecrets status a =
     (case provideSecrets a of
        None \<Rightarrow> None
      | Some (Panic, a1) \<Rightarrow> Some (Panic, a1)
      | Some (Ret (updated, err), a1) \<Rightarrow>
          (let a2 = setReady err a1;
               (err1, a3) = (if err = None \<and> updated then on_files (su_SetSecretsUpdated status) a2 else (err, a2))
           in Some (Ret err1, a3)))"

section \<open>The running system\<close>

text \<open>
  A goroutine is absent, waits in its select statement, works on what it has received (an event,
  with the time at which it was received, or nothing more than a tick), is blocked sending an
  error to the main goroutine, or has ended. The main goroutine waits, has left its select
  statement and is about to return, or the process has crashed.
\<close>

datatype goroutine = Absent | Idle | Working "(int \<times> SecretEvent) option" | Sending run_error | Ended

datatype main_state = Waiting | Returned "run_error option" | Crashed

record 'w running =
  r_app :: "'w app"
  r_now :: int
  r_events :: "SecretEvent list"
  r_loop :: informer_loop
  r_informer :: goroutine
  r_periodic :: goroutine
  r_main :: main_state

text \<open>What becomes of a goroutine after an iteration: it goes on, sends its error, or the process crashes.\<close>

definition after_informer :: "run_error option outcome \<Rightarrow> informer_loop \<Rightarrow> 'w app \<Rightarrow> 'w running \<Rightarrow> 'w running" where
  "after_informer res l a r =
     (case res of
        Panic \<Rightarrow> r\<lparr>r_loop := l, r_app := a, r_main := Crashed\<rparr>
      | Ret None \<Rightarrow> r\<lparr>r_loop := l, r_app := a, r_informer := Idle\<rparr>
      | Ret (Some e) \<Rightarrow> r\<lparr>r_loop := l, r_app := a, r_informer := Sending e\<rparr>)"

definition after_periodic :: "run_error option outcome \<Rightarrow> 'w app \<Rightarrow> 'w running \<Rightarrow> 'w running" where
  "after_periodic res a r =
     (case res of
        Panic \<Rightarrow> r\<lparr>r_app := a, r_main := Crashed\<rparr>
      | Ret None \<Rightarrow> r\<lparr>r_app := a, r_periodic := Idle\<rparr>
      | Ret (Some e) \<Rightarrow> r\<lparr>r_app := a, r_periodic := Sending e\<rparr>)"

text \<open>The main goroutine receives an error: outside standalone mode it becomes the result.\<close>

definition main_receives :: "ProviderRefreshConfig \<Rightarrow> run_error \<Rightarrow> main_state" where
  "main_receives config e = Returned (if Mode config \<noteq> ''standalone'' then Some e else None)"

text \<open>The state in which the main goroutine starts to wait.\<close>

definition start_running :: "ProviderRefreshConfig \<Rightarrow> int \<Rightarrow> 'w app \<Rightarrow> 'w running" where
  "start_running config now a =
     \<lparr>r_app = a, r_now = now, r_events = [], r_loop = new_informer_loop,
      r_informer = (if hasInformerEvents config then Idle else Absent),
      r_periodic = (if SecretRefreshInterval config > 0 then Idle else Absent),
      r_main = Waiting\<rparr>"

text \<open>
  The steps, until the process has crashed. Events arrive in the channel and time passes. A
  goroutine that waits takes up a tick, an event or the timer that is due, whichever it chooses;
  what it does with it takes time, during which the other steps go on, and takes effect at the
  end. The main goroutine, as long as it waits, receives a blocked error or a message on the quit
  channel (without goroutines, a signal). Then it closes the channel on which the others listen:
  a goroutine that waits may end, but as its select statement chooses freely it may as well take
  up what else is there, and an error that it sends then is not received any more.
\<close>

inductive rstep ::
  "('w, 'tpl) run_env \<Rightarrow> ProviderRefreshConfig \<Rightarrow> 'w ProviderFunc \<Rightarrow> fsys StatusUpdater \<Rightarrow> 'w running \<Rightarrow> 'w running \<Rightarrow> bool"
  for env and config and provideSecrets and status where
  arrive: "r_main r \<noteq> Crashed \<Longrightarrow> length (r_events r) < 10
     \<Longrightarrow> rstep env config provideSecrets status r (r\<lparr>r_events := r_events r @ [e]\<rparr>)"
| elapse: "r_main r \<noteq> Crashed \<Longrightarrow> 0 \<le> d
     \<Longrightarrow> rstep env config provideSecrets status r (r\<lparr>r_now := r_now r + d\<rparr>)"
| tick: "r_main r \<noteq> Crashed \<Longrightarrow> r_periodic r = Idle
     \<Longrightarrow> rstep env config provideSecrets status r (r\<lparr>r_periodic := Working None\<rparr>)"
| tick_done: "r_main r \<noteq> Crashed \<Longrightarrow> r_periodic r = Working None
     \<Longrightarrow> periodic_provide provideSecrets status (r_app r) = Some (res, a)
     \<Longrightarrow> rstep env config provideSecrets status r (after_periodic res a r)"
| event: "r_main r \<noteq> Crashed \<Longrightarrow> r_informer r = Idle \<Longrightarrow> r_events r = e # es
     \<Longrightarrow> rstep env config provideSecrets status r (r\<lparr>r_events := es, r_informer := Working (Some (r_now r, e))\<rparr>)"
| event_done: "r_main r \<noteq> Crashed \<Longrightarrow> r_informer r = Working (Some (now, e))
     \<Longrightarrow> handle_event env provideSecrets status now e (r_loop r) (r_app r) = Some (res, l, a)
     \<Longrightarrow> rstep env config provideSecrets status r (after_informer res l a r)"
| timer: "r_main r \<noteq> Crashed \<Longrightarrow> r_informer r = Idle \<Longrightarrow> debounceTimer (r_loop r) = Some t \<Longrightarrow> t \<le> r_now r
     \<Longrightarrow> rstep env config provideSecrets status r (r\<lparr>r_informer := Working None\<rparr>)"
| timer_done: "r_main r \<noteq> Crashed \<Longrightarrow> r_informer r = Working None
     \<Longrightarrow> run_provide_secrets env provideSecrets status (r_loop r) (r_app r) = Some (res, l, a)
     \<Longrightarrow> rstep env config provideSecrets status r (after_informer res l a r)"
| error_informer: "r_main r = Waiting \<Longrightarrow> r_informer r = Sending e
     \<Longrightarrow> rstep env config provideSecrets status r (r\<lparr>r_informer := Idle, r_main := main_receives config e\<rparr>)"
| error_periodic: "r_main r = Waiting \<Longrightarrow> r_periodic r = Sending e
     \<Longrightarrow> rstep env config provideSecrets status r (r\<lparr>r_periodic := Idle, r_main := main_receives config e\<rparr>)"
| quit: "r_main r = Waiting \<Longrightarrow> rstep env config provideSecrets status r (r\<lparr>r_main := Returned None\<rparr>)"
| informer_ends: "r_main r = Returned err \<Longrightarrow> r_informer r = Idle
     \<Longrightarrow> rstep env config provideSecrets status r (r\<lparr>r_informer := Ended\<rparr>)"
| periodic_ends: "r_main r = Returned err \<Longrightarrow> r_periodic r = Idle
     \<Longrightarrow> rstep env config provideSecrets status r (r\<lparr>r_periodic := Ended\<rparr>)"

inductive_cases rstepE: "rstep env config provideSecrets status r r'"

inductive reach ::
  "('w, 'tpl) run_env \<Rightarrow> ProviderRefreshConfig \<Rightarrow> 'w ProviderFunc \<Rightarrow> fsys StatusUpdater \<Rightarrow> 'w running \<Rightarrow> 'w running \<Rightarrow> bool"
  for env and config and provideSecrets and status and r where
  here: "reach env config provideSecrets status r r"
| more: "reach env config provideSecrets status r r1 \<Longrightarrow> rstep env config provideSecrets status r1 r2
     \<Longrightarrow> reach env config provideSecrets status r r2"

text \<open>The whole function, up to the point where it waits; then the steps above lead to its result.\<close>

definition RunSecretsProvider ::
  "('w, 'tpl) run_env \<Rightarrow> ('w retry_state, run_error) retryNotify \<Rightarrow> ProviderRefreshConfig \<Rightarrow> 'w ProviderFunc
     \<Rightarrow> fsys StatusUpdater \<Rightarrow> 'w app \<Rightarrow> run_error option \<Rightarrow> 'w app \<Rightarrow> bool" where
  "RunSecretsProvider env retry config provideSecrets status a err a' \<longleftrightarrow>
     (case with_retry retry config provideSecrets a of
        (provide, a1) \<Rightarrow>
          (case run_start_phase config provide status a1 of
             Some (StartReturned e, a2) \<Rightarrow> err = e \<and> a' = a2
           | Some (StartWaiting, a2) \<Rightarrow>
               (\<exists>now r. reach env config provide status (start_running config now a2) r
                  \<and> r_main r = Returned err \<and> r_app r = a')
           | _ \<Rightarrow> False))"

end
