(* ===== verification/Retry_Facts.thy ===== *)
theory Retry_Facts
  imports Provider_Run
begin

text \<open>
  How often a provider is retried and with which result. The bound rests on the interpretation of
  the back-off interface; the loop of the back-off library is a parameter that behaves as
  documented, and one such loop is given for the concrete situation.
\<close>

section \<open>Retrying\<close>

text \<open>
  The state before each attempt, for a provider that always returns: the back-off is reset first;
  a failed attempt spends one retry and is notified.
\<close>

primrec before_attempt ::
  "('w app \<Rightarrow> (bool \<times> run_error option) \<times> 'w app) \<Rightarrow> (run_error \<Rightarrow> 'w app \<Rightarrow> 'w app) option \<Rightarrow> 'w app \<Rightarrow> nat \<Rightarrow> 'w app" where
  "before_attempt f onRetry a 0 = a\<lparr>app_backoff := Reset (app_backoff a)\<rparr>"
| "before_attempt f onRetry a (Suc k) =
     (case f (before_attempt f onRetry a k) of
        ((u, err), a1) \<Rightarrow>
          (let a2 = a1\<lparr>app_backoff := snd (NextBackOff (app_backoff a1))\<rparr>
           in case onRetry of None \<Rightarrow> a2 | Some g \<Rightarrow> g (the err) a2))"

definition attempt_fails ::
  "('w app \<Rightarrow> (bool \<times> run_error option) \<times> 'w app) \<Rightarrow> (run_error \<Rightarrow> 'w app \<Rightarrow> 'w app) option \<Rightarrow> 'w app \<Rightarrow> nat \<Rightarrow> bool" where
  "attempt_fails f onRetry a k \<longleftrightarrow> snd (fst (f (before_attempt f onRetry a k))) \<noteq> None"

definition keeps_backoff :: "('w app \<Rightarrow> 'w app) \<Rightarrow> bool" where
  "keeps_backoff g \<longleftrightarrow> (\<forall>a. app_backoff (g a) = app_backoff a)"

lemma backoff_before_attempt:
  assumes "keeps_backoff (\<lambda>a. snd (f a))" and "\<forall>g e. onRetry = Some g \<longrightarrow> keeps_backoff (g e)"
  shows "app_backoff (before_attempt f onRetry a (Suc k)) = snd (NextBackOff (app_backoff (before_attempt f onRetry a k)))"
  using assms by (auto simp: keeps_backoff_def case_prod_unfold Let_def split: option.splits)

lemma budget_before_attempt:
  assumes "keeps_backoff (\<lambda>a. snd (f a))" and "\<forall>g e. onRetry = Some g \<longrightarrow> keeps_backoff (g e)"
    and "0 \<le> Interval (app_backoff a)" and "0 \<le> RetryLimit (app_backoff a) \<longrightarrow> k \<le> nat (RetryLimit (app_backoff a))"
  shows "backoff_ok (app_backoff (before_attempt f onRetry a k))
    \<and> retry_budget (app_backoff (before_attempt f onRetry a k)) =
        (if RetryLimit (app_backoff a) < 0 then None else Some (nat (RetryLimit (app_backoff a)) - k))"
  using assms(4)
proof (induction k)
  case 0
  show ?case
    using backoff_ok_Reset [OF assms(3)] retry_budget_Reset [of "app_backoff a"]
    by (auto simp: retry_budget_def Reset_def)
next
  case (Suc k)
  let ?b = "app_backoff (before_attempt f onRetry a k)"
  have ih: "backoff_ok ?b" "retry_budget ?b = (if RetryLimit (app_backoff a) < 0 then None else Some (nat (RetryLimit (app_backoff a)) - k))"
    using Suc by auto
  have "retry_budget (snd (NextBackOff ?b)) = (if RetryLimit (app_backoff a) < 0 then None else Some (nat (RetryLimit (app_backoff a)) - Suc k))"
    using limited.unlimited [OF ih(1)] limited.spend [OF ih(1), of "nat (RetryLimit (app_backoff a)) - Suc k"] ih(2) Suc.prems
    by (auto simp: Suc_diff_Suc)
  then show ?case
    unfolding backoff_before_attempt [OF assms(1,2)] using limited.ok_next [OF ih(1)] by blast
qed

text \<open>The documented loop runs through these attempts.\<close>

lemma attempts_until:
  assumes total: "\<And>a. provide a = Some (Ret (fst (f a)), snd (f a))"
    and keeps: "keeps_backoff (\<lambda>a. snd (f a))" "\<forall>g e. onRetry = Some g \<longrightarrow> keeps_backoff (g e)"
    and int: "0 \<le> Interval (app_backoff a)"
    and failed: "\<And>i. i < k \<Longrightarrow> attempt_fails f onRetry a i"
    and limit: "0 \<le> RetryLimit (app_backoff a) \<Longrightarrow> k \<le> nat (RetryLimit (app_backoff a))"
    and last: "attempt_fails f onRetry a k \<Longrightarrow> 0 \<le> RetryLimit (app_backoff a) \<and> k = nat (RetryLimit (app_backoff a))"
    and "j \<le> k"
  shows "\<exists>b. attempts (retry_op provide) retry_next (retry_notify onRetry) (before_attempt f onRetry a j, v)
     (Ret (snd (fst (f (before_attempt f onRetry a k)))))
     ((snd (f (before_attempt f onRetry a k)))\<lparr>app_backoff := b\<rparr>, fst (f (before_attempt f onRetry a k)))"
  using \<open>j \<le> k\<close>
proof (induction "k - j" arbitrary: j v)
  case 0
  then have j: "j = k" by simp
  let ?s = "before_attempt f onRetry a k"
  have op: "retry_op provide (?s, v) = Some (Ret (snd (fst (f ?s))), (snd (f ?s), fst (f ?s)))"
    by (simp add: retry_op_def total case_prod_unfold split: prod.splits)
  show ?case
  proof (cases "snd (fst (f ?s))")
    case None
    then have "attempts (retry_op provide) retry_next (retry_notify onRetry) (?s, v) (Ret None) (snd (f ?s), fst (f ?s))"
      using op by (intro attempts.succeeds) simp
    then show ?thesis unfolding j None by (intro exI [of _ "app_backoff (snd (f ?s))"]) simp
  next
    case (Some e)
    then have lim: "0 \<le> RetryLimit (app_backoff a)" "k = nat (RetryLimit (app_backoff a))"
      using last by (auto simp: attempt_fails_def)
    have b: "backoff_ok (app_backoff ?s)" "retry_budget (app_backoff ?s) = Some 0"
      using budget_before_attempt [OF keeps int, of k] lim by auto
    have same: "app_backoff (snd (f ?s)) = app_backoff ?s" using keeps(1) by (simp add: keeps_backoff_def)
    have "fst (NextBackOff (app_backoff ?s)) = Stop" by (rule limited.stop_empty [OF b])
    then have "retry_next (snd (f ?s), fst (f ?s))
        = (Stop, ((snd (f ?s))\<lparr>app_backoff := snd (NextBackOff (app_backoff ?s))\<rparr>, fst (f ?s)))"
      by (simp add: retry_next_def same case_prod_unfold)
    with op Some show ?thesis unfolding j by (metis attempts.stops)
  qed
next
  case (Suc d)
  let ?s = "before_attempt f onRetry a j"
  have j: "j < k" "d = k - Suc j" "Suc j \<le> k" using Suc.hyps(2) Suc.prems by auto
  obtain e where e: "snd (fst (f ?s)) = Some e" using failed [OF j(1)] by (auto simp: attempt_fails_def)
  have op: "retry_op provide (?s, v) = Some (Ret (Some e), (snd (f ?s), fst (f ?s)))"
    using e by (simp add: retry_op_def total case_prod_unfold split: prod.splits)
  have same: "app_backoff (snd (f ?s)) = app_backoff ?s" using keeps(1) by (simp add: keeps_backoff_def)
  have jlim: "0 \<le> RetryLimit (app_backoff a) \<longrightarrow> j \<le> nat (RetryLimit (app_backoff a))" using limit j(1) by force
  have b: "backoff_ok (app_backoff ?s)" "retry_budget (app_backoff ?s) \<noteq> Some 0"
    using budget_before_attempt [OF keeps int jlim] limit j(1) by auto
  let ?n = "NextBackOff (app_backoff ?s)"
  have nxt: "retry_next (snd (f ?s), fst (f ?s)) = (fst ?n, ((snd (f ?s))\<lparr>app_backoff := snd ?n\<rparr>, fst (f ?s)))"
    by (simp add: retry_next_def same case_prod_unfold)
  have go: "fst ?n \<noteq> Stop" by (rule limited.go_nonempty [OF b])
  have notified: "retry_notify onRetry e (fst ?n) ((snd (f ?s))\<lparr>app_backoff := snd ?n\<rparr>, fst (f ?s))
      = (before_attempt f onRetry a (Suc j), fst (f ?s))"
    using e same by (auto simp: retry_notify_def case_prod_unfold Let_def split: option.splits)
  from Suc.hyps(1) [OF j(2,3)] show ?case
    using attempts.again [where op = "retry_op provide" and nextb = retry_next and notify = "retry_notify onRetry", OF op nxt go] unfolding notified by blast
qed

lemma retry_returns:
  assumes ok: "retry_notify_ok retry"
    and total: "\<And>a. provide a = Some (Ret (fst (f a)), snd (f a))"
    and keeps: "keeps_backoff (\<lambda>a. snd (f a))" "\<forall>g e. onRetry = Some g \<longrightarrow> keeps_backoff (g e)"
    and int: "0 \<le> Interval (app_backoff a)"
    and failed: "\<And>i. i < k \<Longrightarrow> attempt_fails f onRetry a i"
    and limit: "0 \<le> RetryLimit (app_backoff a) \<Longrightarrow> k \<le> nat (RetryLimit (app_backoff a))"
    and last: "attempt_fails f onRetry a k \<Longrightarrow> 0 \<le> RetryLimit (app_backoff a) \<and> k = nat (RetryLimit (app_backoff a))"
  shows "\<exists>b. RetryableSecretProvider retry provide onRetry a =
     Some (Ret (fst (f (before_attempt f onRetry a k))), (snd (f (before_attempt f onRetry a k)))\<lparr>app_backoff := b\<rparr>)"
proof -
  let ?s = "before_attempt f onRetry a k"
  have start: "retry_reset (a, False, None) = (before_attempt f onRetry a 0, False, None)" by (simp add: retry_reset_def)
  obtain b where "attempts (retry_op provide) retry_next (retry_notify onRetry) (before_attempt f onRetry a 0, False, None)
     (Ret (snd (fst (f ?s)))) ((snd (f ?s))\<lparr>app_backoff := b\<rparr>, fst (f ?s))"
    using attempts_until [OF total keeps int failed limit last, of 0 "(False, None)"] by auto
  then have "retry (retry_op provide) retry_reset retry_next (retry_notify onRetry) (a, False, None)
      = Some (Ret (snd (fst (f ?s))), ((snd (f ?s))\<lparr>app_backoff := b\<rparr>, fst (f ?s)))"
    using ok start unfolding retry_notify_ok_def by metis
  then show ?thesis
    by (cases "fst (f ?s)"; cases "snd (fst (f ?s))") (auto simp: RetryableSecretProvider_def)
qed

text \<open>
  (C10) How often a provider is retried, for every provider that returns and every retry loop that
  behaves as documented. With a limit the call returns after at most limit + 1 attempts: with the
  result of the first attempt that succeeds or, if all fail, of the last one. Without a limit it
  returns as soon as an attempt succeeds, with that attempt's result.
\<close>

theorem retries_are_bounded:
  assumes "retry_notify_ok retry" and "\<And>a. provide a = Some (Ret (fst (f a)), snd (f a))"
    and "keeps_backoff (\<lambda>a. snd (f a))" and "\<forall>g e. onRetry = Some g \<longrightarrow> keeps_backoff (g e)"
    and "0 \<le> Interval (app_backoff a)"
  defines "fails \<equiv> attempt_fails f onRetry a" and "limit \<equiv> RetryLimit (app_backoff a)"
    and "returns \<equiv> \<lambda>k. \<exists>b. RetryableSecretProvider retry provide onRetry a =
           Some (Ret (fst (f (before_attempt f onRetry a k))), (snd (f (before_attempt f onRetry a k)))\<lparr>app_backoff := b\<rparr>)"
  shows "(0 \<le> limit \<longrightarrow> (\<exists>k\<le>nat limit. (\<forall>i<k. fails i) \<and> (fails k \<longrightarrow> k = nat limit) \<and> returns k))
     \<and> (limit < 0 \<longrightarrow> (\<forall>k. (\<forall>i<k. fails i) \<and> \<not> fails k \<longrightarrow> returns k))"
proof -
  have ret: "returns k" if "\<forall>i<k. fails i" "0 \<le> limit \<Longrightarrow> k \<le> nat limit" "fails k \<Longrightarrow> 0 \<le> limit \<and> k = nat limit" for k
    using retry_returns [OF assms(1-5), of k] that unfolding fails_def limit_def returns_def by blast
  have "\<exists>k\<le>nat limit. (\<forall>i<k. fails i) \<and> (fails k \<longrightarrow> k = nat limit) \<and> returns k" if pos: "0 \<le> limit"
  proof (cases "\<exists>i\<le>nat limit. \<not> fails i")
    case True
    then obtain i where i: "i \<le> nat limit" "\<not> fails i" by blast
    define k where "k = (LEAST i. \<not> fails i)"
    have k: "\<not> fails k" unfolding k_def by (rule LeastI [of "\<lambda>i. \<not> fails i" i]) (rule i(2))
    moreover have "\<forall>i<k. fails i" unfolding k_def using not_less_Least by blast
    moreover have "k \<le> nat limit" unfolding k_def using Least_le [of "\<lambda>i. \<not> fails i" i] i by linarith
    ultimately show ?thesis using ret [of k] by blast
  next
    case False
    then show ?thesis using ret [of "nat limit"] pos by (intro exI [of _ "nat limit"]) auto
  qed
  moreover have "returns k" if "limit < 0" "\<forall>i<k. fails i" "\<not> fails k" for k
    using ret [of k] that by simp
  ultimately show ?thesis by blast
qed

text \<open>A retry loop that behaves as documented.\<close>

fun the_error :: "'e option outcome \<Rightarrow> 'e option" where
  "the_error (Ret e) = e"
| "the_error Panic = None"

partial_function (option) retry_loop ::
  "('x \<Rightarrow> ('e option outcome \<times> 'x) option) \<Rightarrow> ('x \<Rightarrow> int \<times> 'x) \<Rightarrow> ('e \<Rightarrow> int \<Rightarrow> 'x \<Rightarrow> 'x) \<Rightarrow> 'x
     \<Rightarrow> ('e option outcome \<times> 'x) option" where
  "retry_loop op nextb notify x =
     (case op x of
        None \<Rightarrow> None
      | Some (res, x1) \<Rightarrow>
          (case the_error res of
             None \<Rightarrow> Some (res, x1)
           | Some e \<Rightarrow>
               (case nextb x1 of
                  (d, x2) \<Rightarrow> if d = Stop then Some (res, x2) else retry_loop op nextb notify (notify e d x2))))"

lemma retry_loop_ok: "retry_notify_ok (\<lambda>op reset nextb notify x. retry_loop op nextb notify (reset x))"
proof -
  have "retry_loop op nextb notify x = Some (r, x')" if "attempts op nextb notify x r x'" for op nextb notify and x x' :: 'a and r :: "'b option outcome"
    using that by (induction rule: attempts.induct) (subst retry_loop.simps; simp)+
  then show ?thesis by (simp add: retry_notify_ok_def)
qed

text \<open>A provider whose first two attempts fail, counted in the world.\<close>

definition flaky :: "nat app \<Rightarrow> (bool \<times> run_error option) \<times> nat app" where
  "flaky a = ((2 \<le> app_world a, if app_world a < 2 then Some (K8sFailed ''down'') else None), a\<lparr>app_world := Suc (app_world a)\<rparr>)"

definition flaky_func :: "nat ProviderFunc" where
  "flaky_func a = Some (Ret (fst (flaky a)), snd (flaky a))"

definition demo_files :: p2f_state where
  "demo_files = \<lparr>p2f_fs = image_fs, prevFileChecksums = []\<rparr>"

definition demo_app :: "int \<Rightarrow> nat app" where
  "demo_app limit = \<lparr>K8sProviderInstance = None, app_files = demo_files, app_world = 0,
     httpServer = None, app_backoff = NewLimitedBackOff 1000000000 limit\<rparr>"

theorem retries_are_bounded_witness:
  "\<exists>b. RetryableSecretProvider (\<lambda>op reset nextb notify x. retry_loop op nextb notify (reset x)) flaky_func None (demo_app 1)
     = Some (Ret (False, Some (K8sFailed ''down'')), (demo_app 1)\<lparr>app_world := 2, app_backoff := b\<rparr>)"
proof -
  let ?L = "RetryLimit (app_backoff (demo_app 1))"
  have L: "nat ?L = 1" "0 \<le> ?L" by (simp_all add: demo_app_def NewLimitedBackOff_def)
  have "\<exists>k\<le>nat ?L. (\<forall>i<k. attempt_fails flaky None (demo_app 1) i) \<and> (attempt_fails flaky None (demo_app 1) k \<longrightarrow> k = nat ?L) \<and>
      (\<exists>b. RetryableSecretProvider (\<lambda>op reset nextb notify x. retry_loop op nextb notify (reset x)) flaky_func None (demo_app 1)
        = Some (Ret (fst (flaky (before_attempt flaky None (demo_app 1) k))), (snd (flaky (before_attempt flaky None (demo_app 1) k)))\<lparr>app_backoff := b\<rparr>))"
    using retries_are_bounded [OF retry_loop_ok, of flaky_func flaky None "demo_app 1"] L(2)
    by (simp add: flaky_func_def keeps_backoff_def flaky_def demo_app_def NewLimitedBackOff_def)
  moreover have "attempt_fails flaky None (demo_app 1) 0"
    by (simp add: attempt_fails_def flaky_def demo_app_def)
  ultimately obtain k b where "k = 1"
    "RetryableSecretProvider (\<lambda>op reset nextb notify x. retry_loop op nextb notify (reset x)) flaky_func None (demo_app 1)
        = Some (Ret (fst (flaky (before_attempt flaky None (demo_app 1) k))), (snd (flaky (before_attempt flaky None (demo_app 1) k)))\<lparr>app_backoff := b\<rparr>)"
    unfolding L(1) by (metis One_nat_def le_SucE le_zero_eq)
  then show ?thesis
    by (intro exI [of _ b]) (simp add: flaky_def demo_app_def Let_def)
qed

end
