(* ===== verification/Run_Facts.thy ===== *)
theory Run_Facts
  imports Retry_Facts K8s_Facts
begin

text \<open>
  Facts about running the provider: which keys are pending for removal when the
  informer-triggered goroutine runs the provider, as a refinement of sets of keys; how long an
  event can wait, as an invariant of the step relation; what the start of a run leaves behind; and
  what becomes of errors.
\<close>

section \<open>Keys pending for removal\<close>

text \<open>
  Refinement along a function: if every step of the concrete system returns and its result
  abstracts to the step of the abstract system, then so do whole runs.
\<close>

locale step_refinement =
  fixes cstep :: "'e \<Rightarrow> 'c \<Rightarrow> 'c outcome" and astep :: "'e \<Rightarrow> 'a \<Rightarrow> 'a" and abst :: "'c \<Rightarrow> 'a" and ok :: "'e \<Rightarrow> bool"
  assumes step: "ok e \<Longrightarrow> \<exists>c'. cstep e c = Ret c' \<and> abst c' = astep e (abst c)"
begin

lemma run: "list_all ok es \<Longrightarrow> \<exists>c'. ofold cstep es c = Ret c' \<and> abst c' = fold astep es (abst c)"
proof (induction es arbitrary: c)
  case (Cons e es)
  obtain c' where c': "cstep e c = Ret c'" "abst c' = astep e (abst c)" using step [of e c] Cons.prems by auto
  with Cons.IH [of c'] Cons.prems show ?case by auto
qed simp

end

definition conjur_keys :: "yaml_map \<Rightarrow> v1_secret \<Rightarrow> string set" where
  "conjur_keys yaml s = fst ` set (parseConjurMap yaml (Some s))"

definition is_update :: "SecretEvent \<Rightarrow> bool" where
  "is_update e \<longleftrightarrow> se_EventType e = SecretEventTypeUpdate"

text \<open>The abstract system: for every Secret a set of keys; an update takes back what it adds and adds what it removes.\<close>

definition pending_sets :: "keys_to_remove \<Rightarrow> string \<Rightarrow> string set" where
  "pending_sets c n = set (gget [] c n)"

definition pending_event :: "yaml_map \<Rightarrow> SecretEvent \<Rightarrow> (string \<Rightarrow> string set) \<Rightarrow> string \<Rightarrow> string set" where
  "pending_event yaml e A =
     (case se_OldSecret e of
        None \<Rightarrow> A
      | Some old \<Rightarrow>
          if is_update e then
            (let n = sec_Name (se_Secret e); new_keys = conjur_keys yaml (se_Secret e); old_keys = conjur_keys yaml old
             in A(n := (A n - (new_keys - old_keys)) \<union> (old_keys - new_keys)))
          else A)"

lemma set_added_removed:
  "set (getAddedConjurMapKeys yaml (Some old) (Some new)) = conjur_keys yaml new - conjur_keys yaml old"
  "set (getRemovedConjurMapKeys yaml (Some old) (Some new)) = conjur_keys yaml old - conjur_keys yaml new"
  by (auto simp: getAddedConjurMapKeys_def getRemovedConjurMapKeys_def conjur_keys_def gkeys_def ghas_def)

lemma pending_sets_append:
  "pending_sets (append_keys (if keys = [] then [] else gput n keys []) c) = (pending_sets c)(n := pending_sets c n \<union> set keys)"
proof -
  have "gput n keys [] = [(n, keys)]" by (simp add: gput_def)
  then show ?thesis by (auto simp: fun_eq_iff pending_sets_def append_keys_def)
qed

lemma pending_sets_merge:
  "pending_sets (MergeReAddedKeys yaml c (Some old) (Some new)) =
     (pending_sets c)(sec_Name new := pending_sets c (sec_Name new) - (conjur_keys yaml new - conjur_keys yaml old))"
  using merge_readded [OF refl, of yaml c "Some old" new]
  by (auto simp: fun_eq_iff pending_sets_def set_added_removed)

definition removal_ok :: "K8sProvider \<Rightarrow> SecretEvent \<Rightarrow> bool" where
  "removal_ok p e \<longleftrightarrow> sanitize_on p \<and> (is_update e \<longrightarrow> se_OldSecret e \<noteq> None)"

interpretation removals: step_refinement "accumulate_keys yaml (Some p)" "pending_event yaml" pending_sets "removal_ok p"
proof unfold_locales
  fix e c
  assume ok: "removal_ok p e"
  show "\<exists>c'. accumulate_keys yaml (Some p) e c = Ret c' \<and> pending_sets c' = pending_event yaml e (pending_sets c)"
  proof (cases "is_update e")
    case True
    with ok obtain old where old: "se_OldSecret e = Some old" "sanitize_on p" by (auto simp: removal_ok_def)
    let ?new = "se_Secret e"
    let ?removed = "getRemovedConjurMapKeys yaml (Some old) (Some ?new)"
    let ?m = "MergeReAddedKeys yaml c (Some old) (Some ?new)"
    have "GetRemovedKeys yaml p (Some old) (Some ?new) = (if ?removed = [] then [] else gput (sec_Name ?new) ?removed [])"
      using old(2) by (simp add: GetRemovedKeys_def Let_def)
    then have "accumulate_keys yaml (Some p) e c = Ret (append_keys (if ?removed = [] then [] else gput (sec_Name ?new) ?removed []) ?m)"
      using True old(1) by (simp add: accumulate_keys_def is_update_def)
    then show ?thesis
      using True old(1) by (auto simp: pending_sets_append pending_sets_merge pending_event_def Let_def set_added_removed)
  next
    case False
    then show ?thesis by (auto simp: accumulate_keys_def is_update_def pending_event_def split: option.splits)
  qed
qed

text \<open>The events of a Secret that takes on one version after the other.\<close>

definition update_event :: "v1_secret \<Rightarrow> v1_secret \<Rightarrow> SecretEvent" where
  "update_event old new = \<lparr>se_Secret = new, se_OldSecret = Some old, se_EventType = SecretEventTypeUpdate\<rparr>"

fun version_events :: "v1_secret \<Rightarrow> v1_secret list \<Rightarrow> SecretEvent list" where
  "version_events v [] = []"
| "version_events v (v' # vs) = update_event v v' # version_events v' vs"

lemma pending_event_other: "sec_Name (se_Secret e) \<noteq> n \<Longrightarrow> pending_event yaml e A n = A n"
  by (auto simp: pending_event_def Let_def split: option.splits)

lemma pending_events_filter:
  "fold (pending_event yaml) es A n = fold (pending_event yaml) (filter (\<lambda>e. sec_Name (se_Secret e) = n) es) A n"
proof (induction es rule: rev_induct)
  case (snoc e es)
  have same: "pending_event yaml e A n = pending_event yaml e B n" if "A n = B n" for A B
    using that by (auto simp: pending_event_def Let_def split: option.splits)
  show ?case
  proof (cases "sec_Name (se_Secret e) = n")
    case True
    have "pending_event yaml e (fold (pending_event yaml) es A) n =
        pending_event yaml e (fold (pending_event yaml) (filter (\<lambda>e. sec_Name (se_Secret e) = n) es) A) n"
      by (rule same) (rule snoc)
    with True show ?thesis by simp
  next
    case False
    with snoc show ?thesis by (simp add: pending_event_other)
  qed
qed simp

lemma pending_versions:
  assumes "\<forall>v\<in>set (v # vs). sec_Name v = n" and "A n = U - conjur_keys yaml v"
  shows "fold (pending_event yaml) (version_events v vs) A n =
     (U \<union> (\<Union>x\<in>set (butlast (v # vs)). conjur_keys yaml x)) - conjur_keys yaml (last (v # vs))"
  using assms
proof (induction vs arbitrary: v A U)
  case (Cons v' vs)
  let ?A = "pending_event yaml (update_event v v') A"
  have named: "sec_Name v' = n" "\<forall>x\<in>set (v' # vs). sec_Name x = n" using Cons.prems(1) by simp_all
  have "?A n = (A n - (conjur_keys yaml v' - conjur_keys yaml v)) \<union> (conjur_keys yaml v - conjur_keys yaml v')"
    by (simp add: pending_event_def update_event_def is_update_def named(1) Let_def)
  also have "\<dots> = (U \<union> conjur_keys yaml v) - conjur_keys yaml v'"
    unfolding Cons.prems(2) by blast
  finally have A: "?A n = (U \<union> conjur_keys yaml v) - conjur_keys yaml v'" .
  have "fold (pending_event yaml) (version_events v (v' # vs)) A n = fold (pending_event yaml) (version_events v' vs) ?A n"
    by simp
  also have "\<dots> = ((U \<union> conjur_keys yaml v) \<union> (\<Union>x\<in>set (butlast (v' # vs)). conjur_keys yaml x)) - conjur_keys yaml (last (v' # vs))"
    by (rule Cons.IH [of v' ?A "U \<union> conjur_keys yaml v", OF named(2) A])
  finally show ?case by (simp only: butlast.simps last.simps list.distinct if_False list.set UN_insert Un_assoc)
qed simp

text \<open>
  (C6) Which keys are removed, with sanitizing enabled: however the events of several Secrets
  interleave, when the pending keys are used, those of a Secret whose updates were reported
  without a gap are exactly the keys that some earlier version of its conjur-map had and the
  latest one has not. So a key that is still mapped is never removed, and no key that was dropped
  is forgotten.
\<close>

theorem pending_removals_exact:
  assumes "sanitize_on p" and "\<forall>e\<in>set es. is_update e \<longrightarrow> se_OldSecret e \<noteq> None"
    and "filter (\<lambda>e. sec_Name (se_Secret e) = n) es = version_events v vs"
    and "\<forall>x\<in>set (v # vs). sec_Name x = n"
  shows "\<exists>c. ofold (accumulate_keys yaml (Some p)) es [] = Ret c \<and>
     set (gget [] c n) = (\<Union>x\<in>set (butlast (v # vs)). conjur_keys yaml x) - conjur_keys yaml (last (v # vs))"
proof -
  have "list_all (removal_ok p) es" using assms(1,2) by (simp add: list_all_iff removal_ok_def)
  from removals.run [OF this, of yaml "[]"] obtain c
    where c: "ofold (accumulate_keys yaml (Some p)) es [] = Ret c"
      "pending_sets c = fold (pending_event yaml) es (pending_sets [])" by blast
  have "pending_sets c n = fold (pending_event yaml) (version_events v vs) (pending_sets []) n"
    unfolding c(2) by (subst pending_events_filter) (simp add: assms(3))
  also have "\<dots> = ({} \<union> (\<Union>x\<in>set (butlast (v # vs)). conjur_keys yaml x)) - conjur_keys yaml (last (v # vs))"
    by (rule pending_versions [OF assms(4)]) (simp add: pending_sets_def)
  finally show ?thesis using c(1) by (simp add: pending_sets_def)
qed

text \<open>A Secret that loses the key \<^verbatim>\<open>cert\<close> and gets it back, while another Secret changes.\<close>

definition removal_events :: "SecretEvent list" where
  "removal_events =
     [update_event (k8s_secret ''app'' ''two'') (k8s_secret ''app'' ''one''),
      update_event (k8s_secret ''web'' ''two'') (k8s_secret ''web'' ''one''),
      update_event (k8s_secret ''app'' ''one'') (k8s_secret ''app'' ''two'')]"

theorem pending_removals_exact_witness:
  "\<exists>c. ofold (accumulate_keys demo_yamlm (Some (demo_labeled\<lparr>sanitize_on := True\<rparr>))) removal_events [] = Ret c
     \<and> gget [] c ''app'' = [] \<and> set (gget [] c ''web'') = {''cert''}"
proof -
  let ?p = "demo_labeled\<lparr>sanitize_on := True\<rparr>"
  have keys: "conjur_keys demo_yamlm (k8s_secret n ''one'') = {''pw''}"
    "conjur_keys demo_yamlm (k8s_secret n ''two'') = {''pw'', ''cert''}" for n
    by (simp_all add: conjur_keys_def parseConjurMap_def k8s_secret_def data_of_def demo_yamlm_def)
  have upd: "\<forall>e\<in>set removal_events. is_update e \<longrightarrow> se_OldSecret e \<noteq> None"
    by (simp add: removal_events_def update_event_def)
  note names = removal_events_def update_event_def k8s_secret_def
  have "\<exists>c. ofold (accumulate_keys demo_yamlm (Some ?p)) removal_events [] = Ret c \<and>
     set (gget [] c ''app'') = (\<Union>x\<in>set (butlast (k8s_secret ''app'' ''two'' # [k8s_secret ''app'' ''one'', k8s_secret ''app'' ''two''])).
        conjur_keys demo_yamlm x) - conjur_keys demo_yamlm (last (k8s_secret ''app'' ''two'' # [k8s_secret ''app'' ''one'', k8s_secret ''app'' ''two'']))"
    by (rule pending_removals_exact [OF _ upd]) (simp_all add: names)
  moreover have "\<exists>c. ofold (accumulate_keys demo_yamlm (Some ?p)) removal_events [] = Ret c \<and>
     set (gget [] c ''web'') = (\<Union>x\<in>set (butlast (k8s_secret ''web'' ''two'' # [k8s_secret ''web'' ''one''])).
        conjur_keys demo_yamlm x) - conjur_keys demo_yamlm (last (k8s_secret ''web'' ''two'' # [k8s_secret ''web'' ''one'']))"
    by (rule pending_removals_exact [OF _ upd]) (simp_all add: names)
  ultimately obtain c where "ofold (accumulate_keys demo_yamlm (Some ?p)) removal_events [] = Ret c"
    "set (gget [] c ''app'') = {}" "set (gget [] c ''web'') = {''cert''}"
    by auto (simp add: keys)
  then show ?thesis by (intro exI [of _ c]) simp
qed

section \<open>How long an event waits\<close>

text \<open>
  While the main goroutine waits: the timer is armed exactly while events are counted, the
  goroutine then waits for it or works, and it is due less than 10.2 seconds after the first of
  the counted events.
\<close>

definition timer_inv :: "'w running \<Rightarrow> bool" where
  "timer_inv r \<longleftrightarrow> r_main r = Waiting \<longrightarrow>
     0 \<le> eventCount (r_loop r) \<and>
     (case debounceTimer (r_loop r) of
        None \<Rightarrow> eventCount (r_loop r) = 0
      | Some t \<Rightarrow> (r_informer r = Idle \<or> (\<exists>j. r_informer r = Working j)) \<and> 1 \<le> eventCount (r_loop r)
                  \<and> t < firstEventTime (r_loop r) + informerDebounceMaxDelay + informerDebounceDelay)"

text \<open>
  The keys with which the goroutine would run the provider now: those that are pending, after what
  the event that it works on adds to them and takes back.
\<close>

definition keys_at_work :: "('w, 'tpl) run_env \<Rightarrow> 'w running \<Rightarrow> keys_to_remove outcome" where
  "keys_at_work env r =
     (case r_informer r of
        Working None \<Rightarrow> Ret (keysToRemoveCumulative (r_loop r))
      | Working (Some (now, e)) \<Rightarrow>
          accumulate_keys (re_yaml_map env) (K8sProviderInstance (r_app r)) e (keysToRemoveCumulative (r_loop r))
      | _ \<Rightarrow> Panic)"

text \<open>
  The provider ran with the given keys to remove: its result is in the readiness and, if it
  updated something, in the status files.
\<close>

definition ran_with ::
  "('w, 'tpl) run_env \<Rightarrow> 'w ProviderFunc \<Rightarrow> fsys StatusUpdater \<Rightarrow> keys_to_remove \<Rightarrow> 'w app \<Rightarrow> 'w app \<Rightarrow> bool" where
  "ran_with env provide status keys a a' \<longleftrightarrow>
     (\<exists>updated err a1. (if keys = [] then provide a else Some (instance_cleanup env keys a)) = Some (Ret (updated, err), a1)
        \<and> a' = (if err = None \<and> updated then snd (on_files (su_SetSecretsUpdated status) (setReady err a1)) else setReady err a1))"

text \<open>A step in which it ran with the keys above, after which no event and no key is pending.\<close>

definition provider_ran :: "('w, 'tpl) run_env \<Rightarrow> 'w ProviderFunc \<Rightarrow> fsys StatusUpdater \<Rightarrow> 'w running \<Rightarrow> 'w running \<Rightarrow> bool" where
  "provider_ran env provide status r r' \<longleftrightarrow>
     (\<exists>keys. keys_at_work env r = Ret keys \<and> ran_with env provide status keys (r_app r) (r_app r'))
     \<and> eventCount (r_loop r') = 0 \<and> keysToRemoveCumulative (r_loop r') = [] \<and> debounceTimer (r_loop r') = None"

lemma run_provide_loop:
  assumes "run_provide_secrets env provide status l a = Some (Ret e, l', a')"
  shows "debounceTimer l' = None \<and> eventCount l' = 0 \<and> keysToRemoveCumulative l' = []
    \<and> ran_with env provide status (keysToRemoveCumulative l) a a'"
proof -
  let ?provided = "if keysToRemoveCumulative l = [] then provide a else Some (instance_cleanup env (keysToRemoveCumulative l) a)"
  obtain updated err a1 where p: "?provided = Some (Ret (updated, err), a1)"
    using assms by (auto simp: run_provide_secrets_def Let_def split: option.splits outcome.splits prod.splits if_splits)
  then have "a' = (if err = None \<and> updated then snd (on_files (su_SetSecretsUpdated status) (setReady err a1)) else setReady err a1)"
    and "debounceTimer l' = None \<and> eventCount l' = 0 \<and> keysToRemoveCumulative l' = []"
    using assms by (auto simp: run_provide_secrets_def case_prod_unfold Let_def split: if_splits)
  with p show ?thesis unfolding ran_with_def by blast
qed

text \<open>An event either only arms the timer again or, once the maximal delay is over, runs the provider.\<close>

lemma handle_event_cases:
  assumes run: "handle_event env provide status now e l a = Some (Ret err, l', a')" and "0 \<le> eventCount l"
  defines "first \<equiv> if eventCount l = 0 then now else firstEventTime l"
  obtains keys where "accumulate_keys (re_yaml_map env) (K8sProviderInstance a) e (keysToRemoveCumulative l) = Ret keys"
    and "if now - first \<ge> informerDebounceMaxDelay
      then run_provide_secrets env provide status
             (l\<lparr>eventCount := eventCount l + 1, firstEventTime := first, keysToRemoveCumulative := keys\<rparr>) a = Some (Ret err, l', a')
      else err = None \<and> a' = a \<and> l' = l\<lparr>eventCount := eventCount l + 1, firstEventTime := first,
             keysToRemoveCumulative := keys, debounceTimer := Some (now + informerDebounceDelay)\<rparr>"
proof -
  have l1: "count_event now l = l\<lparr>eventCount := eventCount l + 1, firstEventTime := first\<rparr>"
    by (simp add: count_event_def first_def Let_def)
  obtain keys where keys: "accumulate_keys (re_yaml_map env) (K8sProviderInstance a) e (keysToRemoveCumulative l) = Ret keys"
    using run by (auto simp: handle_event_def Let_def l1 split: outcome.splits)
  show thesis
    by (rule that [OF keys]) (use run keys in \<open>auto simp: handle_event_def Let_def l1 split: if_splits\<close>)
qed

lemma timer_inv_start: "timer_inv (start_running config now a)"
  by (simp add: timer_inv_def start_running_def new_informer_loop_def)

lemma timer_inv_after_run:
  assumes "\<And>e. res = Ret e \<Longrightarrow> debounceTimer l = None \<and> eventCount l = 0"
  shows "timer_inv (after_informer res l a r)"
  using assms by (auto simp: timer_inv_def after_informer_def split: outcome.splits option.splits)

lemma timer_inv_event:
  assumes "timer_inv r" and "r_main r = Waiting" and "handle_event env provide status now e (r_loop r) (r_app r) = Some (res, l, a)"
  shows "timer_inv (after_informer res l a r)"
proof (cases res)
  case (Ret err)
  have "0 \<le> eventCount (r_loop r)" using assms(1,2) by (simp add: timer_inv_def)
  from handle_event_cases [OF assms(3) [unfolded Ret] this] show ?thesis
  proof cases
    case (1 keys)
    then show ?thesis
      using \<open>0 \<le> eventCount (r_loop r)\<close> run_provide_loop unfolding Ret
      by (auto simp: timer_inv_def after_informer_def split: if_splits option.splits dest: run_provide_loop)
  qed
next
  case Panic
  then show ?thesis by (intro timer_inv_after_run) simp
qed

lemma waiting_back: "rstep env config provide status r r' \<Longrightarrow> r_main r' = Waiting \<Longrightarrow> r_main r = Waiting"
  by (erule rstep.cases)
    (auto simp: after_informer_def after_periodic_def main_receives_def split: outcome.splits option.splits)

lemma timer_inv_step:
  assumes "timer_inv r" and "rstep env config provide status r r'"
  shows "timer_inv r'"
proof (cases "r_main r' = Waiting")
  case True
  then have w: "r_main r = Waiting" by (rule waiting_back [OF assms(2)])
  from assms(2) show ?thesis
  proof (cases rule: rstep.cases)
    case (tick_done res a)
    with assms(1) show ?thesis by (auto simp: timer_inv_def after_periodic_def split: outcome.splits option.splits)
  next
    case (event_done now e res l a)
    then show ?thesis using timer_inv_event [OF assms(1) w] by simp
  next
    case (timer_done res l a)
    then show ?thesis unfolding timer_done(1) by (intro timer_inv_after_run) (auto dest: run_provide_loop)
  qed (use assms(1) in \<open>auto simp: timer_inv_def main_receives_def split: option.splits\<close>)
qed (simp add: timer_inv_def)

text \<open>
  One step while events are counted: unless the provider runs, they all stay counted, with the
  time of the first; a goroutine that works goes on or has counted an event that came in time.
\<close>

lemma pending_step:
  assumes "timer_inv r" and "0 < eventCount (r_loop r)" and "rstep env config provide status r r'" and "r_main r' = Waiting"
  shows "provider_ran env provide status r r'
    \<or> (eventCount (r_loop r) \<le> eventCount (r_loop r') \<and> firstEventTime (r_loop r') = firstEventTime (r_loop r)
        \<and> r_now r \<le> r_now r'
        \<and> (\<forall>j. r_informer r = Working j \<and> r_informer r' \<noteq> Working j \<longrightarrow>
             (\<exists>now e. j = Some (now, e) \<and> now < firstEventTime (r_loop r) + informerDebounceMaxDelay))
        \<and> (\<forall>now e. r_informer r' = Working (Some (now, e)) \<longrightarrow> r_informer r = r_informer r' \<or> now = r_now r))"
proof -
  have w: "r_main r = Waiting" by (rule waiting_back [OF assms(3,4)])
  have inf: "r_informer r = Idle \<or> (\<exists>j. r_informer r = Working j)" "0 \<le> eventCount (r_loop r)"
    using assms(1,2) w by (auto simp: timer_inv_def split: option.splits)
  from assms(3) show ?thesis
  proof (cases rule: rstep.cases)
    case (tick_done res a)
    then show ?thesis using assms(4) by (auto simp: after_periodic_def split: outcome.splits option.splits)
  next
    case (event_done now e res l a)
    then obtain err where err: "res = Ret err" using assms(4) by (cases res) (auto simp: after_informer_def)
    from handle_event_cases [OF event_done(4) [unfolded err] inf(2)] show ?thesis
    proof cases
      case (1 keys)
      show ?thesis
      proof (cases "now - firstEventTime (r_loop r) \<ge> informerDebounceMaxDelay")
        case True
        with 1(2) assms(2) have run: "run_provide_secrets env provide status
            ((r_loop r)\<lparr>eventCount := eventCount (r_loop r) + 1, firstEventTime := firstEventTime (r_loop r), keysToRemoveCumulative := keys\<rparr>)
            (r_app r) = Some (Ret err, l, a)"
          by simp
        have "r_app r' = a" "r_loop r' = l" "keys_at_work env r = Ret keys"
          using event_done(1,3) 1(1) by (simp_all add: err after_informer_def keys_at_work_def split: option.splits)
        then show ?thesis using run_provide_loop [OF run] by (auto simp: provider_ran_def)
      next
        case False
        with 1(2) assms(2) have "err = None" "l = (r_loop r)\<lparr>eventCount := eventCount (r_loop r) + 1, firstEventTime := firstEventTime (r_loop r),
             keysToRemoveCumulative := keys, debounceTimer := Some (now + informerDebounceDelay)\<rparr>" by simp_all
        then show ?thesis using event_done(1,3) False by (auto simp: err after_informer_def)
      qed
    qed
  next
    case (timer_done res l a)
    then obtain err where err: "res = Ret err" using assms(4) by (cases res) (auto simp: after_informer_def)
    have "r_app r' = a" "r_loop r' = l" "keys_at_work env r = Ret (keysToRemoveCumulative (r_loop r))"
      using timer_done(1,3) by (simp_all add: err after_informer_def keys_at_work_def split: option.splits)
    then show ?thesis using run_provide_loop [OF timer_done(4) [unfolded err]] by (auto simp: provider_ran_def)
  qed (use assms(4) inf(1) in \<open>auto simp: main_receives_def\<close>)
qed

text \<open>
  A fair run: steps from the start, possibly with pauses. While the main goroutine waits, time
  goes on, what the informer-triggered goroutine works on returns, and the goroutine does not
  wait forever although its timer is due.
\<close>

definition timer_due :: "'w running \<Rightarrow> bool" where
  "timer_due r \<longleftrightarrow> (\<exists>t. debounceTimer (r_loop r) = Some t \<and> t \<le> r_now r)"

definition fair_run ::
  "('w, 'tpl) run_env \<Rightarrow> ProviderRefreshConfig \<Rightarrow> 'w ProviderFunc \<Rightarrow> fsys StatusUpdater \<Rightarrow> (nat \<Rightarrow> 'w running) \<Rightarrow> bool" where
  "fair_run env config provide status rs \<longleftrightarrow>
     (\<forall>n. rstep env config provide status (rs n) (rs (Suc n)) \<or> rs (Suc n) = rs n)
   \<and> (\<forall>n T. \<exists>m\<ge>n. r_main (rs m) = Waiting \<longrightarrow> T \<le> r_now (rs m))
   \<and> (\<forall>n. \<exists>m\<ge>n. r_main (rs m) = Waiting \<longrightarrow> (\<forall>j. r_informer (rs m) \<noteq> Working j))
   \<and> (\<forall>n. \<exists>m\<ge>n. r_main (rs m) = Waiting \<longrightarrow> \<not> (r_informer (rs m) = Idle \<and> timer_due (rs m)))"

lemma fair_timer_inv:
  assumes "fair_run env config provide status rs" and "timer_inv (rs 0)"
  shows "timer_inv (rs n)"
proof (induction n)
  case (Suc n)
  have "rstep env config provide status (rs n) (rs (Suc n)) \<or> rs (Suc n) = rs n" using assms(1) by (simp add: fair_run_def)
  then show ?case using timer_inv_step [OF Suc] Suc by auto
qed (rule assms(2))

text \<open>Events cannot stay counted forever.\<close>

lemma not_pending_forever:
  fixes f :: int
  assumes fair: "fair_run env config provide status rs" and inv: "\<And>i. timer_inv (rs i)"
    and pend: "\<And>i. n \<le> i \<Longrightarrow> r_main (rs i) = Waiting \<and> 0 < eventCount (r_loop (rs i)) \<and> firstEventTime (r_loop (rs i)) = f"
    and idle: "\<And>i. n \<le> i \<Longrightarrow> \<not> provider_ran env provide status (rs i) (rs (Suc i))"
  shows False
proof -
  have one: "r_now (rs i) \<le> r_now (rs (Suc i))
      \<and> (\<forall>j. r_informer (rs i) = Working j \<and> r_informer (rs (Suc i)) \<noteq> Working j \<longrightarrow>
           (\<exists>now e. j = Some (now, e) \<and> now < f + informerDebounceMaxDelay))
      \<and> (\<forall>now e. r_informer (rs (Suc i)) = Working (Some (now, e)) \<longrightarrow> r_informer (rs i) = r_informer (rs (Suc i)) \<or> now = r_now (rs i))"
    if "n \<le> i" for i
  proof (cases "rs (Suc i) = rs i")
    case False
    then have "rstep env config provide status (rs i) (rs (Suc i))" using fair unfolding fair_run_def by metis
    from pending_step [OF inv _ this] pend [OF that] pend [of "Suc i"] idle [OF that] that show ?thesis by fastforce
  qed simp
  have at: "t < f + informerDebounceMaxDelay + informerDebounceDelay \<and> (r_informer (rs i) = Idle \<or> (\<exists>j. r_informer (rs i) = Working j))"
    if "n \<le> i" "debounceTimer (r_loop (rs i)) = Some t" for i t
    using inv [of i] pend [OF that(1)] that(2) by (auto simp: timer_inv_def)
  have armed: "debounceTimer (r_loop (rs i)) \<noteq> None" if "n \<le> i" for i
    using inv [of i] pend [OF that] by (cases "debounceTimer (r_loop (rs i))") (auto simp: timer_inv_def)
  let ?late = "f + informerDebounceMaxDelay + informerDebounceDelay"
  obtain m0 where m0: "n \<le> m0" "?late \<le> r_now (rs m0)" using fair pend unfolding fair_run_def by metis
  have late: "?late \<le> r_now (rs i)" if "m0 \<le> i" for i
    using that
  proof (induction i rule: dec_induct)
    case (step k)
    then show ?case using one m0(1) by (meson order_trans)
  qed (rule m0(2))
  obtain m1 where m1: "m0 \<le> m1" "\<forall>j. r_informer (rs m1) \<noteq> Working j"
    using fair pend m0(1) unfolding fair_run_def by (meson order_trans)
  have starts: "\<forall>now e. r_informer (rs i) = Working (Some (now, e)) \<longrightarrow> f + informerDebounceMaxDelay \<le> now" if "m1 \<le> i" for i
    using that
  proof (induction i rule: dec_induct)
    case base
    then show ?case using m1(2) by simp
  next
    case (step k)
    have "n \<le> k" "m0 \<le> k" using step(1) m0(1) m1(1) by simp_all
    then show ?case
      using one [of k] late [of k] step(3) by (fastforce simp: informerDebounceDelay_def)
  qed
  obtain m2 where m2: "m1 \<le> m2" "\<not> (r_informer (rs m2) = Idle \<and> timer_due (rs m2))"
    using fair pend m0(1) m1(1) unfolding fair_run_def by (meson order_trans)
  have "n \<le> m2" using m0(1) m1(1) m2(1) by simp
  then obtain j2 where j2: "r_informer (rs m2) = Working j2"
    using m2(2) armed at late [of m2] m1(1) m2(1) unfolding timer_due_def by fastforce
  have "r_informer (rs i) = Working j2" if "m2 \<le> i" for i
    using that
  proof (induction i rule: dec_induct)
    case (step k)
    have "n \<le> k" "m1 \<le> k" using step(1) \<open>n \<le> m2\<close> m2(1) by simp_all
    then show ?case using one [of k] starts [of k] step(3) by fastforce
  qed (rule j2)
  moreover obtain m3 where "m2 \<le> m3" "\<forall>j. r_informer (rs m3) \<noteq> Working j"
    using fair pend \<open>n \<le> m2\<close> unfolding fair_run_def by (meson order_trans)
  ultimately show False by blast
qed

text \<open>
  (C7) Every event is served: in a fair run, in each state in which events are counted but not yet
  served, the timer is armed and due less than 10.2 seconds after the first of them; and they stay
  counted until the provider runs with the keys that are pending then, including what the last
  event adds and takes back, which leaves no event and no key pending, unless the main goroutine
  stops waiting or the process crashes before that.
\<close>

theorem events_are_served:
  assumes "fair_run env config provide status rs" and "rs 0 = start_running config now a0"
    and "r_main (rs n) = Waiting" and "0 < eventCount (r_loop (rs n))"
  shows "(\<exists>t. debounceTimer (r_loop (rs n)) = Some t \<and> t < firstEventTime (r_loop (rs n)) + 10200000000)
     \<and> (\<exists>m\<ge>n. (\<forall>i. n \<le> i \<and> i \<le> m \<longrightarrow> r_main (rs i) = Waiting \<and> eventCount (r_loop (rs n)) \<le> eventCount (r_loop (rs i))
                   \<and> firstEventTime (r_loop (rs i)) = firstEventTime (r_loop (rs n)))
            \<and> (r_main (rs (Suc m)) \<noteq> Waiting \<or> provider_ran env provide status (rs m) (rs (Suc m))))"
proof
  have inv: "timer_inv (rs i)" for i using fair_timer_inv [OF assms(1)] timer_inv_start assms(2) by metis
  show "\<exists>t. debounceTimer (r_loop (rs n)) = Some t \<and> t < firstEventTime (r_loop (rs n)) + 10200000000"
    using inv [of n] assms(3,4)
    by (cases "debounceTimer (r_loop (rs n))") (auto simp: timer_inv_def informerDebounceMaxDelay_def informerDebounceDelay_def)
  let ?kept = "\<lambda>i. r_main (rs i) = Waiting \<and> eventCount (r_loop (rs n)) \<le> eventCount (r_loop (rs i))
      \<and> firstEventTime (r_loop (rs i)) = firstEventTime (r_loop (rs n))"
  let ?served = "\<lambda>m. r_main (rs (Suc m)) \<noteq> Waiting \<or> provider_ran env provide status (rs m) (rs (Suc m))"
  show "\<exists>m\<ge>n. (\<forall>i. n \<le> i \<and> i \<le> m \<longrightarrow> ?kept i) \<and> ?served m"
  proof (rule ccontr)
    assume none: "\<not> ?thesis"
    have kept: "\<forall>i. n \<le> i \<and> i \<le> m \<longrightarrow> ?kept i" if "n \<le> m" for m
      using that
    proof (induction m rule: dec_induct)
      case base
      then show ?case using assms(3) by auto
    next
      case (step k)
      then have go: "\<not> ?served k" using none by blast
      have k: "?kept k" using step(3) step(1) by blast
      have "?kept (Suc k)"
      proof (cases "rs (Suc k) = rs k")
        case True
        then show ?thesis using k by simp
      next
        case False
        then have st: "rstep env config provide status (rs k) (rs (Suc k))" using assms(1) unfolding fair_run_def by metis
        have "0 < eventCount (r_loop (rs k))" using k assms(4) by linarith
        from pending_step [OF inv this st] go k show ?thesis by auto
      qed
      with step(3) show ?case by (auto simp: le_Suc_eq)
    qed
    have "\<not> ?served m" if "n \<le> m" for m using none kept [OF that] that by blast
    moreover have "r_main (rs i) = Waiting \<and> 0 < eventCount (r_loop (rs i)) \<and> firstEventTime (r_loop (rs i)) = firstEventTime (r_loop (rs n))"
      if "n \<le> i" for i
    proof -
      have "?kept i" using kept [OF that] that by blast
      then show ?thesis using assms(4) by linarith
    qed
    ultimately show False
      using not_pending_forever [OF assms(1) inv, of n "firstEventTime (r_loop (rs n))"] by blast
  qed
qed

text \<open>A run with one added Secret; the provider has nothing to do.\<close>

definition idle_func :: "nat ProviderFunc" where
  "idle_func a = Some (Ret (False, None), a)"

definition failing_func :: "nat ProviderFunc" where
  "failing_func a = Some (Ret (False, Some (K8sFailed ''down'')), a)"

definition added_event :: SecretEvent where
  "added_event = \<lparr>se_Secret = k8s_secret ''app'' ''one'', se_OldSecret = None, se_EventType = SecretEventTypeAdd\<rparr>"

definition demo_kube :: "nat kube_api" where
  "demo_kube = \<lparr>InClusterConfig = (\<lambda>_. None), NewForConfig = (\<lambda>_. None), api_get = (\<lambda>_ _ w. (Inl ''none'', w)),
     api_update = (\<lambda>_ s w. (Inr s, w)), api_list = (\<lambda>_ _ w. (Inr [], w))\<rparr>"

definition demo_env :: "(nat, string) run_env" where
  "demo_env = \<lparr>re_api = demo_kube, re_recorded = (\<lambda>m. m), re_retrieve = (\<lambda>_ w. (Ret (Inr []), w)), re_order = (\<lambda>_ ks. ks),
     re_yaml_list = demo_yamls, re_yaml_map = demo_yamlm, re_engine = id_engine, re_sha256 = (\<lambda>c. c)\<rparr>"

definition watch_config :: "string \<Rightarrow> ProviderRefreshConfig" where
  "watch_config mode = \<lparr>Mode = mode, RunOnce = False, SecretRefreshInterval = 300000000000, hasInformerEvents = True,
     RetryInterval = 0, RetryCountLimit_run = 0\<rparr>"

definition counted_loop :: informer_loop where
  "counted_loop = \<lparr>debounceTimer = Some 200000007, eventCount = 1, firstEventTime = 7, keysToRemoveCumulative = []\<rparr>"

definition served_loop :: informer_loop where
  "served_loop = counted_loop\<lparr>debounceTimer := None, eventCount := 0\<rparr>"

definition watched :: "nat running" where
  "watched = start_running (watch_config ''sidecar'') 7 (demo_app 0)"

text \<open>The event arrives, is received and counted, the timer fires, the provider runs, and time goes on.\<close>

definition watched_run :: "nat \<Rightarrow> nat running" where
  "watched_run n =
     (if n = 0 then watched
      else if n = 1 then watched\<lparr>r_events := [added_event]\<rparr>
      else if n = 2 then watched\<lparr>r_informer := Working (Some (7, added_event))\<rparr>
      else if n = 3 then watched\<lparr>r_loop := counted_loop\<rparr>
      else if n = 4 then watched\<lparr>r_loop := counted_loop, r_now := 200000007\<rparr>
      else if n = 5 then watched\<lparr>r_loop := counted_loop, r_now := 200000007, r_informer := Working None\<rparr>
      else watched\<lparr>r_loop := served_loop, r_now := 200000007 + int (n - 6)\<rparr>)"

lemma watched_simps [simp]:
  "r_app watched = demo_app 0" "r_now watched = 7" "r_events watched = []" "r_loop watched = new_informer_loop"
  "r_informer watched = Idle" "r_periodic watched = Idle" "r_main watched = Waiting"
  by (simp_all add: watched_def start_running_def watch_config_def)

lemma watched_same [simp]: "watched\<lparr>r_app := demo_app 0\<rparr> = watched" "watched\<lparr>r_events := []\<rparr> = watched" "watched\<lparr>r_informer := Idle\<rparr> = watched"
  "watched\<lparr>r_loop := l, r_app := demo_app 0, r_informer := Idle\<rparr> = watched\<lparr>r_loop := l\<rparr>"
  "watched\<lparr>r_now := t, r_loop := l, r_app := demo_app 0, r_informer := Idle\<rparr> = watched\<lparr>r_loop := l, r_now := t\<rparr>"
  by (simp_all add: watched_def start_running_def watch_config_def)

abbreviation watched_step :: "nat running \<Rightarrow> nat running \<Rightarrow> bool" where
  "watched_step \<equiv> rstep demo_env (watch_config ''sidecar'') idle_func NewStatusUpdater"

lemma demo_handled:
  "handle_event demo_env idle_func NewStatusUpdater 7 added_event new_informer_loop (demo_app 0) = Some (Ret None, counted_loop, demo_app 0)"
  by (simp add: handle_event_def count_event_def new_informer_loop_def accumulate_keys_def added_event_def counted_loop_def
      SecretEventTypeAdd_def SecretEventTypeUpdate_def informerDebounceMaxDelay_def informerDebounceDelay_def Let_def)

lemma demo_provided:
  "run_provide_secrets demo_env idle_func NewStatusUpdater counted_loop (demo_app 0) = Some (Ret None, served_loop, demo_app 0)"
  by (simp add: run_provide_secrets_def counted_loop_def served_loop_def idle_func_def setReady_def demo_app_def Let_def)

lemma watched_steps: "watched_step (watched_run n) (watched_run (Suc n))"
proof -
  consider "n = 0" | "n = 1" | "n = 2" | "n = 3" | "n = 4" | "n = 5" | "6 \<le> n" by linarith
  then show ?thesis
  proof cases
    case 1
    then show ?thesis using rstep.arrive [of watched demo_env "watch_config ''sidecar''" idle_func NewStatusUpdater added_event]
      by (simp add: watched_run_def)
  next
    case 2
    then show ?thesis
      using rstep.event [of "watched\<lparr>r_events := [added_event]\<rparr>" added_event "[]" demo_env "watch_config ''sidecar''" idle_func NewStatusUpdater]
      by (simp add: watched_run_def)
  next
    case 3
    then show ?thesis
      using rstep.event_done [of "watched\<lparr>r_informer := Working (Some (7, added_event))\<rparr>" 7 added_event demo_env idle_func NewStatusUpdater
          "Ret None" counted_loop "demo_app 0" "watch_config ''sidecar''"] demo_handled
      by (simp add: watched_run_def after_informer_def)
  next
    case 4
    then show ?thesis
      using rstep.elapse [of "watched\<lparr>r_loop := counted_loop\<rparr>" 200000000 demo_env "watch_config ''sidecar''" idle_func NewStatusUpdater]
      by (simp add: watched_run_def)
  next
    case 5
    then show ?thesis
      using rstep.timer [of "watched\<lparr>r_loop := counted_loop, r_now := 200000007\<rparr>" 200000007 demo_env "watch_config ''sidecar''" idle_func NewStatusUpdater]
      by (simp add: watched_run_def counted_loop_def)
  next
    case 6
    then show ?thesis
      using rstep.timer_done [of "watched\<lparr>r_loop := counted_loop, r_now := 200000007, r_informer := Working None\<rparr>" demo_env idle_func NewStatusUpdater
          "Ret None" served_loop "demo_app 0" "watch_config ''sidecar''"] demo_provided
      by (simp add: watched_run_def after_informer_def)
  next
    case 7
    then have "int (Suc n - 6) = int (n - 6) + 1" by simp
    then show ?thesis
      using 7 rstep.elapse [of "watched_run n" 1 demo_env "watch_config ''sidecar''" idle_func NewStatusUpdater]
      by (simp add: watched_run_def add.assoc)
  qed
qed

lemma watched_late:
  assumes "6 \<le> m"
  shows "r_informer (watched_run m) = Idle" and "debounceTimer (r_loop (watched_run m)) = None"
    and "r_now (watched_run m) = 200000007 + int (m - 6)"
  using assms by (simp_all add: watched_run_def served_loop_def)

lemma watched_fair: "fair_run demo_env (watch_config ''sidecar'') idle_func NewStatusUpdater watched_run"
  unfolding fair_run_def
proof (intro conjI allI)
  fix n :: nat and T :: int
  show "watched_step (watched_run n) (watched_run (Suc n)) \<or> watched_run (Suc n) = watched_run n" using watched_steps by blast
  show "\<exists>m\<ge>n. r_main (watched_run m) = Waiting \<longrightarrow> T \<le> r_now (watched_run m)"
    by (intro exI [of _ "n + 6 + nat T"]) (simp add: watched_late(3))
  show "\<exists>m\<ge>n. r_main (watched_run m) = Waiting \<longrightarrow> (\<forall>j. r_informer (watched_run m) \<noteq> Working j)"
    by (intro exI [of _ "n + 6"]) (simp add: watched_late(1))
  show "\<exists>m\<ge>n. r_main (watched_run m) = Waiting \<longrightarrow> \<not> (r_informer (watched_run m) = Idle \<and> timer_due (watched_run m))"
    by (intro exI [of _ "n + 6"]) (simp add: watched_late(2) timer_due_def)
qed

theorem events_are_served_witness:
  "\<exists>m\<ge>3. provider_ran demo_env idle_func NewStatusUpdater (watched_run m) (watched_run (Suc m))"
proof -
  have start: "watched_run 0 = start_running (watch_config ''sidecar'') 7 (demo_app 0)" by (simp add: watched_run_def watched_def)
  have n: "r_main (watched_run 3) = Waiting" "0 < eventCount (r_loop (watched_run 3))"
    by (simp_all add: watched_run_def counted_loop_def)
  have "r_main (watched_run m) = Waiting" for m by (simp add: watched_run_def)
  with events_are_served [OF watched_fair start n] show ?thesis by blast
qed

section \<open>Starting and failing\<close>

text \<open>
  (C19) What the start of a run tells, once the scripts are copied and the provider has returned.
  If the provider failed then the status files are left as they are, in every mode: no sentinel of
  provided secrets is written. If it succeeded then the run goes on to record that, and if it does
  so without an error then the sentinel is there, in every mode. A one-time run returns the error
  of the provider or of that record, if there is one, and no error otherwise; a continuous run
  gets to wait whatever they report. With an HTTP server the readiness probe of a continuous run
  then answers 200 exactly if the provider succeeded.
\<close>

theorem start_reports_provision:
  assumes run: "run_start_phase config provide NewStatusUpdater a = Some (res, a')"
    and copied: "on_files (su_CopyScripts NewStatusUpdater) a = (None, a1)"
    and provided: "provide a1 = Some (Ret (u, err), a2)"
  shows "(err \<noteq> None \<longrightarrow> app_files a' = app_files a2 \<and> res = (if RunOnce config then StartReturned err else StartWaiting))
     \<and> (err = None \<longrightarrow> (\<exists>rec. app_files a' = (app_files a2)\<lparr>p2f_fs := snd (su_SetSecretsProvided NewStatusUpdater (p2f_fs (app_files a2)))\<rparr>
            \<and> rec = map_option StatusFailed (fst (su_SetSecretsProvided NewStatusUpdater (p2f_fs (app_files a2))))
            \<and> res = (if RunOnce config then StartReturned rec else StartWaiting)
            \<and> (rec = None \<longrightarrow> sentinel (providedFile default_updater) (p2f_fs (app_files a')))))
     \<and> (\<forall>s. httpServer a2 = Some s \<and> \<not> RunOnce config \<longrightarrow>
          (\<exists>s'. httpServer a' = Some s' \<and> serve s' ''/readyz'' = (if err = None then 200 else 503)))"
proof -
  define a3 where "a3 = setReady err a2"
  obtain e4 a4 where e4: "on_files (su_SetSecretsProvided NewStatusUpdater) a3 = (e4, a4)" by (metis surj_pair)
  have files: "app_files a3 = app_files a2" by (simp add: a3_def setReady_def split: option.splits)
  have a3: "httpServer a3 = Some (SetReady (err = None) s)" if "httpServer a2 = Some s" for s
    using that by (cases err) (simp_all add: a3_def setReady_def)
  have a4: "httpServer a4 = httpServer a3" "app_files a4 = (app_files a2)\<lparr>p2f_fs := snd (su_SetSecretsProvided NewStatusUpdater (p2f_fs (app_files a2)))\<rparr>"
    "e4 = map_option StatusFailed (fst (su_SetSecretsProvided NewStatusUpdater (p2f_fs (app_files a2))))"
    using e4 by (auto simp: on_files_def files split: prod.splits)
  have sent: "sentinel (providedFile default_updater) (p2f_fs (app_files a4))" if "e4 = None"
    using e4 that files.records_provided [of "p2f_fs (app_files a3)"] by (auto simp: on_files_def split: prod.splits)
  have "(if err \<noteq> None \<and> RunOnce config then (StartReturned err, a2)
      else if err = None \<and> e4 \<noteq> None \<and> RunOnce config then (StartReturned e4, a4)
      else (if RunOnce config then StartReturned None else StartWaiting, if err = None then a4 else a3)) = (res, a')"
    using run copied provided e4 by (auto simp: run_start_phase_def a3_def [symmetric] split: if_splits)
  then consider "err \<noteq> None" "RunOnce config" "res = StartReturned err" "a' = a2"
    | "err \<noteq> None" "\<not> RunOnce config" "res = StartWaiting" "a' = a3"
    | "err = None" "res = (if RunOnce config then StartReturned e4 else StartWaiting)" "a' = a4"
    by (auto split: if_splits)
  then show ?thesis
    by cases (use sent a3 a4 files in auto)
qed

definition served_app :: "nat app" where
  "served_app = (demo_app 0)\<lparr>httpServer := Some \<lparr>srv_Address = '':8080'', isHealthy = True, isReady = False\<rparr>\<rparr>"

theorem start_reports_provision_witness:
  "\<exists>a' s'. run_start_phase (watch_config ''standalone'') idle_func NewStatusUpdater served_app = Some (StartWaiting, a')
     \<and> httpServer a' = Some s' \<and> serve s' ''/readyz'' = 200"
proof -
  obtain a1 where c: "on_files (su_CopyScripts NewStatusUpdater) served_app = (None, a1)"
    "httpServer a1 = httpServer served_app"
    using image_fs_ok(2) by (cases "CopyScripts default_updater image_fs")
      (simp add: on_files_def NewStatusUpdater_def served_app_def demo_app_def demo_files_def)
  have p: "idle_func a1 = Some (Ret (False, None), a1)" by (simp add: idle_func_def)
  obtain res a' where r: "run_start_phase (watch_config ''standalone'') idle_func NewStatusUpdater served_app = Some (res, a')"
    using c p by (cases "on_files (su_SetSecretsProvided NewStatusUpdater) (setReady None a1)")
      (auto simp: run_start_phase_def watch_config_def Let_def)
  from start_reports_provision [OF r c(1) p] c(2) r show ?thesis
    by (auto simp: served_app_def watch_config_def)
qed

text \<open>
  (C38) Errors in standalone mode: a failed refresh blocks its goroutine until the main goroutine
  takes the error, and then the run returns, without an error. So the refresh does not go on, and
  the container stops with success, although the mode is meant to keep working.
\<close>

theorem standalone_stops_after_failed_refresh:
  assumes "Mode config = ''standalone''" and "r_main r = Waiting" and "r_periodic r = Idle"
    and "periodic_provide provide status (r_app r) = Some (Ret (Some e), a)"
  shows "reach env config provide status r (r\<lparr>r_app := a, r_periodic := Idle, r_main := Returned None\<rparr>)
     \<and> (\<forall>r1 r2. r_main r1 = Waiting \<and> r_periodic r1 = Sending e \<and> rstep env config provide status r1 r2
          \<longrightarrow> r_periodic r2 = Sending e \<or> r_main r2 = Returned None)"
proof -
  let ?r0 = "r\<lparr>r_periodic := Working None\<rparr>" and ?r1 = "r\<lparr>r_app := a, r_periodic := Sending e\<rparr>"
  have 0: "rstep env config provide status r ?r0" using assms(2,3) by (intro rstep.tick) simp_all
  have 1: "rstep env config provide status ?r0 ?r1"
    using rstep.tick_done [of ?r0 provide status "Ret (Some e)" a env config] assms(2,4) by (simp add: after_periodic_def)
  have 2: "rstep env config provide status ?r1 (?r1\<lparr>r_periodic := Idle, r_main := main_receives config e\<rparr>)"
    by (rule rstep.error_periodic) (use assms(2) in simp_all)
  have "?r1\<lparr>r_periodic := Idle, r_main := main_receives config e\<rparr> = r\<lparr>r_app := a, r_periodic := Idle, r_main := Returned None\<rparr>"
    using assms(1) by (simp add: main_receives_def)
  then have r: "reach env config provide status r (r\<lparr>r_app := a, r_periodic := Idle, r_main := Returned None\<rparr>)"
    using reach.more [OF reach.more [OF reach.more [OF reach.here 0] 1] 2] by simp
  have "r_periodic r2 = Sending e \<or> r_main r2 = Returned None"
    if "r_main r1 = Waiting" "r_periodic r1 = Sending e" "rstep env config provide status r1 r2" for r1 r2
    using that(3) that(1,2) assms(1)
    by (cases rule: rstep.cases) (auto simp: after_informer_def main_receives_def split: outcome.splits option.splits)
  with r show ?thesis by blast
qed

theorem standalone_stops_after_failed_refresh_witness:
  "reach demo_env (watch_config ''standalone'') failing_func NewStatusUpdater (start_running (watch_config ''standalone'') 0 (demo_app 0))
     ((start_running (watch_config ''standalone'') 0 (demo_app 0))\<lparr>r_app := demo_app 0, r_periodic := Idle, r_main := Returned None\<rparr>)"
proof -
  have "periodic_provide failing_func NewStatusUpdater (demo_app 0) = Some (Ret (Some (K8sFailed ''down'')), demo_app 0)"
    by (simp add: periodic_provide_def failing_func_def setReady_def demo_app_def)
  then show ?thesis
    using standalone_stops_after_failed_refresh [of "watch_config ''standalone''"
        "start_running (watch_config ''standalone'') 0 (demo_app 0)" failing_func NewStatusUpdater "K8sFailed ''down''" "demo_app 0" demo_env]
    by (simp add: watch_config_def start_running_def)
qed

text \<open>
  A clean-up that fails is not repeated: whatever the provider reports, the pending keys are
  forgotten, and the next run leaves them in the Secrets.
\<close>

lemma failed_cleanup_forgets_keys:
  assumes "keysToRemoveCumulative l \<noteq> []"
    and "instance_cleanup env (keysToRemoveCumulative l) a = (Ret (u, Some e), a1)"
  shows "run_provide_secrets env provide status l a =
     Some (Ret (Some e), l\<lparr>keysToRemoveCumulative := [], debounceTimer := None, eventCount := 0\<rparr>, setReady (Some e) a1)"
  using assms by (simp add: run_provide_secrets_def Let_def)

end
