(* ===== verification/Conjur_Client.thy ===== *)
theory Conjur_Client
  imports K8s_Client
begin

text \<open>
  Package conjur (conjur\_client.go, conjur\_client\_wrapper.go, conjur\_secrets\_retriever.go):
  fetching variables. A retriever authenticates, creates a client from the access token and
  fetches either the given variables or, page by page, all that the host can see. The wrapper
  asks the batch interface of version 2 first and falls back to version 1. The Conjur API library
  and the authenticator are parameters that act on a world of any type.
\<close>

section \<open>The Conjur API library\<close>

record ResourceFilter =
  rf_Kind :: string
  rf_Limit :: int
  rf_Offset :: int

text \<open>A field of a listed resource; the program reads the field id and expects a string.\<close>

datatype resource_value = RStr string | ROther

record batch_secret =
  bs_ID :: string
  bs_Status :: int
  bs_Value :: string

record 'w conjur_api =
  ca_LoadConfig :: "'w \<Rightarrow> gerror option"
  ca_NewClientFromToken :: "string \<Rightarrow> 'w \<Rightarrow> gerror option"
  ca_hasV2 :: "'w \<Rightarrow> bool"
  ca_BatchRetrieveSecrets :: "string list \<Rightarrow> 'w \<Rightarrow> (gerror + batch_secret list) \<times> 'w"
  ca_RetrieveBatchSecretsSafe :: "string list \<Rightarrow> 'w \<Rightarrow> (gerror + (string, string) gomap) \<times> 'w"
  ca_Resources :: "ResourceFilter \<Rightarrow> 'w \<Rightarrow> (gerror + (string, resource_value) gomap list) \<times> 'w"
  ca_Cleanup :: "'w \<Rightarrow> 'w"

definition CSPFK010E :: string where "CSPFK010E = ''CSPFK010E Failed to authenticate''"
definition CSPFK031E :: "string \<Rightarrow> string" where
  "CSPFK031E e = ''CSPFK031E Failed to load DAP/Conjur config. Reason: '' @ e"
definition CSPFK032E :: "string \<Rightarrow> string" where
  "CSPFK032E e = ''CSPFK032E Failed to create DAP/Conjur client from token. Reason: '' @ e"
definition CSPFK033E :: string where "CSPFK033E = ''CSPFK033E Failed to create DAP/Conjur client''"
definition CSPFK092E :: string where "CSPFK092E = ''CSPFK092E No secrets were successfully retrieved''"

section \<open>conjur\_client\_wrapper.go\<close>

text \<open>The wrapped client is the API; its own state is whether version 2 is still tried.\<close>

record conjurClientWrapper =
  useV2 :: bool

definition normalizeVariableIdForV2 :: "string \<Rightarrow> string" where
  "normalizeVariableIdForV2 fullVariableId =
     (let variableIdParts = SplitN fullVariableId CHR '':'' 3
      in if length variableIdParts = 3 then variableIdParts ! 2 else fullVariableId)"

definition isV2NotAvailableError :: "gerror option \<Rightarrow> bool" where
  "isV2NotAvailableError err =
     (case err of None \<Rightarrow> False
      | Some errMsg \<Rightarrow> list_ex (\<lambda>indicator. Contains errMsg indicator) [''not supported in'', ''404''])"

definition original_id :: "(string, string) gomap \<Rightarrow> string \<Rightarrow> string" where
  "original_id originalIDMap sid = (let originalID = gget [] originalIDMap sid in if originalID = [] then sid else originalID)"

text \<open>The response is split into the values and the identifiers that failed.\<close>

fun batch_response ::
  "(string, string) gomap \<Rightarrow> batch_secret list \<Rightarrow> (string, string) gomap \<Rightarrow> (string \<times> int) list
     \<Rightarrow> (string, string) gomap \<times> (string \<times> int) list" where
  "batch_response originalIDMap [] secrets failedSecrets = (secrets, failedSecrets)"
| "batch_response originalIDMap (secret # rest) secrets failedSecrets =
     (if bs_Status secret = 200
      then batch_response originalIDMap rest (gput (original_id originalIDMap (bs_ID secret)) (bs_Value secret) secrets) failedSecrets
      else batch_response originalIDMap rest secrets
             (failedSecrets @ [(original_id originalIDMap (bs_ID secret), bs_Status secret)]))"

definition retrieveBatchSecretsV2 ::
  "'w conjur_api \<Rightarrow> string list \<Rightarrow> 'w \<Rightarrow> (gerror + (string, string) gomap) \<times> 'w" where
  "retrieveBatchSecretsV2 api variableIDs w =
     (if \<not> ca_hasV2 api w then (Inl ''V2 client not available'', w)
      else
        let normalizedIDs = map normalizeVariableIdForV2 variableIDs;
            originalIDMap = fold (\<lambda>i m. gput (normalizeVariableIdForV2 i) i m) variableIDs []
        in case ca_BatchRetrieveSecrets api normalizedIDs w of
             (Inl err, w1) \<Rightarrow> (Inl err, w1)
           | (Inr batchResp, w1) \<Rightarrow>
               (case batch_response originalIDMap batchResp [] [] of
                  (secrets, failedSecrets) \<Rightarrow>
                    if length secrets = 0 then (Inl CSPFK092E, w1) else (Inr secrets, w1)))"

definition RetrieveBatchSecretsSafe ::
  "'w conjur_api \<Rightarrow> string list \<Rightarrow> conjurClientWrapper \<Rightarrow> 'w
     \<Rightarrow> (gerror + (string, string) gomap) \<times> conjurClientWrapper \<times> 'w" where
  "RetrieveBatchSecretsSafe api variableIDs c w =
     (let v1 = (\<lambda>c w. case ca_RetrieveBatchSecretsSafe api variableIDs w of (r, w1) \<Rightarrow> (r, c, w1)) in
      if useV2 c then
        (case retrieveBatchSecretsV2 api variableIDs w of
           (Inl err, w1) \<Rightarrow> if isV2NotAvailableError (Some err) then v1 (c\<lparr>useV2 := False\<rparr>) w1 else (Inl err, c, w1)
         | (Inr secrets, w1) \<Rightarrow> (Inr secrets, c, w1))
      else v1 c w)"

definition Resources ::
  "'w conjur_api \<Rightarrow> ResourceFilter \<Rightarrow> 'w \<Rightarrow> (gerror + (string, resource_value) gomap list) \<times> 'w" where
  "Resources api resFilter w = ca_Resources api resFilter w"

section \<open>conjur\_client.go\<close>

definition NewConjurClient ::
  "recorded_error \<Rightarrow> 'w conjur_api \<Rightarrow> string \<Rightarrow> 'w \<Rightarrow> gerror + conjurClientWrapper" where
  "NewConjurClient recorded api tokenData w =
     (case ca_LoadConfig api w of
        Some err \<Rightarrow> Inl (recorded (CSPFK031E err))
      | None \<Rightarrow>
          (case ca_NewClientFromToken api tokenData w of
             Some err \<Rightarrow> Inl (recorded (CSPFK032E err))
           | None \<Rightarrow> Inr \<lparr>useV2 = True\<rparr>))"

section \<open>conjur\_secrets\_retriever.go\<close>

definition fetchAllMaxSecrets :: nat where "fetchAllMaxSecrets = 500"

definition normaliseVariableId :: "string \<Rightarrow> string" where
  "normaliseVariableId fullVariableId =
     (let variableIdParts = SplitN fullVariableId CHR '':'' 3
      in if length variableIdParts = 3 then variableIdParts ! 2 else fullVariableId)"

text \<open>The fetched map is renamed in an unspecified order; the original entries are deleted on the way.\<close>

definition normalise_all :: "range_order \<Rightarrow> (string, string) gomap \<Rightarrow> (string, string) gomap" where
  "normalise_all rt byFullIDs = fold (\<lambda>(i, secret) m. gput (normaliseVariableId i) secret m) (grange rt 20 byFullIDs) []"

definition retrieveConjurSecrets_ids ::
  "recorded_error \<Rightarrow> range_order \<Rightarrow> 'w conjur_api \<Rightarrow> string list \<Rightarrow> conjurClientWrapper \<Rightarrow> 'w
     \<Rightarrow> (gerror + (string, string) gomap) \<times> conjurClientWrapper \<times> 'w" where
  "retrieveConjurSecrets_ids recorded rt api variableIDs c w =
     (if length variableIDs = 0 then (Inl (recorded (CSPFK034E ''no variables to retrieve'')), c, w)
      else case RetrieveBatchSecretsSafe api variableIDs c w of
        (Inl err, c1, w1) \<Rightarrow> (Inl err, c1, w1)
      | (Inr byFullIDs, c1, w1) \<Rightarrow> (Inr (normalise_all rt byFullIDs), c1, w1))"

text \<open>The identifiers of one page; a missing or non-string id panics.\<close>

fun resource_ids :: "(string, resource_value) gomap list \<Rightarrow> string list outcome" where
  "resource_ids [] = Ret []"
| "resource_ids (candidate # rest) =
     (case map_of candidate ''id'' of
        Some (RStr i) \<Rightarrow> obind (resource_ids rest) (\<lambda>is. Ret (i # is))
      | _ \<Rightarrow> Panic)"

text \<open>
  The loop over the pages. A page with fewer than 100 resources is the last; the loop also ends
  once the limit is reached, so the number of further pages is bounded by what is missing to it.
\<close>

function fetch_pages ::
  "'w conjur_api \<Rightarrow> nat \<Rightarrow> int \<Rightarrow> string list \<Rightarrow> 'w \<Rightarrow> (gerror + string list) outcome \<times> 'w" where
  "fetch_pages api maxSecrets offset allResourcePaths w =
     (case Resources api \<lparr>rf_Kind = ''variable'', rf_Limit = 100, rf_Offset = offset\<rparr> w of
        (Inl err, w1) \<Rightarrow> (Ret (Inl err), w1)
      | (Inr resources, w1) \<Rightarrow>
          (case resource_ids resources of
             Panic \<Rightarrow> (Panic, w1)
           | Ret is \<Rightarrow>
               (let paths = allResourcePaths @ is in
                if length resources < 100 then (Ret (Inr paths), w1)
                else if length paths \<ge> maxSecrets then (Ret (Inr paths), w1)
                else fetch_pages api maxSecrets (offset + 100) paths w1)))"
  by pat_completeness auto

lemma length_resource_ids: "resource_ids rs = Ret is \<Longrightarrow> length is = length rs"
  by (induction rs arbitrary: "is") (auto simp: obind_Ret_iff split: option.splits resource_value.splits)

termination fetch_pages
  by (relation "measure (\<lambda>(api, maxSecrets, offset, paths, w). maxSecrets - length paths)")
    (auto dest!: length_resource_ids)

declare fetch_pages.simps [simp del]

definition retrieveConjurSecretsAll ::
  "recorded_error \<Rightarrow> range_order \<Rightarrow> 'w conjur_api \<Rightarrow> conjurClientWrapper \<Rightarrow> 'w
     \<Rightarrow> (gerror + (string, string) gomap) outcome \<times> conjurClientWrapper \<times> 'w" where
  "retrieveConjurSecretsAll recorded rt api c w =
     (case fetch_pages api fetchAllMaxSecrets 0 [] w of
        (Panic, w1) \<Rightarrow> (Panic, c, w1)
      | (Ret (Inl err), w1) \<Rightarrow> (Ret (Inl err), c, w1)
      | (Ret (Inr allResourcePaths), w1) \<Rightarrow>
          if length allResourcePaths = 0 then (Ret (Inl (recorded (CSPFK034E ''no variables to retrieve''))), c, w1)
          else (case RetrieveBatchSecretsSafe api allResourcePaths c w1 of
             (Inl err, c1, w2) \<Rightarrow> (Ret (Inl err), c1, w2)
           | (Inr byFullIDs, c1, w2) \<Rightarrow> (Ret (Inr (normalise_all rt byFullIDs)), c1, w2)))"

text \<open>
  Retrieve also returns what the buffer with the access token holds afterwards: it is cleared on
  every way out, a panic included.
\<close>

definition Retrieve ::
  "recorded_error \<Rightarrow> range_order \<Rightarrow> ('w \<Rightarrow> (gerror + string) \<times> 'w) \<Rightarrow> 'w conjur_api \<Rightarrow> string list \<Rightarrow> 'w
     \<Rightarrow> (gerror + (string, string) gomap) outcome \<times> string \<times> 'w" where
  "Retrieve recorded rt getAccessToken api variableIDs w =
     (case getAccessToken w of
        (Inl err, w1) \<Rightarrow> (Ret (Inl (recorded CSPFK010E)), [], w1)
      | (Inr accessTokenData, w1) \<Rightarrow>
          (let cleared_token = map (\<lambda>_. CHR 0x00) accessTokenData;
               fetchAll = (length variableIDs = 1 \<and> hd variableIDs = ''*'')
           in case NewConjurClient recorded api accessTokenData w1 of
                Inl err \<Rightarrow> (Ret (Inl (recorded CSPFK033E)), cleared_token, w1)
              | Inr c \<Rightarrow>
                  (if fetchAll
                   then (case retrieveConjurSecretsAll recorded rt api c w1 of
                           (r, _, w2) \<Rightarrow> (r, cleared_token, ca_Cleanup api w2))
                   else (case retrieveConjurSecrets_ids recorded rt api variableIDs c w1 of
                           (r, _, w2) \<Rightarrow> (Ret r, cleared_token, ca_Cleanup api w2)))))"

text \<open>The function that the providers get.\<close>

definition NewSecretRetriever ::
  "recorded_error \<Rightarrow> range_order \<Rightarrow> ('auth \<Rightarrow> 'w \<Rightarrow> (gerror + string) \<times> 'w) \<Rightarrow> 'w conjur_api \<Rightarrow> 'auth
     \<Rightarrow> gerror + (string list \<Rightarrow> 'w \<Rightarrow> (gerror + (string, string) gomap) outcome \<times> 'w)" where
  "NewSecretRetriever recorded rt getAccessToken api authenticator =
     Inr (\<lambda>variableIDs w.
       case Retrieve recorded rt (getAccessToken authenticator) api variableIDs w of (r, _, w1) \<Rightarrow> (r, w1))"

section \<open>Lemmas on identifiers\<close>

lemma normalize_same: "normalizeVariableIdForV2 = normaliseVariableId"
  by (simp add: fun_eq_iff normalizeVariableIdForV2_def normaliseVariableId_def)

lemma normalise_account: "CHR '':'' \<notin> set account \<Longrightarrow> normaliseVariableId (account @ '':variable:'' @ i) = i"
  by (simp add: normaliseVariableId_def Let_def numeral_eq_Suc dropWhile_append takeWhile_append)

lemma normalise_Nil [simp]: "normaliseVariableId [] = []"
  by (simp add: normaliseVariableId_def Let_def numeral_eq_Suc)

lemma normalise_all_lookup:
  assumes "range_order_ok rt" and "gwf m" and "inj_on normaliseVariableId (fst ` set m)"
  shows "map_of (normalise_all rt m) k = Some v \<longleftrightarrow> (\<exists>i. map_of m i = Some v \<and> normaliseVariableId i = k)"
proof -
  let ?es = "map (\<lambda>(i, s). (normaliseVariableId i, s)) (grange rt 20 m)"
  have set: "set (grange rt 20 m) = set m" by (rule grange_set [OF assms(1,2)])
  have d: "distinct (map fst (grange rt 20 m))" by (rule grange_distinct [OF assms(1,2)])
  have "map fst ?es = map normaliseVariableId (map fst (grange rt 20 m))" by (simp add: case_prod_unfold)
  then have wf: "gwf ?es"
    using d assms(3) by (simp add: gwf_def distinct_map set del: map_map)
  have "normalise_all rt m = put_entries ?es []"
    by (simp add: normalise_all_def put_entries_def fold_map comp_def case_prod_unfold)
  then have "map_of (normalise_all rt m) k = Some v \<longleftrightarrow> map_of ?es k = Some v"
    using put_entries_lookup [OF wf, of "[]" k] by (simp split: option.splits)
  also have "\<dots> \<longleftrightarrow> (k, v) \<in> set ?es" using wf by (simp add: gwf_map_of_mem)
  also have "\<dots> \<longleftrightarrow> (\<exists>i. map_of m i = Some v \<and> normaliseVariableId i = k)"
    using assms(2) by (auto simp: set gwf_map_of_mem)
  finally show ?thesis .
qed

section \<open>The version 2 batch\<close>

definition original_ids :: "string list \<Rightarrow> (string, string) gomap" where
  "original_ids variableIDs = fold (\<lambda>i m. gput (normaliseVariableId i) i m) variableIDs []"

lemma put_entries_mem: "map_of (put_entries es m) k = Some v \<Longrightarrow> (k, v) \<in> set es \<or> map_of m k = Some v"
  by (induction es arbitrary: m) (fastforce simp: put_entries_def split: if_splits)+

lemma put_entries_dom: "dom (map_of (put_entries es m)) = fst ` set es \<union> dom (map_of m)"
  by (induction es arbitrary: m) (auto simp: put_entries_def)

lemma put_entries_wf: "gwf m \<Longrightarrow> gwf (put_entries es m)"
  by (induction es arbitrary: m) (auto simp: put_entries_def)

lemma original_ids_entries: "original_ids ids = put_entries (map (\<lambda>i. (normaliseVariableId i, i)) ids) []"
  by (simp add: original_ids_def put_entries_def fold_map comp_def)

text \<open>Renaming to the original identifier and back gives the normalised one.\<close>

lemma normalise_original:
  assumes "i \<in> normaliseVariableId ` set ids"
  shows "normaliseVariableId (original_id (original_ids ids) i) = i"
proof -
  have "i \<in> dom (map_of (original_ids ids))"
    using assms by (simp add: original_ids_entries put_entries_dom image_image)
  then obtain v where v: "map_of (original_ids ids) i = Some v" by auto
  then have "normaliseVariableId v = i"
    using put_entries_mem [of _ "[]" i v] by (fastforce simp: original_ids_entries)
  with v show ?thesis by (cases "v = []") (auto simp: original_id_def gget_def)
qed

text \<open>
  What a server with the given values answers for a list of identifiers: an entry for each, with
  status 200 and the value or, if it has or gives none, with some other status.
\<close>

definition v2_answer :: "(string \<rightharpoonup> string) \<Rightarrow> string list \<Rightarrow> batch_secret list \<Rightarrow> bool" where
  "v2_answer vals ids resp \<longleftrightarrow> map bs_ID resp = ids
     \<and> (\<forall>s\<in>set resp. case vals (bs_ID s) of None \<Rightarrow> bs_Status s \<noteq> 200 | Some v \<Rightarrow> bs_Status s = 200 \<and> bs_Value s = v)"

lemma batch_response_entries:
  assumes "v2_answer vals is resp"
  shows "fst (batch_response om resp m f) =
     put_entries (map (\<lambda>i. (original_id om i, the (vals i))) (filter (\<lambda>i. vals i \<noteq> None) is)) m"
  using assms
proof (induction resp arbitrary: "is" m f)
  case (Cons s resp)
  then have "v2_answer vals (map bs_ID resp) resp" "is = bs_ID s # map bs_ID resp"
    by (auto simp: v2_answer_def)
  with Cons show ?case by (cases "vals (bs_ID s)") (auto simp: v2_answer_def put_entries_def)
qed (simp add: v2_answer_def put_entries_def)

text \<open>Such an answer, with the given status for what is missing.\<close>

definition v2_response :: "int \<Rightarrow> (string \<rightharpoonup> string) \<Rightarrow> string list \<Rightarrow> batch_secret list" where
  "v2_response st vals ids = map (\<lambda>i. \<lparr>bs_ID = i, bs_Status = (if vals i = None then st else 200),
     bs_Value = (case vals i of None \<Rightarrow> [] | Some v \<Rightarrow> v)\<rparr>) ids"

lemma v2_response_answers: "st \<noteq> 200 \<Longrightarrow> v2_answer vals ids (v2_response st vals ids)"
  by (auto simp: v2_answer_def v2_response_def comp_def split: option.splits)

text \<open>Version 1 names each value by account, kind and path.\<close>

definition v1_answer :: "string \<Rightarrow> (string \<rightharpoonup> string) \<Rightarrow> string list \<Rightarrow> (string, string) gomap \<Rightarrow> bool" where
  "v1_answer account vals ids m \<longleftrightarrow> gwf m \<and> CHR '':'' \<notin> set account
     \<and> set m = (\<lambda>i. (account @ '':variable:'' @ normaliseVariableId i, the (vals (normaliseVariableId i)))) ` set ids"

lemma restrict_eqI:
  assumes "\<And>k v. f k = Some v \<longleftrightarrow> k \<in> A \<and> g k = Some v"
  shows "f k = (if k \<in> A then g k else None)"
  by (metis assms not_None_eq)

lemma v2_values:
  fixes ids :: "string list" and vals :: "string \<rightharpoonup> string"
  assumes "range_order_ok rt" and ans: "v2_answer vals (map normaliseVariableId ids) resp"
  defines "is \<equiv> map normaliseVariableId ids"
  defines "m \<equiv> fst (batch_response (original_ids ids) resp [] [])"
  shows "map_of (normalise_all rt m) k = (if k \<in> set is then vals k else None)"
    and "m = [] \<longleftrightarrow> (\<forall>i\<in>set is. vals i = None)"
proof -
  let ?orig = "original_id (original_ids ids)"
  let ?es = "map (\<lambda>i. (?orig i, the (vals i))) (filter (\<lambda>i. vals i \<noteq> None) is)"
  have m: "m = put_entries ?es []" by (simp add: m_def is_def batch_response_entries [OF ans])
  have nback: "normaliseVariableId (?orig i) = i" if "i \<in> set is" for i
    using that normalise_original [of i ids] by (simp add: is_def)
  have wf: "gwf m" by (simp add: m put_entries_wf)
  have dom: "fst ` set m = ?orig ` {i \<in> set is. vals i \<noteq> None}"
    using put_entries_dom [of ?es "[]"] by (simp add: m dom_map_of_conv_image_fst image_image)
  have inj: "inj_on normaliseVariableId (fst ` set m)"
    using nback by (auto simp: dom inj_on_def)
  have at: "map_of m (?orig i) = vals i" if i: "i \<in> set is" for i
  proof (cases "vals i")
    case None
    have "?orig i \<notin> fst ` set m"
    proof
      assume "?orig i \<in> fst ` set m"
      then obtain j where "j \<in> set is" "vals j \<noteq> None" "?orig i = ?orig j" by (auto simp: dom)
      with nback [OF i] nback [of j] None show False by metis
    qed
    with None show ?thesis by (simp add: map_of_eq_None_iff)
  next
    case (Some v)
    then have "?orig i \<in> fst ` set m" using i by (auto simp: dom)
    then obtain u where u: "map_of m (?orig i) = Some u"
      by (metis (no_types, lifting) domD dom_map_of_conv_image_fst)
    then obtain j where "j \<in> set is" "vals j = Some u" "?orig j = ?orig i"
      using put_entries_mem [of ?es "[]" "?orig i" u] by (auto simp: m)
    with nback [OF i] nback [of j] u show ?thesis by metis
  qed
  have "map_of (normalise_all rt m) k = Some v \<longleftrightarrow> k \<in> set is \<and> vals k = Some v" for k v
  proof -
    have "map_of m i = Some v \<Longrightarrow> \<exists>j\<in>set is. i = ?orig j" for i
      using dom by (force dest: map_of_SomeD)
    then show ?thesis
      unfolding normalise_all_lookup [OF assms(1) wf inj] using at nback by metis
  qed
  then show "map_of (normalise_all rt m) k = (if k \<in> set is then vals k else None)" by (rule restrict_eqI)
  have "m = [] \<longleftrightarrow> fst ` set m = {}" by simp
  also have "\<dots> \<longleftrightarrow> (\<forall>i\<in>set is. vals i = None)" by (auto simp: dom)
  finally show "m = [] \<longleftrightarrow> (\<forall>i\<in>set is. vals i = None)" .
qed

lemma v1_values:
  assumes "range_order_ok rt" and "v1_answer account vals ids m" and "\<forall>i\<in>set ids. vals (normaliseVariableId i) \<noteq> None"
  shows "map_of (normalise_all rt m) k = (if k \<in> normaliseVariableId ` set ids then vals k else None)"
proof (rule restrict_eqI)
  fix k v
  have wf: "gwf m" and acc: "CHR '':'' \<notin> set account"
    and set: "set m = (\<lambda>i. (account @ '':variable:'' @ normaliseVariableId i, the (vals (normaliseVariableId i)))) ` set ids"
    using assms(2) by (simp_all add: v1_answer_def)
  note norm = normalise_account [OF acc]
  have "fst ` set m = (\<lambda>i. account @ '':variable:'' @ normaliseVariableId i) ` set ids"
    by (simp only: set image_image fst_conv)
  then have inj: "inj_on normaliseVariableId (fst ` set m)"
    by (auto simp only: inj_on_def norm)
  have "(\<exists>i. map_of m i = Some v \<and> normaliseVariableId i = k)
      \<longleftrightarrow> (\<exists>i\<in>set ids. normaliseVariableId i = k \<and> the (vals (normaliseVariableId i)) = v)"
    unfolding gwf_map_of_mem [OF wf] set by (auto simp only: norm image_iff prod.inject)
  also have "\<dots> \<longleftrightarrow> k \<in> normaliseVariableId ` set ids \<and> vals k = Some v"
    using assms(3) by auto
  finally show "map_of (normalise_all rt m) k = Some v \<longleftrightarrow> k \<in> normaliseVariableId ` set ids \<and> vals k = Some v"
    by (simp only: normalise_all_lookup [OF assms(1) wf inj])
qed

lemma retrieveV2_eq:
  assumes "ca_hasV2 api w"
    and "ca_BatchRetrieveSecrets api (map normaliseVariableId ids) w = (Inr resp, w1)"
  defines "m \<equiv> fst (batch_response (original_ids ids) resp [] [])"
  shows "retrieveBatchSecretsV2 api ids w = (if m = [] then Inl CSPFK092E else Inr m, w1)"
  using assms(1,2)
  by (simp add: retrieveBatchSecretsV2_def m_def original_ids_def normalize_same Let_def case_prod_unfold)

section \<open>Paging\<close>

lemma resource_ids_map: "resource_ids (map (\<lambda>i. [(''id'', RStr i)]) is) = Ret is"
  by (induction "is") auto

lemma take_drop_next: "take n xs @ take m (drop n xs) = take (n + m) xs"
  by (simp add: take_add)

lemma fetch_pages_listing:
  assumes api: "\<And>off w. ca_Resources api \<lparr>rf_Kind = ''variable'', rf_Limit = 100, rf_Offset = off\<rparr> w
      = (Inr (map (\<lambda>i. [(''id'', RStr i)]) (take 100 (drop (nat off) xs))), upd w)"
    and "j < p"
  shows "\<exists>n. n \<le> p - j \<and> fetch_pages api (100 * p) (int (100 * j)) (take (100 * j) xs) w
      = (Ret (Inr (take (100 * p) xs)), (upd ^^ n) w)"
  using assms(2)
proof (induction "p - j" arbitrary: j w)
  case (Suc d)
  let ?page = "take 100 (drop (100 * j) xs)"
  have paths: "take (100 * j) xs @ ?page = take (100 * Suc j) xs" by (simp add: take_drop_next add.commute)
  have off: "int (100 * j) + 100 = int (100 * Suc j)" by simp
  have step: "fetch_pages api (100 * p) (int (100 * j)) (take (100 * j) xs) w =
      (if length ?page < 100 then (Ret (Inr (take (100 * Suc j) xs)), upd w)
       else if length (take (100 * Suc j) xs) \<ge> 100 * p then (Ret (Inr (take (100 * Suc j) xs)), upd w)
       else fetch_pages api (100 * p) (int (100 * Suc j)) (take (100 * Suc j) xs) (upd w))"
    by (subst fetch_pages.simps)
      (simp only: Resources_def api nat_int prod.case sum.case resource_ids_map outcome.case Let_def paths length_map off)
  show ?case
  proof (cases "length ?page < 100")
    case True
    then have "length xs < 100 * Suc j" by auto
    moreover have "100 * Suc j \<le> 100 * p" using Suc.prems by simp
    ultimately have "length xs < 100 * Suc j" "length xs < 100 * p" by linarith+
    then show ?thesis using step True Suc.prems by (intro exI [of _ 1]) simp
  next
    case False
    then have len: "length xs \<ge> 100 * Suc j" by auto
    show ?thesis
    proof (cases "Suc j = p")
      case True
      then show ?thesis using step False len by (intro exI [of _ 1]) auto
    next
      case more: False
      then have "d = p - Suc j" "Suc j < p" using Suc.hyps(2) Suc.prems by simp_all
      from Suc.hyps(1) [OF this, of "upd w"] obtain n where n: "n \<le> p - Suc j"
        "fetch_pages api (100 * p) (int (100 * Suc j)) (take (100 * Suc j) xs) (upd w)
           = (Ret (Inr (take (100 * p) xs)), (upd ^^ n) (upd w))" by blast
      have "\<not> 100 * p \<le> length (take (100 * Suc j) xs)" using more Suc.prems len by simp
      then show ?thesis
        using step False n more Suc.prems by (intro exI [of _ "Suc n"]) (simp add: funpow_swap1)
    qed
  qed
qed simp

section \<open>Properties\<close>

text \<open>
  (C11) Which values a fetch gives, in every map order: through the version 2 interface, the
  value of every requested path that the server has, under the path's normalised name, and
  nothing else, as long as it has one of them; and through version 1, when version 2 is not
  available, the same map. So the fallback is transparent when no variable is missing.
\<close>

theorem fetched_values_follow_server:
  assumes rt: "range_order_ok rt"
    and v2: "ca_hasV2 api w"
      "ca_BatchRetrieveSecrets api (map normaliseVariableId ids) w = (Inr resp, w1)"
      "v2_answer vals (map normaliseVariableId ids) resp"
    and some: "\<exists>i\<in>set ids. vals (normaliseVariableId i) \<noteq> None"
    and old: "retrieveBatchSecretsV2 oldapi ids v = (Inl e, v1)" "Contains e ''404'' \<or> Contains e ''not supported in''"
      "ca_RetrieveBatchSecretsSafe oldapi ids v1 = (Inr full, v2)" "v1_answer account vals ids full"
  shows "\<exists>m. retrieveConjurSecrets_ids recorded rt api ids \<lparr>useV2 = True\<rparr> w = (Inr m, \<lparr>useV2 = True\<rparr>, w1)
       \<and> (\<forall>k. map_of m k = (if k \<in> normaliseVariableId ` set ids then vals k else None))
       \<and> ((\<forall>i\<in>set ids. vals (normaliseVariableId i) \<noteq> None) \<longrightarrow>
           (\<exists>m'. retrieveConjurSecrets_ids recorded rt oldapi ids \<lparr>useV2 = True\<rparr> v = (Inr m', \<lparr>useV2 = False\<rparr>, v2)
              \<and> map_of m' = map_of m))"
proof -
  define b where "b = fst (batch_response (original_ids ids) resp [] [])"
  have ids: "ids \<noteq> []" using some by auto
  have b: "b \<noteq> []" using v2_values(2) [OF rt v2(3)] some by (auto simp: b_def)
  have new: "retrieveConjurSecrets_ids recorded rt api ids \<lparr>useV2 = True\<rparr> w = (Inr (normalise_all rt b), \<lparr>useV2 = True\<rparr>, w1)"
    using retrieveV2_eq [OF v2(1,2)] b ids
    by (simp add: retrieveConjurSecrets_ids_def RetrieveBatchSecretsSafe_def b_def [symmetric])
  have vals: "map_of (normalise_all rt b) k = (if k \<in> normaliseVariableId ` set ids then vals k else None)" for k
    using v2_values(1) [OF rt v2(3), of k] by (simp add: b_def)
  have "retrieveConjurSecrets_ids recorded rt oldapi ids \<lparr>useV2 = True\<rparr> v = (Inr (normalise_all rt full), \<lparr>useV2 = False\<rparr>, v2)"
    using old(1,2,3) ids
    by (auto simp: retrieveConjurSecrets_ids_def RetrieveBatchSecretsSafe_def isV2NotAvailableError_def)
  moreover have "map_of (normalise_all rt full) = map_of (normalise_all rt b)"
    if "\<forall>i\<in>set ids. vals (normaliseVariableId i) \<noteq> None"
    using v1_values [OF rt old(4) that] vals by (intro ext) simp
  ultimately show ?thesis using new vals by blast
qed

text \<open>
  When the version 2 interface answers but gives no variable, whatever the statuses, the error is
  CSPFK092E, and version 1 is not asked.
\<close>

lemma v2_refusal:
  assumes "ca_hasV2 api w" and "ca_BatchRetrieveSecrets api (map normaliseVariableId ids) w = (Inr resp, w1)"
    and "\<forall>s\<in>set resp. bs_Status s \<noteq> 200" and "ids \<noteq> []"
  shows "retrieveConjurSecrets_ids recorded rt api ids \<lparr>useV2 = True\<rparr> w = (Inl CSPFK092E, \<lparr>useV2 = True\<rparr>, w1)"
proof -
  have "fst (batch_response om resp [] f) = []" for om f
    using assms(3) by (induction resp arbitrary: f) auto
  moreover have "\<not> isV2NotAvailableError (Some CSPFK092E)" by code_simp
  ultimately show ?thesis
    using retrieveV2_eq [OF assms(1,2)] assms(4)
    by (simp add: retrieveConjurSecrets_ids_def RetrieveBatchSecretsSafe_def)
qed

text \<open>
  (C21) Fetching everything is bounded: of a listing of any length, the loop takes exactly the
  first 500 identifiers (all of them, if there are fewer), and it asks for at most five pages.
\<close>

theorem fetch_all_is_bounded:
  assumes "\<And>off w. ca_Resources api \<lparr>rf_Kind = ''variable'', rf_Limit = 100, rf_Offset = off\<rparr> w
      = (Inr (map (\<lambda>i. [(''id'', RStr i)]) (take 100 (drop (nat off) xs))), upd w)"
  shows "\<exists>n\<le>5. fetch_pages api fetchAllMaxSecrets 0 [] w = (Ret (Inr (take 500 xs)), (upd ^^ n) w)"
  using fetch_pages_listing [where j = 0 and p = 5, OF assms] by (simp add: fetchAllMaxSecrets_def)

text \<open>An identifier with two colons is asked for under its last part, through version 2.\<close>

lemma colon_id_asks_for_other_variable:
  "normalizeVariableIdForV2 ''team:db:password'' = ''password''"
  by code_simp

subsection \<open>Witnesses\<close>

text \<open>A server with the given values that lists its paths; the world counts the calls.\<close>

definition demo_conjur :: "bool \<Rightarrow> (string \<times> string) list \<Rightarrow> nat conjur_api" where
  "demo_conjur two vals =
     \<lparr>ca_LoadConfig = (\<lambda>_. None), ca_NewClientFromToken = (\<lambda>_ _. None), ca_hasV2 = (\<lambda>_. True),
      ca_BatchRetrieveSecrets = (\<lambda>ids w. (if two then Inr (v2_response 404 (map_of vals) ids) else Inl ''404 Not Found'', Suc w)),
      ca_RetrieveBatchSecretsSafe = (\<lambda>ids w. (Inr (map (\<lambda>(i, v). (''acct:variable:'' @ i, v)) vals), Suc w)),
      ca_Resources = (\<lambda>f w. (Inr (map (\<lambda>i. [(''id'', RStr i)]) (take 100 (drop (nat (rf_Offset f)) (map fst vals)))), Suc w)),
      ca_Cleanup = (\<lambda>w. w)\<rparr>"

definition demo_conjur_vals :: "(string \<times> string) list" where
  "demo_conjur_vals = [(''db/user'', ''alice''), (''db/pw'', ''s3cret'')]"

theorem fetched_values_follow_server_witness:
  "\<exists>m m'. retrieveConjurSecrets_ids (\<lambda>e. e) (\<lambda>_ ks. ks) (demo_conjur True demo_conjur_vals) [''db/user'', ''db/pw''] \<lparr>useV2 = True\<rparr> 0
       = (Inr m, \<lparr>useV2 = True\<rparr>, 1)
     \<and> retrieveConjurSecrets_ids (\<lambda>e. e) (\<lambda>_ ks. ks) (demo_conjur False demo_conjur_vals) [''db/user'', ''db/pw''] \<lparr>useV2 = True\<rparr> 0
       = (Inr m', \<lparr>useV2 = False\<rparr>, 2)
     \<and> map_of m ''db/pw'' = Some ''s3cret'' \<and> map_of m' = map_of m"
proof -
  let ?ids = "[''db/user'', ''db/pw'']" and ?full = "map (\<lambda>(i, v). (''acct:variable:'' @ i, v)) demo_conjur_vals"
  have norm: "normaliseVariableId ''db/user'' = ''db/user''" "normaliseVariableId ''db/pw'' = ''db/pw''" by code_simp+
  have v2: "ca_hasV2 (demo_conjur True demo_conjur_vals) 0"
    "ca_BatchRetrieveSecrets (demo_conjur True demo_conjur_vals) (map normaliseVariableId ?ids) 0
       = (Inr (v2_response 404 (map_of demo_conjur_vals) (map normaliseVariableId ?ids)), 1)"
    "v2_answer (map_of demo_conjur_vals) (map normaliseVariableId ?ids) (v2_response 404 (map_of demo_conjur_vals) (map normaliseVariableId ?ids))"
    by (simp_all add: demo_conjur_def v2_response_answers)
  have some: "\<exists>i\<in>set ?ids. map_of demo_conjur_vals (normaliseVariableId i) \<noteq> None"
    and all: "\<forall>i\<in>set ?ids. map_of demo_conjur_vals (normaliseVariableId i) \<noteq> None"
    by (simp_all add: norm demo_conjur_vals_def)
  have old: "retrieveBatchSecretsV2 (demo_conjur False demo_conjur_vals) ?ids 0 = (Inl ''404 Not Found'', 1)"
    "ca_RetrieveBatchSecretsSafe (demo_conjur False demo_conjur_vals) ?ids 1 = (Inr ?full, 2)"
    by (simp_all add: retrieveBatchSecretsV2_def demo_conjur_def Let_def)
  have e: "Contains ''404 Not Found'' ''404'' \<or> Contains ''404 Not Found'' ''not supported in''" by code_simp
  have full: "v1_answer ''acct'' (map_of demo_conjur_vals) ?ids ?full"
    by (simp add: v1_answer_def norm demo_conjur_vals_def gwf_def)
  obtain m where m: "retrieveConjurSecrets_ids (\<lambda>e. e) (\<lambda>_ ks. ks) (demo_conjur True demo_conjur_vals) ?ids \<lparr>useV2 = True\<rparr> 0
       = (Inr m, \<lparr>useV2 = True\<rparr>, 1)"
    and vals: "\<forall>k. map_of m k = (if k \<in> normaliseVariableId ` set ?ids then map_of demo_conjur_vals k else None)"
    and v1: "(\<forall>i\<in>set ?ids. map_of demo_conjur_vals (normaliseVariableId i) \<noteq> None) \<longrightarrow>
           (\<exists>m'. retrieveConjurSecrets_ids (\<lambda>e. e) (\<lambda>_ ks. ks) (demo_conjur False demo_conjur_vals) ?ids \<lparr>useV2 = True\<rparr> 0
              = (Inr m', \<lparr>useV2 = False\<rparr>, 2) \<and> map_of m' = map_of m)"
    using fetched_values_follow_server [OF range_order_id v2 some old(1) e old(2) full] by blast
  have pw: "map_of m ''db/pw'' = Some ''s3cret''"
    using spec [OF vals, of "''db/pw''"] by (simp add: norm demo_conjur_vals_def)
  from mp [OF v1 all] m pw show ?thesis by blast
qed

theorem fetch_all_is_bounded_witness:
  "\<exists>n\<le>5. fetch_pages (demo_conjur True demo_conjur_vals) fetchAllMaxSecrets 0 [] 0
     = (Ret (Inr [''db/user'', ''db/pw'']), (Suc ^^ n) 0)"
proof -
  have "\<exists>n\<le>5. fetch_pages (demo_conjur True demo_conjur_vals) fetchAllMaxSecrets 0 [] 0
     = (Ret (Inr (take 500 (map fst demo_conjur_vals))), (Suc ^^ n) 0)"
    by (rule fetch_all_is_bounded) (simp add: demo_conjur_def)
  then show ?thesis by (simp add: demo_conjur_vals_def)
qed

end
