(* ===== verification/Conjur_Authenticator.thy ===== *)
theory Conjur_Authenticator
  imports Conjur_Client Go_Path
begin

text \<open>
  Package conjur (conjur\_authenticator.go): choosing an authenticator from the authentication URL
  and getting an access token. The Conjur API library, the authentication client and the parser of
  URLs are parameters; the token buffer of the authentication client is part of the world it acts
  on.
\<close>

text \<open>The configuration handed to the API library; the credential storage is always none.\<close>

record conjurapi_Config =
  ApplianceURL :: string
  Account :: string
  JWTHostID :: string
  SSLCert :: string
  AuthnType :: string
  ServiceID :: string

text \<open>
  The libraries: clients for each kind of credentials with their authentication call, and the
  Kubernetes authentication client with its in-memory token.
\<close>

datatype credentials = AWSCredentials | AzureCredentials | GCPCredentials | OtherCredentials

record ('cfg, 'w) authn_api =
  aa_NewClient :: "credentials \<Rightarrow> conjurapi_Config \<Rightarrow> 'w \<Rightarrow> gerror option"
  aa_InternalAuthenticate :: "credentials \<Rightarrow> conjurapi_Config \<Rightarrow> 'w \<Rightarrow> (gerror + string) \<times> 'w"
  aa_NewConfigFromCustomEnv :: "(string \<Rightarrow> string) \<Rightarrow> 'w \<Rightarrow> gerror + 'cfg"
  aa_NewAccessToken :: "'w \<Rightarrow> gerror option \<times> 'w"
  aa_NewAuthenticatorWithAccessToken :: "'cfg \<Rightarrow> 'w \<Rightarrow> gerror option \<times> 'w"
  aa_AuthenticateWithContext :: "'cfg \<Rightarrow> 'w \<Rightarrow> gerror option \<times> 'w"
  aa_ReadToken :: "'w \<Rightarrow> gerror + string"
  aa_OverwriteToken :: "string \<Rightarrow> 'w \<Rightarrow> 'w"
  aa_DeleteToken :: "'w \<Rightarrow> 'w"

definition CSPFK001E :: string where "CSPFK001E = ''CSPFK001E Failed to create access token object''"
definition CSPFK002E :: string where "CSPFK002E = ''CSPFK002E Failed to retrieve access token''"
definition CSPFK008E :: string where "CSPFK008E = ''CSPFK008E Failed to instantiate authenticator configuration''"
definition CSPFK009E :: string where "CSPFK009E = ''CSPFK009E Failed to instantiate authenticator object''"
definition CSPFK069E :: "string \<Rightarrow> string" where
  "CSPFK069E e = ''CSPFK069E Invalid URL format: '' @ e"

definition newConjurClientFromConfig :: "conjurapi_Config \<Rightarrow> credentials" where
  "newConjurClientFromConfig cfg =
     (if AuthnType cfg = ''iam'' then AWSCredentials
      else if AuthnType cfg = ''azure'' then AzureCredentials
      else if AuthnType cfg = ''gcp'' then GCPCredentials
      else OtherCredentials)"

definition parseServiceID :: "(string \<Rightarrow> gerror + string) \<Rightarrow> string \<Rightarrow> string \<Rightarrow> gerror + string" where
  "parseServiceID url_path authnURL authnType =
     (case url_path authnURL of
        Inl err \<Rightarrow> Inl (CSPFK069E err)
      | Inr path \<Rightarrow>
          (let pathParts = filter (\<lambda>s. s \<noteq> []) (Split path CHR ''/'') in
           if length pathParts < 2 \<or> pathParts ! (length pathParts - 2) \<noteq> ''authn-'' @ authnType
           then Inl (CSPFK069E (''expected path to end with /authn-'' @ authnType @ ''/<service_id>''))
           else Inr (pathParts ! (length pathParts - 1))))"

text \<open>The client for cloud credentials is configured from the environment alone.\<close>

definition createConjurClientForAuthenticator ::
  "('cfg, 'w) authn_api \<Rightarrow> (string \<Rightarrow> gerror + string) \<Rightarrow> (string \<Rightarrow> string) \<Rightarrow> string \<Rightarrow> string \<Rightarrow> 'w
     \<Rightarrow> gerror + conjurapi_Config" where
  "createConjurClientForAuthenticator api url_path getenv authnURL authnType w =
     (let cfg = \<lparr>ApplianceURL = getenv ''CONJUR_APPLIANCE_URL'', Account = getenv ''CONJUR_ACCOUNT'',
                 JWTHostID = getenv ''CONJUR_AUTHN_LOGIN'', SSLCert = getenv ''CONJUR_SSL_CERTIFICATE'',
                 AuthnType = authnType, ServiceID = []\<rparr>;
          new = (\<lambda>cfg. case aa_NewClient api (newConjurClientFromConfig cfg) cfg w of
                   Some err \<Rightarrow> Inl (CSPFK033E @ '': '' @ err) | None \<Rightarrow> Inr cfg)
      in if authnType = ''iam'' \<or> authnType = ''azure'' then
           (case parseServiceID url_path authnURL authnType of
              Inl err \<Rightarrow> Inl err
            | Inr serviceID \<Rightarrow> new (cfg\<lparr>ServiceID := serviceID\<rparr>))
         else new cfg)"

definition readToken :: "('cfg, 'w) authn_api \<Rightarrow> conjurapi_Config \<Rightarrow> 'w \<Rightarrow> (gerror + string) \<times> 'w" where
  "readToken api client w =
     (case aa_InternalAuthenticate api (newConjurClientFromConfig client) client w of
        (Inl err, w1) \<Rightarrow> (Inl (CSPFK010E @ '': '' @ err), w1)
      | (Inr token, w1) \<Rightarrow> (Inr token, w1))"

text \<open>The authenticators; those for Kubernetes and JWT work alike.\<close>

datatype 'cfg ConjurAuthenticator =
    K8sAuthenticator 'cfg
  | JwtAuthenticator 'cfg
  | IamAuthenticator string
  | AzureAuthenticator string
  | GcpAuthenticator string

definition NewAuthenticator ::
  "('cfg, 'w) authn_api \<Rightarrow> (string \<Rightarrow> string) \<Rightarrow> 'w \<Rightarrow> gerror + 'cfg ConjurAuthenticator" where
  "NewAuthenticator api customEnv w =
     (let authnURL = customEnv ''CONJUR_AUTHN_URL'' in
      if Contains authnURL ''authn-k8s'' \<or> Contains authnURL ''authn-jwt'' then
        (case aa_NewConfigFromCustomEnv api customEnv w of
           Inl err \<Rightarrow> Inl (CSPFK008E @ '': '' @ err)
         | Inr authnConfig \<Rightarrow>
             if Contains authnURL ''authn-k8s'' then Inr (K8sAuthenticator authnConfig)
             else Inr (JwtAuthenticator authnConfig))
      else if Contains authnURL ''authn-iam'' then Inr (IamAuthenticator authnURL)
      else if Contains authnURL ''authn-azure'' then Inr (AzureAuthenticator authnURL)
      else if Contains authnURL ''authn-gcp'' then Inr (GcpAuthenticator authnURL)
      else Inl (''unsupported authenticator in CONJUR_AUTHN_URL: '' @ authnURL))"

text \<open>The token is copied, then its buffer is overwritten and deleted.\<close>

definition token_from_client :: "('cfg, 'w) authn_api \<Rightarrow> 'cfg \<Rightarrow> 'w \<Rightarrow> (gerror + string) \<times> 'w" where
  "token_from_client api cfg w =
     (case aa_NewAccessToken api w of
        (Some _, w1) \<Rightarrow> (Inl CSPFK001E, w1)
      | (None, w1) \<Rightarrow>
        (case aa_NewAuthenticatorWithAccessToken api cfg w1 of
           (Some _, w2) \<Rightarrow> (Inl CSPFK009E, w2)
         | (None, w2) \<Rightarrow>
           (case aa_AuthenticateWithContext api cfg w2 of
              (Some _, w3) \<Rightarrow> (Inl CSPFK010E, w3)
            | (None, w3) \<Rightarrow>
              (case aa_ReadToken api w3 of
                 Inl _ \<Rightarrow> (Inl CSPFK002E, w3)
               | Inr tokenData \<Rightarrow>
                   (Inr tokenData, aa_DeleteToken api (aa_OverwriteToken api (map (\<lambda>_. CHR 0x00) tokenData) w3))))))"

definition token_from_cloud ::
  "('cfg, 'w) authn_api \<Rightarrow> (string \<Rightarrow> gerror + string) \<Rightarrow> (string \<Rightarrow> string) \<Rightarrow> string \<Rightarrow> string \<Rightarrow> 'w \<Rightarrow> (gerror + string) \<times> 'w" where
  "token_from_cloud api url_path getenv authnURL authnType w =
     (case createConjurClientForAuthenticator api url_path getenv authnURL authnType w of
        Inl err \<Rightarrow> (Inl err, w)
      | Inr client \<Rightarrow> readToken api client w)"

fun GetAccessToken ::
  "('cfg, 'w) authn_api \<Rightarrow> (string \<Rightarrow> gerror + string) \<Rightarrow> (string \<Rightarrow> string) \<Rightarrow> 'cfg ConjurAuthenticator \<Rightarrow> 'w
     \<Rightarrow> (gerror + string) \<times> 'w" where
  "GetAccessToken api url_path getenv (K8sAuthenticator cfg) w = token_from_client api cfg w"
| "GetAccessToken api url_path getenv (JwtAuthenticator cfg) w = token_from_client api cfg w"
| "GetAccessToken api url_path getenv (IamAuthenticator authnURL) w = token_from_cloud api url_path getenv authnURL ''iam'' w"
| "GetAccessToken api url_path getenv (AzureAuthenticator authnURL) w = token_from_cloud api url_path getenv authnURL ''azure'' w"
| "GetAccessToken api url_path getenv (GcpAuthenticator authnURL) w = token_from_cloud api url_path getenv authnURL ''gcp'' w"

section \<open>Properties\<close>

lemma last_two:
  assumes "2 \<le> length ps"
  shows "\<exists>pre. ps = pre @ [ps ! (length ps - 2), ps ! (length ps - 1)]"
proof -
  have "Suc (length ps - 2) = length ps - 1" "Suc (length ps - 1) = length ps" using assms by simp_all
  then have "drop (length ps - 2) ps = [ps ! (length ps - 2), ps ! (length ps - 1)]"
    using assms Cons_nth_drop_Suc [of "length ps - 2" ps] Cons_nth_drop_Suc [of "length ps - 1" ps] by simp
  then show ?thesis by (metis append_take_drop_id)
qed

text \<open>Exactly the paths whose last two segments are the authenticator's and one more are accepted.\<close>

lemma parseServiceID_iff:
  "parseServiceID url_path u t = Inr i \<longleftrightarrow>
     (\<exists>path pre. url_path u = Inr path \<and> filter (\<lambda>s. s \<noteq> []) (Split path CHR ''/'') = pre @ [''authn-'' @ t, i])"
proof
  assume ok: "parseServiceID url_path u t = Inr i"
  then obtain path where path: "url_path u = Inr path" by (auto simp: parseServiceID_def split: sum.splits)
  define ps where "ps = filter (\<lambda>s. s \<noteq> []) (Split path CHR ''/'')"
  have "i = ps ! (length ps - 1)" "2 \<le> length ps" "ps ! (length ps - 2) = ''authn-'' @ t"
    using ok path by (auto simp: parseServiceID_def ps_def [symmetric] Let_def split: if_splits)
  then show "\<exists>path pre. url_path u = Inr path \<and> filter (\<lambda>s. s \<noteq> []) (Split path CHR ''/'') = pre @ [''authn-'' @ t, i]"
    using last_two [of ps] path unfolding ps_def by metis
next
  assume "\<exists>path pre. url_path u = Inr path \<and> filter (\<lambda>s. s \<noteq> []) (Split path CHR ''/'') = pre @ [''authn-'' @ t, i]"
  then show "parseServiceID url_path u t = Inr i"
    by (auto simp: parseServiceID_def Let_def nth_append)
qed

text \<open>
  (C30) The service identifier of a cloud authenticator: a URL path that ends in the authenticator's
  segment and one more segment, with or without a trailing slash, gives that last segment; and
  a URL is accepted exactly if the last two non-empty segments of its path are the
  authenticator's and the identifier, which is not empty and has no slash.
\<close>

theorem service_id_of_url:
  assumes "url_path u = Inr (base @ ''/authn-'' @ t @ ''/'' @ sid @ trail)" and "trail = [] \<or> trail = ''/''"
    and "CHR ''/'' \<notin> set t" and "CHR ''/'' \<notin> set sid" and "sid \<noteq> []"
  shows "parseServiceID url_path u t = Inr sid
     \<and> (\<forall>v t' i. parseServiceID url_path v t' = Inr i \<longleftrightarrow>
          (\<exists>path pre. url_path v = Inr path \<and> filter (\<lambda>s. s \<noteq> []) (Split path CHR ''/'') = pre @ [''authn-'' @ t', i]))
     \<and> (\<forall>v t' i. parseServiceID url_path v t' = Inr i \<longrightarrow> i \<noteq> [] \<and> CHR ''/'' \<notin> set i)"
proof (intro conjI allI)
  let ?path = "base @ ''/authn-'' @ t @ ''/'' @ sid @ trail"
  have split: "Split ?path CHR ''/'' = Split base CHR ''/'' @ (''authn-'' @ t) # sid # (if trail = [] then [] else [[]])"
    using Split_append [of base "''authn-'' @ t @ ''/'' @ sid @ trail"]
      Split_append [of "''authn-'' @ t" "sid @ trail"] Split_append [of sid "[]"] assms(2,3,4)
    by (auto simp: Split_self)
  then have "filter (\<lambda>s. s \<noteq> []) (Split ?path CHR ''/'')
      = filter (\<lambda>s. s \<noteq> []) (Split base CHR ''/'') @ [''authn-'' @ t, sid]"
    using assms(5) by simp
  then show "parseServiceID url_path u t = Inr sid" unfolding parseServiceID_iff using assms(1) by blast
next
  fix v t' i
  show "parseServiceID url_path v t' = Inr i \<longrightarrow> i \<noteq> [] \<and> CHR ''/'' \<notin> set i"
  proof
    assume "parseServiceID url_path v t' = Inr i"
    then obtain path pre where "filter (\<lambda>s. s \<noteq> []) (Split path CHR ''/'') = pre @ [''authn-'' @ t', i]"
      unfolding parseServiceID_iff by blast
    then have "i \<in> set (filter (\<lambda>s. s \<noteq> []) (Split path CHR ''/''))" by simp
    then show "i \<noteq> [] \<and> CHR ''/'' \<notin> set i" using Split_no_sep by fastforce
  qed
qed (rule parseServiceID_iff)

theorem service_id_of_url_witness:
  "parseServiceID (\<lambda>u. Inr (drop 14 u)) ''https://conjur/authn-iam/prod'' ''iam'' = Inr ''prod''"
proof -
  have p: "drop 14 ''https://conjur/authn-iam/prod'' = [] @ ''/authn-'' @ ''iam'' @ ''/'' @ ''prod'' @ []" by simp
  show ?thesis
    using service_id_of_url [of "\<lambda>u. Inr (drop 14 u)" "''https://conjur/authn-iam/prod''" "[]" "''iam''" "''prod''" "[]"] p
    by simp
qed

end
