(* ===== verification/Go_Quote.thy ===== *)
theory Go_Quote
  imports Go_Conv
begin

text \<open>
  Quoted strings, Go's strconv.Unquote (the shortcut for strings without escapes, which gives the
  same result, is left out), and the quoted form in which Kubernetes writes the annotations of a
  pod to a file, for ASCII text.
\<close>

section \<open>Unquoting\<close>

definition unhex :: "char \<Rightarrow> nat option" where
  "unhex c =
     (let n = of_char c in
      if 48 \<le> n \<and> n \<le> 57 then Some (n - 48)
      else if 97 \<le> n \<and> n \<le> 102 then Some (n - 87)
      else if 65 \<le> n \<and> n \<le> 70 then Some (n - 55)
      else None)"

fun hex_value :: "nat \<Rightarrow> string \<Rightarrow> nat option" where
  "hex_value v [] = Some v"
| "hex_value v (c # cs) = (case unhex c of None \<Rightarrow> None | Some x \<Rightarrow> hex_value (v * 16 + x) cs)"

definition ValidRune :: "nat \<Rightarrow> bool" where
  "ValidRune r \<longleftrightarrow> r < 0xD800 \<or> 0xDFFF < r \<and> r \<le> 0x10FFFF"

definition EncodeRune :: "nat \<Rightarrow> string" where
  "EncodeRune r =
     (if r < 0x80 then [char_of r]
      else if r < 0x800 then map char_of [0xC0 + r div 64, 0x80 + r mod 64]
      else if \<not> ValidRune r then map char_of [0xEF, 0xBF, 0xBD :: nat]
      else if r < 0x10000 then map char_of [0xE0 + r div 4096, 0x80 + r div 64 mod 64, 0x80 + r mod 64]
      else map char_of [0xF0 + r div 262144, 0x80 + r div 4096 mod 64, 0x80 + r div 64 mod 64, 0x80 + r mod 64])"

definition simple_escape :: "char \<Rightarrow> nat option" where
  "simple_escape c =
     (case c of
        CHR ''a'' \<Rightarrow> Some 7 | CHR ''b'' \<Rightarrow> Some 8 | CHR ''f'' \<Rightarrow> Some 12 | CHR ''n'' \<Rightarrow> Some 10
      | CHR ''r'' \<Rightarrow> Some 13 | CHR ''t'' \<Rightarrow> Some 9 | CHR ''v'' \<Rightarrow> Some 11 | _ \<Rightarrow> None)"

text \<open>The first character: its value, whether it stands for a rune or for a byte, and the rest.\<close>

definition unquote_escape :: "char \<Rightarrow> string \<Rightarrow> char \<Rightarrow> ((nat \<times> bool) \<times> string) option" where
  "unquote_escape c s quote =
     (case simple_escape c of
        Some v \<Rightarrow> Some ((v, False), s)
      | None \<Rightarrow>
        if c = CHR ''x'' \<or> c = CHR ''u'' \<or> c = CHR ''U'' then
          (let n = (if c = CHR ''x'' then 2 else if c = CHR ''u'' then 4 else 8) in
           if length s < n then None
           else case hex_value 0 (take n s) of
             None \<Rightarrow> None
           | Some v \<Rightarrow>
               if c = CHR ''x'' then Some ((v, False), drop n s)
               else if \<not> ValidRune v then None
               else Some ((v, True), drop n s))
        else if 48 \<le> (of_char c :: nat) \<and> (of_char c :: nat) \<le> 55 then
          (case s of
             d # e # rest \<Rightarrow>
               if 48 \<le> (of_char d :: nat) \<and> (of_char d :: nat) \<le> 55 \<and> 48 \<le> (of_char e :: nat) \<and> (of_char e :: nat) \<le> 55 then
                 (let v = (of_char c - 48) * 64 + (of_char d - 48) * 8 + (of_char e - 48)
                  in if v > 255 then None else Some ((v, False), rest))
               else None
           | _ \<Rightarrow> None)
        else if c = CHR 0x5C then Some ((0x5C, False), s)
        else if c = CHR 0x27 \<or> c = CHR 0x22 then
          (if c \<noteq> quote then None else Some ((of_char c, False), s))
        else None)"

definition UnquoteChar :: "string \<Rightarrow> char \<Rightarrow> ((nat \<times> bool) \<times> string) option" where
  "UnquoteChar s quote =
     (case s of
        [] \<Rightarrow> None
      | c # s1 \<Rightarrow>
          if c = quote \<and> (quote = CHR 0x27 \<or> quote = CHR 0x22) then None
          else if 0x80 \<le> (of_char c :: nat) then
            (case DecodeRune s of (r, width) \<Rightarrow> Some ((r, True), drop width s))
          else if c \<noteq> CHR 0x5C then Some ((of_char c, False), s1)
          else (case s1 of [] \<Rightarrow> None | c1 # s2 \<Rightarrow> unquote_escape c1 s2 quote))"

lemma unquote_escape_shorter: "unquote_escape c s q = Some (x, rest) \<Longrightarrow> length rest \<le> length s"
  by (auto simp: unquote_escape_def Let_def split: option.splits if_splits list.splits)

lemma UnquoteChar_shorter: "UnquoteChar s q = Some (x, rest) \<Longrightarrow> length rest < length s"
  using DecodeRune_width [of s]
  by (auto simp: UnquoteChar_def split: list.splits if_splits prod.splits dest!: unquote_escape_shorter)

definition rune_bytes :: "nat \<times> bool \<Rightarrow> string" where
  "rune_bytes x = (case x of (r, multibyte) \<Rightarrow> if r < 0x80 \<or> \<not> multibyte then [char_of (r mod 256)] else EncodeRune r)"

function unquote_body :: "char \<Rightarrow> string \<Rightarrow> string \<Rightarrow> (string \<times> string) option" where
  "unquote_body quote s buf =
     (if s = [] \<or> hd s = quote then Some (buf, s)
      else if hd s = CHR 0x0A then None
      else case UnquoteChar s quote of
        None \<Rightarrow> None
      | Some (x, rest) \<Rightarrow>
          if quote = CHR 0x27 then Some (buf @ rune_bytes x, rest)
          else unquote_body quote rest (buf @ rune_bytes x))"
  by pat_completeness auto
termination
  by (relation "measure (\<lambda>(q, s, b). length s)") (auto dest: UnquoteChar_shorter)

declare unquote_body.simps [simp del]

definition Unquote :: "string \<Rightarrow> string option" where
  "Unquote s =
     (case s of
        [] \<Rightarrow> None
      | quote # s1 \<Rightarrow>
          if quote \<notin> set s1 then None
          else if quote = CHR 0x60 then
            (if tl (dropWhile (\<lambda>c. c \<noteq> quote) s1) \<noteq> [] then None
             else Some (filter (\<lambda>c. c \<noteq> CHR 0x0D) (takeWhile (\<lambda>c. c \<noteq> quote) s1)))
          else if quote = CHR 0x22 \<or> quote = CHR 0x27 then
            (case unquote_body quote s1 [] of
               Some (buf, [q]) \<Rightarrow> if q = quote then Some buf else None
             | _ \<Rightarrow> None)
          else None)"

section \<open>Quoting ASCII text\<close>

definition hex_digit :: "nat \<Rightarrow> char" where
  "hex_digit d = char_of (if d < 10 then 48 + d else 87 + d)"

definition quote_char :: "char \<Rightarrow> string" where
  "quote_char c =
     (let n = of_char c in
      if c = CHR 0x22 \<or> c = CHR 0x5C then [CHR 0x5C, c]
      else if 32 \<le> n \<and> n \<le> 126 then [c]
      else if n = 7 then [CHR 0x5C, CHR ''a'']
      else if n = 8 then [CHR 0x5C, CHR ''b'']
      else if n = 12 then [CHR 0x5C, CHR ''f'']
      else if n = 10 then [CHR 0x5C, CHR ''n'']
      else if n = 13 then [CHR 0x5C, CHR ''r'']
      else if n = 9 then [CHR 0x5C, CHR ''t'']
      else if n = 11 then [CHR 0x5C, CHR ''v'']
      else [CHR 0x5C, CHR ''x'', hex_digit (n div 16), hex_digit (n mod 16)])"

definition Quote :: "string \<Rightarrow> string" where
  "Quote s = CHR 0x22 # concat (map quote_char s) @ [CHR 0x22]"

lemma unhex_digit: "d < 16 \<Longrightarrow> unhex (hex_digit d) = Some d"
  by (auto simp: unhex_def hex_digit_def Let_def)

lemma unquote_quote_char:
  assumes "of_char c < (0x80 :: nat)"
  shows "UnquoteChar (quote_char c @ rest) CHR 0x22 = Some ((of_char c, False), rest)"
proof -
  define n where "n = (of_char c :: nat)"
  have c: "c = char_of n" by (simp add: n_def)
  have n: "n < 128" using assms by (simp add: n_def)
  consider "c = CHR 0x22 \<or> c = CHR 0x5C" | "c \<noteq> CHR 0x22" "c \<noteq> CHR 0x5C" "32 \<le> n" "n \<le> 126"
    | "n \<in> {7, 8, 9, 10, 11, 12, 13}" | "c \<noteq> CHR 0x22" "c \<noteq> CHR 0x5C" "n \<notin> {7, 8, 9, 10, 11, 12, 13}" "n < 32 \<or> n = 127"
    using n by fastforce
  then show ?thesis
  proof cases
    case 1
    then show ?thesis by (auto simp: quote_char_def UnquoteChar_def unquote_escape_def simple_escape_def)
  next
    case 2
    then show ?thesis using assms by (simp add: quote_char_def UnquoteChar_def n_def)
  next
    case 3
    then have "c \<noteq> CHR 0x22" "c \<noteq> CHR 0x5C" by (auto simp: n_def)
    with 3 show ?thesis by (auto simp: n_def quote_char_def UnquoteChar_def unquote_escape_def simple_escape_def)
  next
    case 4
    have "n div 16 < 16" "n mod 16 < 16" "n div 16 * 16 + n mod 16 = n" using n by simp_all
    then have h: "hex_value 0 [hex_digit (n div 16), hex_digit (n mod 16)] = Some n" by (simp add: unhex_digit)
    have "quote_char c = [CHR 0x5C, CHR ''x'', hex_digit (n div 16), hex_digit (n mod 16)]"
      using 4 by (auto simp: quote_char_def n_def [symmetric] Let_def)
    then show ?thesis
      using h by (simp add: UnquoteChar_def unquote_escape_def simple_escape_def n_def numeral_2_eq_2 del: hex_value.simps)
  qed
qed

lemma quote_char_head: "quote_char c = d # r \<Longrightarrow> d \<noteq> CHR 0x22 \<and> d \<noteq> CHR 0x0A"
  by (auto simp: quote_char_def Let_def split: if_splits)

lemma quote_char_nonempty: "quote_char c \<noteq> []"
  by (simp add: quote_char_def Let_def)

lemma unquote_body_quoted:
  assumes "\<forall>c\<in>set s. of_char c < (0x80 :: nat)"
  shows "unquote_body CHR 0x22 (concat (map quote_char s) @ [CHR 0x22]) buf = Some (buf @ s, [CHR 0x22])"
  using assms
proof (induction s arbitrary: buf)
  case Nil
  show ?case by (subst unquote_body.simps) simp
next
  case (Cons c s)
  let ?rest = "concat (map quote_char s) @ [CHR 0x22]"
  obtain d r where d: "quote_char c = d # r" using quote_char_nonempty by (meson neq_Nil_conv)
  have head: "d \<noteq> CHR 0x22" "d \<noteq> CHR 0x0A" using quote_char_head [OF d] by auto
  have u: "UnquoteChar (quote_char c @ ?rest) CHR 0x22 = Some ((of_char c, False), ?rest)"
    using unquote_quote_char [of c ?rest] Cons.prems by simp
  have "unquote_body CHR 0x22 (quote_char c @ ?rest) buf = unquote_body CHR 0x22 ?rest (buf @ rune_bytes (of_char c, False))"
    by (subst unquote_body.simps) (use u d head in simp)
  also have "\<dots> = Some ((buf @ rune_bytes (of_char c, False)) @ s, [CHR 0x22])"
    by (rule Cons.IH) (use Cons.prems in simp)
  finally show ?case by (simp add: rune_bytes_def)
qed

text \<open>What is quoted is read back.\<close>

lemma Unquote_Quote: "\<forall>c\<in>set s. of_char c < (0x80 :: nat) \<Longrightarrow> Unquote (Quote s) = Some s"
  by (simp add: Unquote_def Quote_def unquote_body_quoted)

lemma Quote_one_line: "\<forall>c\<in>set s. of_char c < (0x80 :: nat) \<Longrightarrow> CHR 0x0A \<notin> set (Quote s) \<and> last (Quote s) = CHR 0x22"
proof -
  assume ascii: "\<forall>c\<in>set s. of_char c < (0x80 :: nat)"
  have digit: "hex_digit d \<noteq> CHR 0x0A" if "d < 16" for d
  proof
    assume "hex_digit d = CHR 0x0A"
    with unhex_digit [OF that] show False by (simp add: unhex_def)
  qed
  have "CHR 0x0A \<notin> set (quote_char c)" if c: "of_char c < (0x80 :: nat)" for c
  proof -
    have "(of_char c :: nat) div 16 < 16" "(of_char c :: nat) mod 16 < 16" using c by simp_all
    then have "hex_digit (of_char c div 16) \<noteq> CHR 0x0A" "hex_digit (of_char c mod 16) \<noteq> CHR 0x0A"
      using digit by blast+
    then show ?thesis by (auto simp: quote_char_def Let_def dest: sym)
  qed
  with ascii show ?thesis by (auto simp: Quote_def)
qed

end
