(* ===== verification/Annotations.thy ===== *)
theory Annotations
  imports Go_Quote Go_Text File_System
begin

text \<open>
  Package annotations (annotation\_parser.go): reading the file in which Kubernetes stores the
  annotations of the pod, one line per annotation. The lines come from Go's bufio.Scanner, which
  stops silently at a line that does not fit its buffer of 64 KiB; the program does not ask the
  scanner for its error.
\<close>

section \<open>annotation\_parser.go\<close>

text \<open>The lines of the scanner: without line ends, a final carriage return removed.\<close>

definition MaxScanTokenSize :: nat where "MaxScanTokenSize = 65536"

definition drop_cr :: "string \<Rightarrow> string" where
  "drop_cr l = (if l \<noteq> [] \<and> last l = CHR 0x0D then butlast l else l)"

function scan_lines :: "string \<Rightarrow> string list" where
  "scan_lines s =
     (if s = [] then []
      else let line = takeWhile (\<lambda>c. c \<noteq> CHR 0x0A) s
           in if length line \<ge> MaxScanTokenSize then []
              else drop_cr line # scan_lines (tl (dropWhile (\<lambda>c. c \<noteq> CHR 0x0A) s)))"
  by pat_completeness auto
termination
proof (relation "measure length")
  fix s :: string and line
  assume "s \<noteq> []"
  then show "(tl (dropWhile (\<lambda>c. c \<noteq> CHR 0x0A) s), s) \<in> measure length"
    using length_dropWhile_le [of "\<lambda>c. c \<noteq> CHR 0x0A" s] by (cases s) (auto simp: less_Suc_eq_le intro: le_trans)
qed simp

declare scan_lines.simps [simp del]

text \<open>Errors: the number of an ill-formed line, or the file cannot be opened.\<close>

datatype annotations_error = CSPFK045E nat | AnnotationsOpen os_error | CSPFK041E string annotations_error

fun parse_lines :: "nat \<Rightarrow> string list \<Rightarrow> (string, string) gomap \<Rightarrow> annotations_error + (string, string) gomap" where
  "parse_lines lineNumber [] annotationsMap = Inr annotationsMap"
| "parse_lines lineNumber (line # rest) annotationsMap =
     (case SplitN line CHR ''='' 2 of
        [key, quoted] \<Rightarrow>
          (case Unquote quoted of
             None \<Rightarrow> Inl (CSPFK045E (lineNumber + 1))
           | Some value \<Rightarrow> parse_lines (lineNumber + 1) rest (gput key value annotationsMap))
      | _ \<Rightarrow> Inl (CSPFK045E (lineNumber + 1)))"

definition newAnnotationsFromReader :: "string \<Rightarrow> annotations_error + (string, string) gomap" where
  "newAnnotationsFromReader content = parse_lines 0 (scan_lines content) []"

definition newAnnotationsFromFile :: "fsys \<Rightarrow> string \<Rightarrow> annotations_error + (string, string) gomap" where
  "newAnnotationsFromFile fs path =
     (case os_open path fs of
        (Inl err, _) \<Rightarrow> Inl (AnnotationsOpen err)
      | (Inr annotationsFile, _) \<Rightarrow>
          newAnnotationsFromReader (case file_at fs annotationsFile of None \<Rightarrow> [] | Some (content, _) \<Rightarrow> content))"

definition NewAnnotationsFromFile :: "fsys \<Rightarrow> string \<Rightarrow> annotations_error + (string, string) gomap" where
  "NewAnnotationsFromFile fs path =
     (case newAnnotationsFromFile fs path of Inl err \<Rightarrow> Inl (CSPFK041E path err) | Inr res \<Rightarrow> Inr res)"

section \<open>Lemmas\<close>

lemma scan_lines_Nil [simp]: "scan_lines [] = []"
  by (subst scan_lines.simps) simp

lemma scan_lines_Cons:
  assumes "CHR 0x0A \<notin> set l"
  shows "scan_lines (l @ CHR 0x0A # rest) =
     (if length l \<ge> MaxScanTokenSize then [] else drop_cr l # scan_lines rest)"
proof -
  have "takeWhile (\<lambda>c. c \<noteq> CHR 0x0A) (l @ CHR 0x0A # rest) = l"
    "dropWhile (\<lambda>c. c \<noteq> CHR 0x0A) (l @ CHR 0x0A # rest) = CHR 0x0A # rest"
    using assms by (auto simp: takeWhile_append dropWhile_append)
  then show ?thesis by (subst scan_lines.simps) (simp add: Let_def)
qed

text \<open>The line that Kubernetes writes for an annotation.\<close>

definition annotation_line :: "string \<times> string \<Rightarrow> string" where
  "annotation_line kv = fst kv @ CHR ''='' # Quote (snd kv)"

definition annotations_file :: "(string \<times> string) list \<Rightarrow> string" where
  "annotations_file kvs = concat (map (\<lambda>kv. annotation_line kv @ [CHR 0x0A]) kvs)"

definition plain_annotation :: "string \<times> string \<Rightarrow> bool" where
  "plain_annotation kv \<longleftrightarrow> CHR ''='' \<notin> set (fst kv) \<and> CHR 0x0A \<notin> set (fst kv)
     \<and> (\<forall>c\<in>set (snd kv). of_char c < (0x80 :: nat))"

lemma SplitN_2: "c \<notin> set k \<Longrightarrow> SplitN (k @ c # v) c 2 = [k, v]"
  by (simp add: numeral_2_eq_2 takeWhile_append dropWhile_append)

lemma plain_line:
  assumes "plain_annotation kv"
  shows "CHR 0x0A \<notin> set (annotation_line kv)" and "drop_cr (annotation_line kv) = annotation_line kv"
    and "SplitN (annotation_line kv) CHR ''='' 2 = [fst kv, Quote (snd kv)]" and "Unquote (Quote (snd kv)) = Some (snd kv)"
proof -
  have q: "CHR 0x0A \<notin> set (Quote (snd kv))" "last (Quote (snd kv)) = CHR 0x22" "Quote (snd kv) \<noteq> []"
    using Quote_one_line [of "snd kv"] assms by (auto simp: plain_annotation_def Quote_def)
  then show "CHR 0x0A \<notin> set (annotation_line kv)" and "drop_cr (annotation_line kv) = annotation_line kv"
    using assms by (auto simp: annotation_line_def drop_cr_def plain_annotation_def)
  show "SplitN (annotation_line kv) CHR ''='' 2 = [fst kv, Quote (snd kv)]"
    unfolding annotation_line_def by (rule SplitN_2) (use assms in \<open>simp add: plain_annotation_def\<close>)
  show "Unquote (Quote (snd kv)) = Some (snd kv)"
    by (rule Unquote_Quote) (use assms in \<open>simp add: plain_annotation_def\<close>)
qed

lemma scan_annotations:
  assumes "list_all plain_annotation kvs" and "list_all (\<lambda>kv. length (annotation_line kv) < MaxScanTokenSize) kvs"
  shows "scan_lines (annotations_file kvs @ rest) = map annotation_line kvs @ scan_lines rest"
  using assms
proof (induction kvs)
  case (Cons kv kvs)
  then show ?case
    using scan_lines_Cons [OF plain_line(1) [of kv], of "annotations_file kvs @ rest"]
    by (simp add: annotations_file_def plain_line(2))
qed (simp add: annotations_file_def)

lemma parse_annotations:
  "list_all plain_annotation kvs \<Longrightarrow>
     parse_lines n (map annotation_line kvs) m = Inr (fold (\<lambda>(k, v). gput k v) kvs m)"
  by (induction kvs arbitrary: n m) (auto simp: plain_line)

section \<open>Properties\<close>

text \<open>
  (C17) Reading back what Kubernetes writes: a file with one quoted line per annotation, whatever
  quotes, backslashes, line breaks and control characters the values contain, gives exactly the
  annotations, as long as every line is shorter than 64 KiB, the values are ASCII text and the
  keys have no equals sign and no line break.
\<close>

theorem annotations_read_back:
  assumes "list_all plain_annotation kvs" and "distinct (map fst kvs)"
    and "list_all (\<lambda>kv. length (annotation_line kv) < MaxScanTokenSize) kvs"
  shows "\<exists>m. newAnnotationsFromReader (annotations_file kvs) = Inr m \<and> map_of m = map_of kvs"
proof -
  have "newAnnotationsFromReader (annotations_file kvs) = Inr (fold (\<lambda>(k, v). gput k v) kvs [])"
    using scan_annotations [OF assms(1,3), of "[]"] parse_annotations [OF assms(1)]
    by (simp add: newAnnotationsFromReader_def)
  then show ?thesis using map_of_fold_gput [OF assms(2), of "[]"] by (auto simp: fun_eq_iff split: option.splits)
qed

text \<open>
  (C39) A line of 64 KiB or more ends the reading without an error: the annotations before it are
  taken, it and all that follow are ignored, whatever they are.
\<close>

theorem long_line_hides_the_rest:
  assumes "list_all plain_annotation kvs" and "list_all (\<lambda>kv. length (annotation_line kv) < MaxScanTokenSize) kvs"
    and "CHR 0x0A \<notin> set long" and "MaxScanTokenSize \<le> length long"
  shows "newAnnotationsFromReader (annotations_file kvs @ long @ CHR 0x0A # rest) = newAnnotationsFromReader (annotations_file kvs)"
  using scan_annotations [OF assms(1,2), of "long @ CHR 0x0A # rest"] scan_annotations [OF assms(1,2), of "[]"]
    scan_lines_Cons [OF assms(3), of rest] assms(4)
  by (simp add: newAnnotationsFromReader_def)

definition demo_annotation :: "string \<times> string" where
  "demo_annotation = (''conjur.org/conjur-secrets.db'', ''- url'' @ [CHR 0x0A, CHR 0x22])"

lemma demo_annotation_ok:
  "list_all plain_annotation [demo_annotation]"
  "list_all (\<lambda>kv. length (annotation_line kv) < MaxScanTokenSize) [demo_annotation]"
  by code_simp (simp add: demo_annotation_def annotation_line_def Quote_def quote_char_def MaxScanTokenSize_def)

theorem annotations_read_back_witness:
  "\<exists>m. newAnnotationsFromReader (annotations_file [demo_annotation]) = Inr m
     \<and> map_of m ''conjur.org/conjur-secrets.db'' = Some (''- url'' @ [CHR 0x0A, CHR 0x22])"
proof -
  obtain m where m: "newAnnotationsFromReader (annotations_file [demo_annotation]) = Inr m" "map_of m = map_of [demo_annotation]"
    using annotations_read_back [OF demo_annotation_ok(1) _ demo_annotation_ok(2)] by auto
  then show ?thesis by (simp add: demo_annotation_def)
qed

theorem long_line_hides_the_rest_witness:
  "newAnnotationsFromReader (annotations_file [demo_annotation] @ replicate 65536 CHR ''x'' @ CHR 0x0A # ''not an annotation'')
     = newAnnotationsFromReader (annotations_file [demo_annotation])"
  by (rule long_line_hides_the_rest [OF demo_annotation_ok]) (simp_all add: MaxScanTokenSize_def)

end
