(* ===== verification/Entrypoint.thy ===== *)
theory Entrypoint
  imports Run_Facts Conjur_Authenticator Annotations
begin

text \<open>
  Package entrypoint (entrypoint.go, trace.go): from the annotations and the environment to the exit
  code. The start-up is a function of the environment, the file system and the factories that the
  program passes in; it ends with an exit code or with a configuration to run, and the run then
  determines the exit code. Tracing appears as the choice of a tracer and as a creation that may
  fail; spans and log output are left out.
\<close>

section \<open>trace.go\<close>

datatype TracerProviderType = NoopProviderType | JaegerProviderType | ConsoleProviderType

definition envAnnotationsConversion :: "(string, string) gomap" where
  "envAnnotationsConversion =
     [(''CONJUR_AUTHN_LOGIN'', ''conjur.org/authn-identity''),
      (''CONTAINER_MODE'', ''conjur.org/container-mode''),
      (''SECRETS_DESTINATION'', ''conjur.org/secrets-destination''),
      (''K8S_SECRETS'', ''conjur.org/k8s-secrets''),
      (''RETRY_COUNT_LIMIT'', ''conjur.org/retry-count-limit''),
      (''RETRY_INTERVAL_SEC'', ''conjur.org/retry-interval-sec''),
      (''DEBUG'', ''conjur.org/debug-logging''),
      (''LOG_LEVEL'', ''conjur.org/log-level''),
      (''JAEGER_COLLECTOR_URL'', ''conjur.org/jaeger-collector-url''),
      (''LOG_TRACES'', ''conjur.org/log-traces''),
      (''JWT_TOKEN_PATH'', ''conjur.org/jwt-token-path''),
      (''REMOVE_DELETED_SECRETS'', ''conjur.org/remove-deleted-secrets-enabled''),
      (''NAMESPACE_ALLOWLIST'', ''conjur.org/namespace-allowlist''),
      (''SERVER_ADDRESS'', ''conjur.org/server-address'')]"

definition getTracerConfigFromEnv :: "(string \<Rightarrow> string) \<Rightarrow> TracerProviderType \<times> string" where
  "getTracerConfigFromEnv getenv =
     (let jaegerURL = getenv ''JAEGER_COLLECTOR_URL'' in
      if jaegerURL \<noteq> [] then (JaegerProviderType, jaegerURL)
      else if getenv ''LOG_TRACES'' = ''true'' then (ConsoleProviderType, [])
      else (NoopProviderType, []))"

definition getTracerConfigFromAnnotations ::
  "fsys \<Rightarrow> string \<Rightarrow> (TracerProviderType \<times> string) \<times> annotations_error option" where
  "getTracerConfigFromAnnotations fs annotationsFilePath =
     (case NewAnnotationsFromFile fs annotationsFilePath of
        Inl err \<Rightarrow> ((NoopProviderType, []), Some err)
      | Inr annotationsMap \<Rightarrow>
          (let jaegerURL = gget [] annotationsMap (gget [] envAnnotationsConversion ''JAEGER_COLLECTOR_URL'') in
           if jaegerURL \<noteq> [] then ((JaegerProviderType, jaegerURL), None)
           else if gget [] annotationsMap (gget [] envAnnotationsConversion ''LOG_TRACES'') = ''true''
           then ((ConsoleProviderType, []), None)
           else ((NoopProviderType, []), None)))"

definition getTracerConfig :: "(string \<Rightarrow> string) \<Rightarrow> fsys \<Rightarrow> string \<Rightarrow> TracerProviderType \<times> string" where
  "getTracerConfig getenv fs annotationsFilePath =
     (case getTracerConfigFromAnnotations fs annotationsFilePath of
        ((traceType, jaegerUrl), err) \<Rightarrow>
          if err \<noteq> None \<or> traceType = NoopProviderType then getTracerConfigFromEnv getenv
          else (traceType, jaegerUrl))"

text \<open>The settings of every tracer, and what one consists of: a provider and the span of the whole run.\<close>

record TracerProviderConfig =
  TracerName :: string
  TracerService :: string
  TracerEnvironment :: string
  TracerID :: int
  CollectorURL :: string

definition tracer_settings :: "string \<Rightarrow> TracerProviderConfig" where
  "tracer_settings tracerURL =
     \<lparr>TracerName = ''secrets-provider'', TracerService = ''secrets-provider'', TracerEnvironment = ''production'',
      TracerID = 1, CollectorURL = tracerURL\<rparr>"

record tracing =
  tr_provider :: bool
  tr_span :: bool

text \<open>An error of the library may come with a provider, which is then shut down all the same.\<close>

definition createTracer ::
  "(TracerProviderType \<Rightarrow> TracerProviderConfig \<Rightarrow> gerror \<times> bool + unit) \<Rightarrow> TracerProviderType \<times> string \<Rightarrow> gerror option \<times> tracing" where
  "createTracer newTracerProvider config =
     (case newTracerProvider (fst config) (tracer_settings (snd config)) of
        Inl (err, tp) \<Rightarrow> (Some err, \<lparr>tr_provider = tp, tr_span = False\<rparr>)
      | Inr _ \<Rightarrow> (None, \<lparr>tr_provider = True, tr_span = True\<rparr>))"

datatype tracer_action = SpanEnd | ProviderShutdown | ContextCancel

definition tracer_cleanup :: "tracing \<Rightarrow> tracer_action list" where
  "tracer_cleanup t = (if tr_span t then [SpanEnd] else []) @ (if tr_provider t then [ProviderShutdown] else []) @ [ContextCancel]"

section \<open>entrypoint.go: the environment\<close>

definition defaultContainerMode :: string where "defaultContainerMode = ''init''"
definition defaultAnnotationsFilePath :: string where "defaultAnnotationsFilePath = ''/conjur/podinfo/annotations''"
definition defaultSecretsBasePath :: string where "defaultSecretsBasePath = ''/conjur/secrets''"
definition defaultTemplatesBasePath :: string where "defaultTemplatesBasePath = ''/conjur/templates''"

definition customEnv :: "(string \<Rightarrow> string) \<Rightarrow> (string, string) gomap \<Rightarrow> string \<Rightarrow> string" where
  "customEnv getenv annotationsMap key =
     (case map_of envAnnotationsConversion key of
        Some annotation \<Rightarrow>
          (let value = gget [] annotationsMap annotation in
           if value \<noteq> [] then value
           else if getenv key = [] \<and> key = ''CONTAINER_MODE'' then defaultContainerMode
           else getenv key)
      | None \<Rightarrow> getenv key)"

definition getContainerMode :: "(string \<Rightarrow> string) \<Rightarrow> (string, string) gomap \<Rightarrow> string" where
  "getContainerMode getenv annotationsMap =
     (case map_of annotationsMap ContainerModeKey of
        Some mode \<Rightarrow> mode
      | None \<Rightarrow>
          (let mode = getenv ''CONTAINER_MODE'' in
           if mode = ''sidecar'' \<or> mode = ''application'' \<or> mode = ''standalone'' then mode else ''init''))"

text \<open>Errors in the list make the start-up fail.\<close>

definition logErrorsAndInfos :: "'e list \<Rightarrow> gerror option" where
  "logErrorsAndInfos errLogs =
     (if length errLogs > 0 then Some ''fatal errors occurred, check Secrets Provider logs'' else None)"

datatype boot_error =
    TracerFailed gerror
  | AnnotationsFailed annotations_error
  | FatalErrors gerror
  | AuthenticatorFailed gerror

text \<open>The annotations are read only if their file exists; the package variable is set before they are validated.\<close>

definition processAnnotations ::
  "fsys \<Rightarrow> string \<Rightarrow> (string, string) gomap \<Rightarrow> boot_error option \<times> (string, string) gomap" where
  "processAnnotations fs annotationsFilePath annotationsMap =
     (if ghas (fs_files fs) annotationsFilePath then
        (case NewAnnotationsFromFile fs annotationsFilePath of
           Inl err \<Rightarrow> (Some (AnnotationsFailed err), [])
         | Inr annots \<Rightarrow> (map_option FatalErrors (logErrorsAndInfos (fst (ValidateAnnotations annots))), annots))
      else (None, annotationsMap))"

definition setupSecretsConfig ::
  "(string \<Rightarrow> gerror + int) \<Rightarrow> (string \<Rightarrow> string) \<Rightarrow> (string, string) gomap \<Rightarrow> boot_error + Config" where
  "setupSecretsConfig ParseDuration getenv annotationsMap =
     (let settings = GatherSecretsProviderSettings getenv annotationsMap in
      case logErrorsAndInfos (fst (ValidateSecretsProviderSettings ParseDuration settings)) of
        Some err \<Rightarrow> Inl (FatalErrors err)
      | None \<Rightarrow> Inr (NewConfig ParseDuration settings))"

section \<open>entrypoint.go: starting\<close>

type_synonym 'w retrieve_func = "string list \<Rightarrow> 'w \<Rightarrow> (gerror + (string, string) gomap) outcome \<times> 'w"

text \<open>What the program is given: the environment, the libraries and the factories.\<close>

record ('w, 'auth, 'tpl) boot_deps =
  bd_getenv :: "string \<Rightarrow> string"
  bd_ParseDuration :: "string \<Rightarrow> gerror + int"
  bd_NewTracerProvider :: "TracerProviderType \<Rightarrow> TracerProviderConfig \<Rightarrow> gerror \<times> bool + unit"
  bd_listen :: "string \<Rightarrow> gerror + string"
  bd_addHandlerError :: "gerror option"
  bd_authenticatorFactory :: "(string \<Rightarrow> string) \<Rightarrow> gerror + 'auth"
  bd_retrieverFactory :: "'auth \<Rightarrow> gerror + 'w retrieve_func"
  bd_providerFactory :: "'w retrieve_func \<Rightarrow> ProviderConfig \<Rightarrow> 'w app \<Rightarrow> (run_error list + 'w ProviderFunc) \<times> 'w app"
  bd_status :: "fsys StatusUpdater"
  bd_env :: "('w, 'tpl) run_env"

definition secretRetriever ::
  "('w, 'auth, 'tpl) boot_deps \<Rightarrow> (string, string) gomap \<Rightarrow> boot_error + 'w retrieve_func" where
  "secretRetriever deps annotationsMap =
     (case bd_authenticatorFactory deps (customEnv (bd_getenv deps) annotationsMap) of
        Inl err \<Rightarrow> Inl (AuthenticatorFailed err)
      | Inr authenticator \<Rightarrow>
          (case bd_retrieverFactory deps authenticator of
             Inl err \<Rightarrow> Inl (AuthenticatorFailed err) | Inr f \<Rightarrow> Inr f))"

definition secretsProvider ::
  "('w, 'auth, 'tpl) boot_deps \<Rightarrow> string \<Rightarrow> string \<Rightarrow> (string, string) gomap \<Rightarrow> 'w retrieve_func \<Rightarrow> 'w app
     \<Rightarrow> (boot_error + 'w ProviderFunc \<times> Config) \<times> 'w app" where
  "secretsProvider deps secretsBase templatesBase annotationsMap retriever a =
     (case setupSecretsConfig (bd_ParseDuration deps) (bd_getenv deps) annotationsMap of
        Inl err \<Rightarrow> (Inl err, a)
      | Inr secretsConfig \<Rightarrow>
          (let providerConfig =
                 \<lparr>pc_Common = \<lparr>cp_StoreType = StoreType secretsConfig, cp_SanitizeEnabled = SanitizeEnabled secretsConfig\<rparr>,
                  pc_K8s = \<lparr>kc_PodNamespace = PodNamespace secretsConfig,
                            kc_RequiredK8sSecrets = RequiredK8sSecrets secretsConfig\<rparr>,
                  pc_P2F = \<lparr>SecretFileBasePath = secretsBase, TemplateFileBasePath = templatesBase,
                            AnnotationsMap = annotationsMap\<rparr>\<rparr>
           in case bd_providerFactory deps retriever providerConfig a of
                (Inl errs, a1) \<Rightarrow>
                  (case logErrorsAndInfos errs of
                     Some err \<Rightarrow> (Inl (FatalErrors err), a1)
                   | None \<Rightarrow> (Inr (\<lambda>a. Some (Panic, a), secretsConfig), a1))
              | (Inr provide, a1) \<Rightarrow> (Inr (provide, secretsConfig), a1)))"

text \<open>
  The start-up ends with an exit code, or with the configuration of the run, its provider, the
  retriever that the provider uses, whether the informer is watching, and the state.
\<close>

datatype 'w boot = BootExit int | BootRun ProviderRefreshConfig "'w ProviderFunc" "'w retrieve_func" bool "'w app"

text \<open>The informer is started when its client can be created; the channel exists in any case.\<close>

definition start_informer :: "('w, 'auth, 'tpl) boot_deps \<Rightarrow> Config \<Rightarrow> 'w app \<Rightarrow> bool" where
  "start_informer deps secretsConfig a =
     (case NewInClusterK8sClient (re_api (bd_env deps)) (app_world a) of
        Inl err \<Rightarrow> False
      | Inr _ \<Rightarrow>
          fst (Start (bd_addHandlerError deps)
            (NewSecretInformer ([] :: SecretEvent list, False) (PodNamespace secretsConfig)
              (Some (NotifySecretEvent (NewChannelNotifier (Some 10)))))) = None)"

text \<open>The retry interval is a product of durations, 64-bit integers that wrap around.\<close>

definition refresh_config :: "string \<Rightarrow> Config \<Rightarrow> ProviderRefreshConfig" where
  "refresh_config containerMode secretsConfig =
     (let runOnce = (containerMode \<noteq> ''sidecar'' \<and> containerMode \<noteq> ''standalone'')
      in \<lparr>Mode = containerMode, RunOnce = runOnce, SecretRefreshInterval = SecretsRefreshInterval secretsConfig,
          hasInformerEvents = (\<not> runOnce \<and> StoreType secretsConfig = K8s \<and> length (RequiredK8sSecrets secretsConfig) = 0),
          RetryInterval = int64 (RetryIntervalSec secretsConfig * 1000000000),
          RetryCountLimit_run = Config.RetryCountLimit secretsConfig\<rparr>)"

definition boot ::
  "('w, 'auth, 'tpl) boot_deps \<Rightarrow> string \<Rightarrow> string \<Rightarrow> string \<Rightarrow> 'w app \<Rightarrow> 'w boot" where
  "boot deps annotationsFilePath secretsBase templatesBase a =
     (let fs = p2f_fs (app_files a); getenv = bd_getenv deps in
      case createTracer (bd_NewTracerProvider deps) (getTracerConfig getenv fs annotationsFilePath) of
        (Some err, _) \<Rightarrow> BootExit 1
      | (None, _) \<Rightarrow>
      (case processAnnotations fs annotationsFilePath [] of
         (Some err, _) \<Rightarrow> BootExit 1
       | (None, annotationsMap) \<Rightarrow>
       (case secretRetriever deps annotationsMap of
          Inl err \<Rightarrow> BootExit 1
        | Inr retriever \<Rightarrow>
        (case secretsProvider deps secretsBase templatesBase annotationsMap retriever a of
           (Inl err, _) \<Rightarrow> BootExit 1
         | (Inr (provideSecrets, secretsConfig), a1) \<Rightarrow>
           (let containerMode = getContainerMode getenv annotationsMap;
                config = refresh_config containerMode secretsConfig
            in if containerMode = ''standalone'' then
                 (case NewServer (bd_listen deps) (ServerAddress secretsConfig) of
                    Inl err \<Rightarrow> BootExit 0
                  | Inr srv \<Rightarrow>
                      (let a2 = a1\<lparr>httpServer := Some (Start_server srv)\<rparr>
                       in BootRun config provideSecrets retriever (hasInformerEvents config \<and> start_informer deps secretsConfig a2) a2))
               else BootRun config provideSecrets retriever (hasInformerEvents config \<and> start_informer deps secretsConfig a1) a1)))))"

text \<open>The exit code of the program, which may never exit.\<close>

definition startSecretsProviderWithDeps ::
  "('w, 'auth, 'tpl) boot_deps \<Rightarrow> ('w retry_state, run_error) retryNotify \<Rightarrow> string \<Rightarrow> string \<Rightarrow> string \<Rightarrow> 'w app
     \<Rightarrow> int \<Rightarrow> 'w app \<Rightarrow> bool" where
  "startSecretsProviderWithDeps deps retry annotationsFilePath secretsBase templatesBase a exitCode a' \<longleftrightarrow>
     (case boot deps annotationsFilePath secretsBase templatesBase a of
        BootExit code \<Rightarrow> exitCode = code \<and> a' = a
      | BootRun config provideSecrets retriever informer a1 \<Rightarrow>
          (\<exists>err. RunSecretsProvider ((bd_env deps)\<lparr>re_retrieve := retriever\<rparr>) retry config provideSecrets (bd_status deps) a1 err a'
             \<and> exitCode = (if err \<noteq> None then 1 else 0)))"

text \<open>The program itself: the default paths and the factories of the packages.\<close>

definition default_deps ::
  "('w, 'cfg ConjurAuthenticator, 'tpl) boot_deps \<Rightarrow> ('cfg, 'w) authn_api \<Rightarrow> 'w conjur_api \<Rightarrow> (string \<Rightarrow> gerror + string) \<Rightarrow> 'w app
     \<Rightarrow> ('w, 'cfg ConjurAuthenticator, 'tpl) boot_deps" where
  "default_deps deps authn conjur url_path a =
     deps\<lparr>bd_authenticatorFactory := (\<lambda>env. NewAuthenticator authn env (app_world a)),
          bd_retrieverFactory := NewSecretRetriever (re_recorded (bd_env deps)) (re_order (bd_env deps))
            (GetAccessToken authn url_path (bd_getenv deps)) conjur,
          bd_providerFactory := (\<lambda>retrieve. NewProviderForType ((bd_env deps)\<lparr>re_retrieve := retrieve\<rparr>)),
          bd_status := NewStatusUpdater\<rparr>"

definition StartSecretsProvider ::
  "('w, 'cfg ConjurAuthenticator, 'tpl) boot_deps \<Rightarrow> ('cfg, 'w) authn_api \<Rightarrow> 'w conjur_api \<Rightarrow> (string \<Rightarrow> gerror + string)
     \<Rightarrow> ('w retry_state, run_error) retryNotify \<Rightarrow> 'w app \<Rightarrow> int \<Rightarrow> 'w app \<Rightarrow> bool" where
  "StartSecretsProvider deps authn conjur url_path retry a exitCode a' \<longleftrightarrow>
     startSecretsProviderWithDeps (default_deps deps authn conjur url_path a) retry
       defaultAnnotationsFilePath defaultSecretsBasePath defaultTemplatesBasePath a exitCode a'"

section \<open>Lemmas\<close>

text \<open>
  The retry interval is the configured number of seconds as long as it fits; a larger number, which
  the settings accept, can give a negative interval, and then nothing is retried.
\<close>

lemma retry_interval_fits:
  "0 \<le> RetryIntervalSec c \<Longrightarrow> RetryIntervalSec c \<le> 9223372036
     \<Longrightarrow> RetryInterval (refresh_config mode c) = RetryIntervalSec c * 1000000000"
  by (simp add: refresh_config_def int64_id Let_def)

lemma retry_interval_wraps:
  assumes "2 ^ 63 \<le> RetryIntervalSec c * 1000000000" and "RetryIntervalSec c * 1000000000 < 2 ^ 64"
  shows "with_retry retry (refresh_config mode c) provide a = (provide, a)"
proof -
  define x where "x = RetryIntervalSec c * 1000000000"
  have "x + 2 ^ 63 = (x - 2 ^ 63) + 2 ^ 64" by simp
  then have "(x + 2 ^ 63) mod 2 ^ 64 = (x - 2 ^ 63) mod 2 ^ 64" by (metis mod_add_self2)
  also have "\<dots> = x - 2 ^ 63" using assms by (intro mod_pos_pos_trivial) (simp_all add: x_def)
  finally have "int64 x < 0" using assms(2) by (simp add: int64_def x_def)
  then have "RetryInterval (refresh_config mode c) < 0" by (simp add: refresh_config_def x_def Let_def)
  then show ?thesis by (simp add: with_retry_def)
qed

text \<open>What gathering the settings gives for a key.\<close>

lemma gather_annotations:
  "gwf annots \<Longrightarrow>
     map_of (fold (\<lambda>(k, v) m. if P k then gput k v m else m) annots m) k =
       (if P k then case map_of annots k of Some v \<Rightarrow> Some v | None \<Rightarrow> map_of m k else map_of m k)"
proof (induction annots arbitrary: m)
  case (Cons e es)
  obtain x v where e: "e = (x, v)" by force
  have "gwf es" "map_of es x = None" using Cons.prems by (auto simp: gwf_def e map_of_eq_None_iff)
  then show ?case using Cons.IH [of "if P x then gput x v m else m"] by (auto simp: e split: option.splits)
qed simp

lemma gather_env:
  "map_of (fold (\<lambda>k m. if g k \<noteq> [] then gput k (g k) m else m) ks m) k =
     (if k \<in> set ks \<and> g k \<noteq> [] then Some (g k) else map_of m k)"
  by (induction ks arbitrary: m) auto

lemma gathered:
  assumes "gwf annots"
  shows "map_of (GatherSecretsProviderSettings getenv annots) k =
     (if k \<in> set validEnvVars \<and> getenv k \<noteq> [] then Some (getenv k)
      else if ghas secretsProviderAnnotations k then map_of annots k else None)"
  unfolding GatherSecretsProviderSettings_def Let_def gather_env gather_annotations [OF assms] by (simp split: option.split)

lemma gathered_mode:
  assumes "gwf annots"
  shows "setting (GatherSecretsProviderSettings getenv annots) ContainerModeKey = gget [] annots ContainerModeKey"
    and "setting (GatherSecretsProviderSettings getenv annots) ''CONTAINER_MODE'' = getenv ''CONTAINER_MODE''"
proof -
  have known: "ghas secretsProviderAnnotations ContainerModeKey" "\<not> ghas secretsProviderAnnotations ''CONTAINER_MODE''"
    "ContainerModeKey \<notin> set validEnvVars" "''CONTAINER_MODE'' \<in> set validEnvVars"
    by code_simp+
  show "setting (GatherSecretsProviderSettings getenv annots) ContainerModeKey = gget [] annots ContainerModeKey"
    unfolding gget_def gathered [OF assms] using known by simp
  show "setting (GatherSecretsProviderSettings getenv annots) ''CONTAINER_MODE'' = getenv ''CONTAINER_MODE''"
    unfolding gget_def gathered [OF assms] using known by simp
qed

text \<open>Every annotation of a validated list passed its check.\<close>

lemma validate_Cons_known:
  assumes "validateAnnotationKey key = (match, m, None)"
  shows "fst (ValidateAnnotations ((key, v) # es)) =
     (case validateAnnotationValue key v (gget (restraint TYPESTRING []) m match) of
        Some err \<Rightarrow> [err] | None \<Rightarrow> []) @ fst (ValidateAnnotations es)"
  using assms by (cases "ValidateAnnotations es") (simp split: option.splits)

lemma validate_Cons_errors: "fst (ValidateAnnotations (e # es)) = [] \<Longrightarrow> fst (ValidateAnnotations es) = []"
  by (cases e; cases "ValidateAnnotations es"; cases "validateAnnotationKey (fst e)")
    (auto split: option.splits)

lemma validated_annotation:
  assumes "fst (ValidateAnnotations annots) = []" and "(key, v) \<in> set annots" and key: "validateAnnotationKey key = (match, m, None)"
  shows "validateAnnotationValue key v (gget (restraint TYPESTRING []) m match) = None"
  using assms(1,2)
proof (induction annots)
  case (Cons e es)
  show ?case
  proof (cases "e = (key, v)")
    case True
    with Cons.prems(1) show ?thesis using validate_Cons_known [OF key, of v es] by (auto split: option.splits)
  next
    case False
    with Cons show ?thesis using validate_Cons_errors [of e es] by auto
  qed
qed simp

lemma validated_mode:
  assumes "fst (ValidateAnnotations annots) = []" and "map_of annots ContainerModeKey = Some mode"
  shows "mode \<in> {''init'', ''application'', ''sidecar'', ''standalone''}"
proof -
  have key: "validateAnnotationKey ContainerModeKey = (ContainerModeKey, secretsProviderAnnotations, None)"
    by (simp add: validateAnnotationKey_def HasPrefix_def ghas_def secretsProviderAnnotations_def)
  show ?thesis
    using validated_annotation [OF assms(1) map_of_SomeD [OF assms(2)] key]
    by (auto simp: validateAnnotationValue_def gget_def secretsProviderAnnotations_def Let_def split: if_splits)
qed

text \<open>A one-time start that ends without an error has run its provider and written the sentinel.\<close>

lemma run_start_success:
  assumes "run_start_phase config provide NewStatusUpdater a = Some (StartReturned None, a')"
  shows "\<exists>a1 u a2. on_files (su_CopyScripts NewStatusUpdater) a = (None, a1) \<and> provide a1 = Some (Ret (u, None), a2)
     \<and> on_files (su_SetSecretsProvided NewStatusUpdater) (setReady None a2) = (None, a')
     \<and> sentinel (providedFile default_updater) (p2f_fs (app_files a'))"
proof -
  obtain e1 a1 where c: "on_files (su_CopyScripts NewStatusUpdater) a = (e1, a1)" by (metis surj_pair)
  have e1: "e1 = None" using assms c by (auto simp: run_start_phase_def split: option.splits)
  obtain r a2 where p: "provide a1 = Some (r, a2)"
    using assms c e1 by (auto simp: run_start_phase_def split: option.splits)
  obtain u err where r: "r = Ret (u, err)"
    using assms c e1 p by (cases r) (auto simp: run_start_phase_def)
  obtain e4 a4 where s: "on_files (su_SetSecretsProvided NewStatusUpdater) (setReady err a2) = (e4, a4)" by (metis surj_pair)
  have once: "RunOnce config" "err = None" "e4 = None" "a' = a4"
    using assms c e1 p r s by (auto simp: run_start_phase_def Let_def split: if_splits)
  have "sentinel (providedFile default_updater) (p2f_fs (app_files a4))"
    using s once(3) files.records_provided [of "p2f_fs (app_files (setReady err a2))"]
    by (auto simp: on_files_def split: prod.splits)
  with c e1 p r s once show ?thesis by blast
qed

lemma run_once_not_waiting:
  "RunOnce config \<Longrightarrow> run_start_phase config provide status a \<noteq> Some (StartWaiting, a')"
  by (auto simp: run_start_phase_def Let_def split: option.splits prod.splits outcome.splits if_splits)

text \<open>An exit with code 0 in a one-time mode: the start-up, the run and the sentinel file.\<close>

lemma init_exit_zero:
  assumes "StartSecretsProvider deps authn conjur url_path retry a 0 a'"
    and "processAnnotations (p2f_fs (app_files a)) defaultAnnotationsFilePath [] = (None, annots)"
    and "getContainerMode (bd_getenv deps) annots \<noteq> ''sidecar''" and "getContainerMode (bd_getenv deps) annots \<noteq> ''standalone''"
  shows "\<exists>config provide retriever informer a1.
      boot (default_deps deps authn conjur url_path a) defaultAnnotationsFilePath defaultSecretsBasePath defaultTemplatesBasePath a
        = BootRun config provide retriever informer a1 \<and> RunOnce config
    \<and> (\<exists>a2 u a3. on_files (su_CopyScripts NewStatusUpdater) (snd (with_retry retry config provide a1)) = (None, a2)
          \<and> fst (with_retry retry config provide a1) a2 = Some (Ret (u, None), a3)
          \<and> on_files (su_SetSecretsProvided NewStatusUpdater) (setReady None a3) = (None, a'))
    \<and> sentinel (providedFile default_updater) (p2f_fs (app_files a'))"
proof -
  let ?deps = "default_deps deps authn conjur url_path a"
  have env: "bd_getenv ?deps = bd_getenv deps" "bd_status ?deps = NewStatusUpdater" by (simp_all add: default_deps_def)
  obtain b where b: "boot ?deps defaultAnnotationsFilePath defaultSecretsBasePath defaultTemplatesBasePath a = b" by simp
  have shape: "b = BootExit 1 \<or> (\<exists>config provide retriever informer a1. b = BootRun config provide retriever informer a1 \<and> RunOnce config)"
    using b assms(3,4) unfolding boot_def Let_def assms(2) env
    by (auto simp: refresh_config_def Let_def split: option.splits sum.splits prod.splits)
  then obtain config provide retriever informer a1 where run: "b = BootRun config provide retriever informer a1" "RunOnce config"
    using assms(1) b by (auto simp: StartSecretsProvider_def startSecretsProviderWithDeps_def)
  obtain provide' a2 where w: "with_retry retry config provide a1 = (provide', a2)" by (metis surj_pair)
  have "RunSecretsProvider ((bd_env ?deps)\<lparr>re_retrieve := retriever\<rparr>) retry config provide NewStatusUpdater a1 None a'"
    using assms(1) b run env by (auto simp: StartSecretsProvider_def startSecretsProviderWithDeps_def split: if_splits)
  then have "run_start_phase config provide' NewStatusUpdater a2 = Some (StartReturned None, a')"
    using run_once_not_waiting [OF run(2), of provide' NewStatusUpdater a2]
    by (auto simp: RunSecretsProvider_def w split: option.splits prod.splits run_start.splits)
  from run_start_success [OF this] show ?thesis using b run w by (metis fst_conv snd_conv)
qed

section \<open>Properties\<close>

text \<open>
  (C5) What the exit code of an init or application container says: if the program exits with
  code 0 in such a mode, then the scripts were copied, the provider was run once after that and
  returned no error (after retries, where they are configured), and it ends with the sentinel file
  of the provided secrets in place, whatever the environment, the libraries and the file system do.
\<close>

theorem init_exit_zero_means_provided:
  assumes "StartSecretsProvider deps authn conjur url_path retry a 0 a'"
    and "processAnnotations (p2f_fs (app_files a)) defaultAnnotationsFilePath [] = (None, annots)"
    and "getContainerMode (bd_getenv deps) annots \<noteq> ''sidecar''" and "getContainerMode (bd_getenv deps) annots \<noteq> ''standalone''"
  shows "\<exists>config provide retriever informer a1.
      boot (default_deps deps authn conjur url_path a) defaultAnnotationsFilePath defaultSecretsBasePath defaultTemplatesBasePath a
        = BootRun config provide retriever informer a1 \<and> RunOnce config
    \<and> (\<exists>a2 u a3. on_files (su_CopyScripts NewStatusUpdater) (snd (with_retry retry config provide a1)) = (None, a2)
          \<and> fst (with_retry retry config provide a1) a2 = Some (Ret (u, None), a3)
          \<and> on_files (su_SetSecretsProvided NewStatusUpdater) (setReady None a3) = (None, a'))
    \<and> sentinel (providedFile default_updater) (p2f_fs (app_files a'))"
  using assms by (rule init_exit_zero)

text \<open>
  (C29) The container mode is read in three places: for the run, for the libraries (through the
  environment function), and in the configuration that was validated. With validated annotations
  and a known mode in the environment, the three agree, an empty configured mode meaning init.
\<close>

theorem container_mode_agrees:
  assumes "gwf annots" and "fst (ValidateAnnotations annots) = []"
    and "getenv ''CONTAINER_MODE'' \<in> {[], ''init'', ''application'', ''sidecar'', ''standalone''}"
  shows "getContainerMode getenv annots = customEnv getenv annots ''CONTAINER_MODE''
     \<and> getContainerMode getenv annots =
         (let mode = ContainerMode (NewConfig pd (GatherSecretsProviderSettings getenv annots)) in if mode = [] then ''init'' else mode)"
proof -
  have conf: "ContainerMode (NewConfig pd (GatherSecretsProviderSettings getenv annots)) =
      (if gget [] annots ContainerModeKey = [] then getenv ''CONTAINER_MODE'' else gget [] annots ContainerModeKey)"
    by (simp add: NewConfig_def Let_def annot_or_env_def gathered_mode [OF assms(1)])
  have cust: "customEnv getenv annots ''CONTAINER_MODE'' =
      (if gget [] annots ContainerModeKey \<noteq> [] then gget [] annots ContainerModeKey
       else if getenv ''CONTAINER_MODE'' = [] then ''init'' else getenv ''CONTAINER_MODE'')"
    by (simp add: customEnv_def envAnnotationsConversion_def defaultContainerMode_def Let_def)
  show ?thesis
  proof (cases "map_of annots ContainerModeKey")
    case None
    then have "gget [] annots ContainerModeKey = []" by (simp add: gget_def)
    with None assms(3) show ?thesis unfolding conf cust getContainerMode_def Let_def by auto
  next
    case (Some mode)
    then have "gget [] annots ContainerModeKey = mode" "mode \<noteq> []"
      using validated_mode [OF assms(2) Some] by (auto simp: gget_def)
    with Some show ?thesis unfolding conf cust getContainerMode_def Let_def by simp
  qed
qed

text \<open>
  The deferred clean-up of the tracer ends the span before it shuts the provider down, cancels the
  context last, and never ends a span that was not started.
\<close>

lemma tracer_cleanup_order:
  "tracer_cleanup (snd (createTracer new config)) =
     (case new (fst config) (tracer_settings (snd config)) of
        Inr _ \<Rightarrow> [SpanEnd, ProviderShutdown, ContextCancel]
      | Inl (_, tp) \<Rightarrow> if tp then [ProviderShutdown, ContextCancel] else [ContextCancel])"
  by (simp add: createTracer_def tracer_cleanup_def split: sum.splits prod.splits)

text \<open>A standalone container whose address is taken exits with code 0, having provided nothing.\<close>

lemma server_failure_exits_with_success:
  assumes "createTracer (bd_NewTracerProvider deps) (getTracerConfig (bd_getenv deps) (p2f_fs (app_files a)) path) = (None, tr)"
    and "processAnnotations (p2f_fs (app_files a)) path [] = (None, annots)"
    and "secretRetriever deps annots = Inr retriever"
    and "secretsProvider deps secretsBase templatesBase annots retriever a = (Inr (provide, secretsConfig), a1)"
    and "getContainerMode (bd_getenv deps) annots = ''standalone''"
    and "NewServer (bd_listen deps) (ServerAddress secretsConfig) = Inl err"
  shows "startSecretsProviderWithDeps deps retry path secretsBase templatesBase a exitCode a' \<longleftrightarrow> exitCode = 0 \<and> a' = a"
  using assms by (simp add: startSecretsProviderWithDeps_def boot_def)

text \<open>
  The identity annotation reaches the libraries through the environment function, but the clients
  for cloud credentials are configured from the process environment.
\<close>

lemma cloud_login_ignores_annotation:
  assumes "map_of annots AuthnIdentityKey = Some login" and "login \<noteq> []"
    and "createConjurClientForAuthenticator api url_path getenv u t w = Inr cfg"
  shows "customEnv getenv annots ''CONJUR_AUTHN_LOGIN'' = login \<and> JWTHostID cfg = getenv ''CONJUR_AUTHN_LOGIN''"
proof -
  have "customEnv getenv annots ''CONJUR_AUTHN_LOGIN'' = login"
    using assms(1,2) by (simp add: customEnv_def envAnnotationsConversion_def gget_def Let_def)
  moreover have "JWTHostID cfg = getenv ''CONJUR_AUTHN_LOGIN''"
    using assms(3) by (auto simp: createConjurClientForAuthenticator_def Let_def split: if_splits sum.splits option.splits)
  ultimately show ?thesis by blast
qed

subsection \<open>Witnesses\<close>

definition init_env :: "string \<Rightarrow> string" where
  "init_env k = gget [] [(''MY_POD_NAMESPACE'', ''ns''), (''SECRETS_DESTINATION'', ''k8s_secrets''), (''RETRY_INTERVAL_SEC'', ''0''),
     (''CONJUR_AUTHN_URL'', ''https://conjur/authn-iam/prod'')] k"

definition init_authn :: "(unit, nat) authn_api" where
  "init_authn = \<lparr>aa_NewClient = (\<lambda>_ _ _. None), aa_InternalAuthenticate = (\<lambda>_ _ w. (Inr ''token'', w)),
     aa_NewConfigFromCustomEnv = (\<lambda>_ _. Inr ()), aa_NewAccessToken = (\<lambda>w. (None, w)),
     aa_NewAuthenticatorWithAccessToken = (\<lambda>_ w. (None, w)), aa_AuthenticateWithContext = (\<lambda>_ w. (None, w)),
     aa_ReadToken = (\<lambda>_. Inr ''token''), aa_OverwriteToken = (\<lambda>_ w. w), aa_DeleteToken = (\<lambda>w. w)\<rparr>"

definition init_conjur :: "nat conjur_api" where
  "init_conjur = demo_conjur True demo_conjur_vals"

definition init_deps :: "(nat, unit ConjurAuthenticator, string) boot_deps" where
  "init_deps = \<lparr>bd_getenv = init_env, bd_ParseDuration = demo_duration, bd_NewTracerProvider = (\<lambda>_ _. Inr ()),
     bd_listen = (\<lambda>addr. Inr addr), bd_addHandlerError = None, bd_authenticatorFactory = (\<lambda>_. Inl ''unset''),
     bd_retrieverFactory = (\<lambda>_. Inl ''unset''),
     bd_providerFactory = (\<lambda>_ _ a. (Inl [], a)), bd_status = NewStatusUpdater, bd_env = demo_env\<rparr>"

definition init_settings :: "(string, string) gomap" where
  "init_settings = GatherSecretsProviderSettings init_env []"

lemma init_config:
  "fst (ValidateSecretsProviderSettings demo_duration init_settings) = []"
  "StoreType (NewConfig demo_duration init_settings) = ''k8s_secrets''"
  "RetryIntervalSec (NewConfig demo_duration init_settings) = 0"
  "RequiredK8sSecrets (NewConfig demo_duration init_settings) = []"
  "getContainerMode init_env [] = ''init''"
  "Contains ''https://conjur/authn-iam/prod'' ''authn-iam''" "\<not> Contains ''https://conjur/authn-iam/prod'' ''authn-k8s''"
  "\<not> Contains ''https://conjur/authn-iam/prod'' ''authn-jwt''"
  by code_simp+

lemma init_sentinel: "fst (SetSecretsProvided default_updater (snd (CopyScripts default_updater image_fs))) = None"
  by code_simp

lemma init_annotations: "processAnnotations image_fs defaultAnnotationsFilePath [] = (None, [])"
  by (simp add: processAnnotations_def image_fs_def defaultAnnotationsFilePath_def ghas_def)

lemma init_boot:
  "\<exists>p env ret. boot (default_deps init_deps init_authn init_conjur Inr (demo_app 0)) defaultAnnotationsFilePath defaultSecretsBasePath
       defaultTemplatesBasePath (demo_app 0)
     = BootRun (refresh_config ''init'' (NewConfig demo_duration init_settings)) (k8s_provider_func env) ret False
         ((demo_app 0)\<lparr>K8sProviderInstance := Some p\<rparr>)
     \<and> env = demo_env\<lparr>re_retrieve := ret\<rparr> \<and> cleared p \<and> requiredK8sSecrets p = []"
proof -
  let ?deps = "default_deps init_deps init_authn init_conjur Inr (demo_app 0)"
  let ?ret = "projr (NewSecretRetriever (\<lambda>m. m) (\<lambda>_ ks. ks) (GetAccessToken init_authn Inr init_env) init_conjur
      (IamAuthenticator ''https://conjur/authn-iam/prod''))" and ?cfg = "NewConfig demo_duration init_settings"
  let ?p = "newProvider (SanitizeEnabled ?cfg) \<lparr>kc_PodNamespace = PodNamespace ?cfg, kc_RequiredK8sSecrets = []\<rparr>"
  have fs: "p2f_fs (app_files (demo_app 0)) = image_fs" by (simp add: demo_app_def demo_files_def)
  have g: "bd_getenv ?deps = init_env" "bd_NewTracerProvider ?deps = (\<lambda>_ _. Inr ())" by (simp_all add: default_deps_def init_deps_def)
  have url: "customEnv init_env [] ''CONJUR_AUTHN_URL'' = ''https://conjur/authn-iam/prod''"
    by (simp add: customEnv_def envAnnotationsConversion_def init_env_def gget_def)
  have ret: "secretRetriever ?deps [] = Inr ?ret"
    using init_config(6,7,8)
    by (simp add: secretRetriever_def g NewSecretRetriever_def demo_env_def default_deps_def init_deps_def NewAuthenticator_def url Let_def)
  have prov: "secretsProvider ?deps defaultSecretsBasePath defaultTemplatesBasePath [] ?ret (demo_app 0)
      = (Inr (k8s_provider_func (demo_env\<lparr>re_retrieve := ?ret\<rparr>), ?cfg), (demo_app 0)\<lparr>K8sProviderInstance := Some ?p\<rparr>)"
    using init_config(1,2,4)
    by (simp add: secretsProvider_def setupSecretsConfig_def init_settings_def [symmetric] default_deps_def init_deps_def
        logErrorsAndInfos_def NewProviderForType_def Let_def)
  have "boot ?deps defaultAnnotationsFilePath defaultSecretsBasePath defaultTemplatesBasePath (demo_app 0)
      = BootRun (refresh_config ''init'' ?cfg) (k8s_provider_func (demo_env\<lparr>re_retrieve := ?ret\<rparr>)) ?ret False
          ((demo_app 0)\<lparr>K8sProviderInstance := Some ?p\<rparr>)"
    by (simp add: boot_def createTracer_def fs g init_annotations ret prov init_config(5) refresh_config_def Let_def)
  moreover have "cleared ?p" "requiredK8sSecrets ?p = []" by (simp, simp add: newProvider_def)
  ultimately show ?thesis by blast
qed

theorem init_exit_zero_means_provided_witness:
  "\<exists>a'. StartSecretsProvider init_deps init_authn init_conjur Inr (\<lambda>op reset nextb notify x. retry_loop op nextb notify (reset x)) (demo_app 0) 0 a'
     \<and> sentinel (providedFile default_updater) (p2f_fs (app_files a'))"
proof -
  let ?retry = "\<lambda>op reset nextb notify x. retry_loop op nextb notify (reset x)"
  let ?config = "refresh_config ''init'' (NewConfig demo_duration init_settings)"
  obtain p env ret where b: "boot (default_deps init_deps init_authn init_conjur Inr (demo_app 0)) defaultAnnotationsFilePath defaultSecretsBasePath
       defaultTemplatesBasePath (demo_app 0)
     = BootRun ?config (k8s_provider_func env) ret False ((demo_app 0)\<lparr>K8sProviderInstance := Some p\<rparr>)"
    and env: "env = demo_env\<lparr>re_retrieve := ret\<rparr>" and p: "cleared p" "requiredK8sSecrets p = []"
    using init_boot by blast
  let ?a1 = "(demo_app 0)\<lparr>K8sProviderInstance := Some p\<rparr>"
  have "\<exists>a2. on_files (su_CopyScripts NewStatusUpdater) ?a1 = (None, a2) \<and> K8sProviderInstance a2 = Some p"
    using image_fs_ok(2) by (cases "CopyScripts default_updater image_fs")
      (simp add: on_files_def NewStatusUpdater_def demo_app_def demo_files_def)
  then obtain a2 where c: "on_files (su_CopyScripts NewStatusUpdater) ?a1 = (None, a2)" "K8sProviderInstance a2 = Some p" by blast
  have "\<exists>a3. k8s_provider_func env a2 = Some (Ret (False, None), a3) \<and> p2f_fs (app_files a3) = p2f_fs (app_files a2)"
    using p by (simp add: k8s_provider_func_def instance_cleanup_def c(2) ProvideWithCleanup_def provide_body_def env
        retrieveRequiredK8sSecrets_def provider_deps_def ListLabeledK8sSecrets_def configK8sClient_def demo_env_def demo_kube_def cleared_def)
  then obtain a3 where k: "k8s_provider_func env a2 = Some (Ret (False, None), a3)"
    "p2f_fs (app_files a3) = p2f_fs (app_files a2)" by blast
  have a2: "p2f_fs (app_files a2) = snd (CopyScripts default_updater image_fs)"
    using c(1) by (cases "CopyScripts default_updater image_fs")
      (auto simp: on_files_def NewStatusUpdater_def demo_app_def demo_files_def)
  have ready: "setReady None a3 = a3 \<or> p2f_fs (app_files (setReady None a3)) = p2f_fs (app_files a3)"
    by (auto simp: setReady_def split: option.splits)
  then have "fst (on_files (su_SetSecretsProvided NewStatusUpdater) (setReady None a3)) = None"
    using init_sentinel a2 k(2)
    by (cases "SetSecretsProvided default_updater (snd (CopyScripts default_updater image_fs))")
      (auto simp: on_files_def NewStatusUpdater_def)
  then obtain a' where s: "on_files (su_SetSecretsProvided NewStatusUpdater) (setReady None a3) = (None, a')"
    by (metis prod.collapse)
  have once: "RunOnce ?config" "RetryInterval ?config = 0" using init_config(3) by (simp_all add: refresh_config_def int64_def Let_def)
  have "run_start_phase ?config (k8s_provider_func env) NewStatusUpdater ?a1 = Some (StartReturned None, a')"
    using c(1) k(1) s once(1) by (simp add: run_start_phase_def)
  then have "RunSecretsProvider env ?retry ?config (k8s_provider_func env) NewStatusUpdater ?a1 None a'"
    using once(2) by (simp add: RunSecretsProvider_def with_retry_def)
  then have start: "StartSecretsProvider init_deps init_authn init_conjur Inr ?retry (demo_app 0) 0 a'"
    using b env by (auto simp: StartSecretsProvider_def startSecretsProviderWithDeps_def default_deps_def init_deps_def)
  have ann: "processAnnotations (p2f_fs (app_files (demo_app 0))) defaultAnnotationsFilePath [] = (None, [])"
    using init_annotations by (simp add: demo_app_def demo_files_def)
  have mode: "getContainerMode (bd_getenv init_deps) [] \<noteq> ''sidecar''" "getContainerMode (bd_getenv init_deps) [] \<noteq> ''standalone''"
    using init_config(5) by (simp_all add: init_deps_def)
  from init_exit_zero_means_provided [OF start ann mode] start show ?thesis by blast
qed

theorem container_mode_agrees_witness:
  "getContainerMode (\<lambda>_. ''sidecar'') [(ContainerModeKey, ''standalone'')] = customEnv (\<lambda>_. ''sidecar'') [(ContainerModeKey, ''standalone'')] ''CONTAINER_MODE''"
proof -
  have "fst (ValidateAnnotations [(ContainerModeKey, ''standalone'')]) = []" by code_simp
  then show ?thesis
    using container_mode_agrees [of "[(ContainerModeKey, ''standalone'')]" "\<lambda>_. ''sidecar''" demo_duration] by (simp add: gwf_def)
qed

end
