(* ===== verification/Delivery.thy ===== *)
theory Delivery
  imports Cluster_Facts Entrypoint
begin

text \<open>
  From the exit code to the cluster. A container that provides Secrets once and exits with code 0
  has delivered what the conjur-maps ask for, through the configuration, the retriever, the
  provider, its retries and the status files. The failed attempts before the successful one may
  have written to the Secrets, but only to the keys that the provider manages.
\<close>

section \<open>What a failed run may touch\<close>

text \<open>Whatever the result, a stored Secret is as it was or an object that was sent for it.\<close>

lemma update_one_sent:
  assumes "kube_store api (podNamespace p) stored" and "named_originals p"
    and "update_one (provider_deps recorded api retr) sha256 keys n d p w = (r, p', w')"
  shows "podNamespace p' = podNamespace p \<and> originalK8sSecrets p' = originalK8sSecrets p \<and>
     (\<forall>h. stored w' h = stored w h \<or> h = n \<and>
        (\<exists>orig. map_of (originalK8sSecrets p) n = Some orig \<and> stored w' n = Some (sent (gget [] keys n) orig d)))"
proof (cases "map_of (originalK8sSecrets p) n")
  case None
  then show ?thesis
    using assms(3) by (auto simp: update_one_def Let_def provider_deps_def UpdateK8sSecret_def split: if_splits)
next
  case (Some orig)
  let ?o = "delete_keys (gget [] keys n) orig"
  have n: "sec_Name ?o = n" using assms(2) Some by (simp add: named_originals_def delete_keys_def)
  obtain res w1 where up: "UpdateK8sSecret recorded api (podNamespace p) n (Some ?o) d w = (res, w1)" by (metis surj_pair)
  have st: "\<forall>h. stored w1 h = stored w h \<or> h = n \<and> stored w1 n = Some (sent (gget [] keys n) orig d)"
    using UpdateK8sSecret_store [OF assms(1) up] n by (auto simp: sent_def split: if_splits)
  have "(w' = w \<or> w' = w1) \<and> podNamespace p' = podNamespace p \<and> originalK8sSecrets p' = originalK8sSecrets p"
    using assms(3) Some up
    by (auto simp: update_one_def Let_def provider_deps_def split: if_splits outcome.splits option.splits)
  then show ?thesis using st Some by auto
qed

lemma update_all_sent:
  assumes "kube_store api (podNamespace p) stored" and "named_originals p"
    and "update_all (provider_deps recorded api retr) sha256 keys L upd p w = (r, p', w')"
  shows "stored w' h = stored w h \<or>
     (\<exists>d orig. (h, d) \<in> set L \<and> map_of (originalK8sSecrets p) h = Some orig \<and> stored w' h = Some (sent (gget [] keys h) orig d))"
  using assms
proof (induction L arbitrary: upd p w)
  case (Cons x L)
  obtain n d where x: "x = (n, d)" by force
  obtain r1 p1 w1 where one: "update_one (provider_deps recorded api retr) sha256 keys n d p w = (r1, p1, w1)"
    by (metis surj_pair)
  note s = update_one_sent [OF Cons.prems(1,2) one]
  show ?case
  proof (cases "\<exists>u1. r1 = Ret (u1, None)")
    case False
    then have "w' = w1" using Cons.prems(3) one by (auto simp: x split: outcome.splits option.splits prod.splits)
    then show ?thesis using s by (auto simp: x)
  next
    case True
    then obtain upd1 where run: "update_all (provider_deps recorded api retr) sha256 keys L upd1 p1 w1 = (r, p', w')"
      using Cons.prems(3) one by (auto simp: x)
    have "kube_store api (podNamespace p1) stored" "named_originals p1"
      using Cons.prems(1,2) s by (simp_all add: named_originals_def)
    then have "stored w' h = stored w1 h \<or> (\<exists>d orig. (h, d) \<in> set L \<and> map_of (originalK8sSecrets p) h = Some orig
        \<and> stored w' h = Some (sent (gget [] keys h) orig d))" using Cons.IH [OF _ _ run] s by simp
    moreover have "stored w1 h = stored w h \<or> h = n \<and>
        (\<exists>orig. map_of (originalK8sSecrets p) n = Some orig \<and> stored w1 n = Some (sent (gget [] keys n) orig d))"
      using s by blast
    ultimately show ?thesis by (auto simp: x)
  qed
qed simp

text \<open>The keys of a Secret that the provider manages, and a Secret that differs in those only.\<close>

definition managed :: "yaml_map \<Rightarrow> v1_secret \<Rightarrow> string set" where
  "managed yaml s = {key. map_of (spec_map yaml s) key \<noteq> None \<or> ghas (sec_Annotations s) (SecretGroupPrefix @ key)}"

definition touched :: "yaml_map \<Rightarrow> v1_secret \<Rightarrow> v1_secret \<Rightarrow> bool" where
  "touched yaml s s' \<longleftrightarrow> s' = s\<lparr>sec_Data := sec_Data s'\<rparr>
     \<and> (\<forall>key. key \<notin> managed yaml s \<longrightarrow> map_of (data_of s') key = map_of (data_of s) key)"

lemma touched_refl [simp]: "touched yaml s s"
  by (simp add: touched_def)

lemma touched_fields:
  assumes "touched yaml s s'"
  shows "sec_Annotations s' = sec_Annotations s"
  using assms unfolding touched_def by (metis v1_secret.select_convs(4) v1_secret.surjective v1_secret.update_convs(5))

lemma touched_spec:
  assumes "touched yaml s s'" and "ConjurMapKey \<notin> managed yaml s"
  shows "spec_map yaml s' = spec_map yaml s" and "managed yaml s' = managed yaml s"
proof -
  have "map_of (data_of s') ConjurMapKey = map_of (data_of s) ConjurMapKey" using assms by (simp add: touched_def)
  then show sp: "spec_map yaml s' = spec_map yaml s" by (simp add: spec_map_def)
  show "managed yaml s' = managed yaml s" using sp touched_fields [OF assms(1)] by (simp add: managed_def)
qed

lemma touched_trans:
  assumes "touched yaml s t" and "touched yaml t u" and "ConjurMapKey \<notin> managed yaml s"
  shows "touched yaml s u"
proof -
  have "u = s\<lparr>sec_Data := sec_Data u\<rparr>"
    using assms(1,2) unfolding touched_def by (metis v1_secret.surjective v1_secret.update_convs(5))
  then show ?thesis using assms(1,2) touched_spec(2) [OF assms(1,3)] by (simp add: touched_def)
qed

text \<open>The data of a run are for managed keys.\<close>

lemma sent_touched:
  assumes "range_order_ok rt" and "gwf cs" and "run_ready p" and "groups_ok secrets p" and "run_data rt eng p cs [] = Ret sd"
    and "\<forall>v. set (dests p v) = (\<Union>n\<in>names. spec_dests yamlm (the (secrets n)) v)"
    and "\<forall>n\<in>names. \<exists>s. secrets n = Some s \<and> sec_Name s = n \<and> (\<forall>y\<in>snd ` set (spec_map yamlm s). entry_spec y \<noteq> None)"
    and "secrets n = Some s" and "map_of sd n = Some d"
  shows "touched yamlm s (sent [] s d)"
proof -
  have "map_of d key = None" if k: "key \<notin> managed yamlm s" for key
  proof (rule ccontr)
    assume "map_of d key \<noteq> None"
    then have "look2 sd (n, key) \<noteq> None" using assms(9) by (simp add: look2_def gget_def)
    from run_data_keys [OF assms(1-5) this] have "(n, key) \<in> all_dest_keys p" using assms(8) k unfolding managed_def by auto
    then obtain v e m where e: "m \<in> names" "e \<in> spec_dests yamlm (the (secrets m)) v" "dest_key e = (n, key)"
      using assms(6) by (auto simp: all_dest_keys_def)
    moreover have "m = n" using e assms(7) by (fastforce simp: spec_dests_def dest_key_def)
    ultimately show False using assms(8) k by (auto simp: spec_dests_def dest_key_def managed_def)
  qed
  moreover have "gwf d" using data_wf_run [OF assms(5)] assms(9) by (simp add: data_wf_def)
  ultimately show ?thesis by (simp add: touched_def sent_overlay overlay_def) (simp add: sent_def)
qed

lemma update_touches:
  assumes "range_order_ok rt" and "gwf cs" and "run_ready p" and "groups_ok (stored w) p"
    and "\<forall>v. set (dests p v) = (\<Union>n\<in>names. spec_dests yamlm (the (stored w n)) v)"
    and "\<forall>n\<in>names. \<exists>s. stored w n = Some s \<and> sec_Name s = n \<and> (\<forall>y\<in>snd ` set (spec_map yamlm s). entry_spec y \<noteq> None)"
    and "kube_store api (podNamespace p) stored" and "originals_ok (stored w) p"
    and "\<forall>n. ghas (originalK8sSecrets p) n \<longleftrightarrow> n \<in> names"
    and "updateRequiredK8sSecretsWithCleanup (provider_deps recorded api retr) rt eng sha256 cs [] p w = (r, p', w')"
  shows "stored w' n = stored w n \<or> n \<in> names \<and> rel_option (touched yamlm) (stored w n) (stored w' n)"
proof (cases "run_data rt eng p cs []")
  case Panic
  then show ?thesis using assms(10) by (simp add: update_required_eq)
next
  case (Ret sd)
  have wf: "gwf sd" using data_wf_run [OF Ret] by (simp add: data_wf_def)
  have "update_all (provider_deps recorded api retr) sha256 [] (grange rt 17 sd) False p w = (r, p', w')"
    using assms(10) Ret by (simp add: update_required_eq)
  from update_all_sent [OF assms(7) originals_ok_names [OF assms(8)] this, of n] consider "stored w' n = stored w n"
    | d orig where "(n, d) \<in> set sd" "map_of (originalK8sSecrets p) n = Some orig" "stored w' n = Some (sent [] orig d)"
    by (auto simp: grange_set [OF assms(1) wf] gget_def)
  then show ?thesis
  proof cases
    case 2
    then have s: "stored w n = Some orig" "n \<in> names" "map_of sd n = Some d"
      using assms(8,9) gwf_map_of_mem [OF wf] by (auto simp: originals_ok_def ghas_iff)
    then show ?thesis using sent_touched [OF assms(1-4) Ret assms(5,6) s(1,3)] 2(3) by simp
  qed simp
qed

lemma removeDeleted_cases:
  assumes "removeDeletedSecrets deps rt eng sha256 p w = (r, p', w')"
  shows "w' = w \<or> (\<exists>cs r1 p1. gwf cs \<and> updateRequiredK8sSecretsWithCleanup deps rt eng sha256 cs [] p w = (r1, p1, w'))"
proof (cases "listConjurSecretsToFetch (recordedError deps) rt p")
  case (Inl e)
  then show ?thesis using assms by (simp add: removeDeletedSecrets_def)
next
  case (Inr vs)
  let ?empty = "fold (\<lambda>v m. gput v [] m) vs []"
  have "gwf ?empty" by (rule fold_invariant_set [where P = gwf]) simp_all
  moreover obtain r1 p1 w1 where u: "updateRequiredK8sSecretsWithCleanup deps rt eng sha256 ?empty [] p w = (r1, p1, w1)"
    by (metis surj_pair)
  moreover have "w' = w1"
    using assms Inr u by (auto simp: removeDeletedSecrets_def updateRequiredK8sSecrets_def split: outcome.splits)
  ultimately show ?thesis by blast
qed

text \<open>A run, whatever its result, changes only managed keys of the named Secrets.\<close>

lemma run_touches:
  assumes hist: "history api stored eng sha256 sanitize config p w" and kube: "kube_store api (kc_PodNamespace config) stored"
    and rt: "range_order_ok rt" and yaml: "yaml_map_ok yamlm"
    and names: "kc_RequiredK8sSecrets config \<noteq> []" "distinct (kc_RequiredK8sSecrets config)"
    and keeps: "keeps_secrets stored retr" and serves: "serves conjur retr"
    and plain: "\<forall>n s. n \<in> set (kc_RequiredK8sSecrets config) \<longrightarrow> stored w n = Some s \<longrightarrow> plain_map yamlm s"
    and run: "k8s_Provide (provider_deps recorded api retr) rt yamls yamlm eng sha256 p w = (r, p', w')"
  shows "stored w' n = stored w n \<or> n \<in> set (kc_RequiredK8sSecrets config) \<and> rel_option (touched yamlm) (stored w n) (stored w' n)"
proof -
  let ?deps = "provider_deps recorded api retr"
  have p: "cleared p" "podNamespace p = kc_PodNamespace config" "requiredK8sSecrets p = kc_RequiredK8sSecrets config"
    using history_inv [OF hist kube] by (simp_all add: same_settings_def newProvider_def)
  have store: "kube_store api (podNamespace p) stored" using kube p(2) by simp
  obtain r0 p1 w1 where a: "retrieveRequiredK8sSecrets ?deps yamls yamlm p w = (r0, p1, w1)" by (metis surj_pair)
  note reads = required_reads [OF store p(1) a]
  obtain f w2 where b: "retrieveConjurSecrets ?deps rt p1 w1 = (f, w2)" by (metis surj_pair)
  have w2: "stored w2 = stored w" using retrieveConjurSecrets_keeps [OF keeps b] reads by simp
  obtain r3 p3 w3 where c: "removeDeletedSecrets ?deps rt eng sha256 p1 w2 = (r3, p3, w3)" by (metis surj_pair)
  have "stored w' = stored w \<or> r0 = Ret None \<and> (\<exists>cs r1 p2. gwf cs \<and> updateRequiredK8sSecretsWithCleanup ?deps rt eng sha256 cs [] p1 w2 = (r1, p2, w'))"
  proof (cases "\<exists>cs. f = Ret (Inr cs) \<and> r0 = Ret None \<and> \<not> (updateDestinations p1 = [] \<and> secretsGroups p1 = [])")
    case True
    then obtain cs where cs: "f = Ret (Inr cs)" by blast
    have "gwf cs"
      using b cs serves by (auto simp: retrieveConjurSecrets_def provider_deps_def serves_def split: sum.splits prod.splits outcome.splits)
    moreover obtain r4 p4 w4 where u: "updateRequiredK8sSecretsWithCleanup ?deps rt eng sha256 cs [] p1 w2 = (r4, p4, w4)"
      by (metis surj_pair)
    moreover have "w' = w4"
      using run a b u cs True by (auto simp: k8s_Provide_def ProvideWithCleanup_def provide_body_def split: outcome.splits option.splits)
    ultimately show ?thesis using True by blast
  next
    case False
    then have "w' \<in> {w1, w2} \<or> r0 = Ret None \<and> w' = w3"
      using run a b c by (auto simp: k8s_Provide_def ProvideWithCleanup_def provide_body_def
          split: outcome.splits option.splits sum.splits if_splits)
    then show ?thesis using reads w2 removeDeleted_cases [OF c] by auto
  qed
  then show ?thesis
  proof (elim disjE conjE exE)
    fix cs r1 p2
    assume r0: "r0 = Ret None" and cs: "gwf cs"
      and u: "updateRequiredK8sSecretsWithCleanup ?deps rt eng sha256 cs [] p1 w2 = (r1, p2, w')"
    note rdy = named_ready [OF store yaml p(1) _ _ _ a [unfolded r0], unfolded p(3), OF names plain]
    have st: "kube_store api (podNamespace p1) stored" "originals_ok (stored w2) p1"
      using reads store w2 by (auto simp: same_config_def)
    from update_touches [OF rt cs rdy(1) _ _ _ st rdy(6) u, unfolded w2, OF rdy(2,5,4)] show ?thesis .
  qed simp
qed

section \<open>Retries\<close>

text \<open>What the provider relies on: the store, the libraries, the retriever and the configured names.\<close>

definition sound_env ::
  "('w, 'tpl) run_env \<Rightarrow> ('w \<Rightarrow> string \<Rightarrow> v1_secret option) \<Rightarrow> (string \<Rightarrow> string option) \<Rightarrow> K8sProviderConfig \<Rightarrow> bool" where
  "sound_env env stored conjur config \<longleftrightarrow>
     kube_store (re_api env) (kc_PodNamespace config) stored \<and> inj (re_sha256 env) \<and> range_order_ok (re_order env)
     \<and> yaml_map_ok (re_yaml_map env) \<and> kc_RequiredK8sSecrets config \<noteq> [] \<and> distinct (kc_RequiredK8sSecrets config)
     \<and> keeps_secrets stored (re_retrieve env) \<and> serves conjur (re_retrieve env)"

text \<open>The conjur-maps are plain, and none manages itself.\<close>

definition plain_secrets :: "yaml_map \<Rightarrow> string list \<Rightarrow> (string \<Rightarrow> v1_secret option) \<Rightarrow> bool" where
  "plain_secrets yaml names secrets \<longleftrightarrow>
     (\<forall>n s. n \<in> set names \<longrightarrow> secrets n = Some s \<longrightarrow> plain_map yaml s \<and> ConjurMapKey \<notin> managed yaml s)"

definition evolves :: "yaml_map \<Rightarrow> string list \<Rightarrow> (string \<Rightarrow> v1_secret option) \<Rightarrow> (string \<Rightarrow> v1_secret option) \<Rightarrow> bool" where
  "evolves yaml names before after \<longleftrightarrow>
     (\<forall>n. if n \<in> set names then rel_option (touched yaml) (before n) (after n) else after n = before n)"

lemma rel_option_touched [simp]: "rel_option (touched yaml) s s"
  by (simp add: option.rel_refl)

lemma evolves_refl: "evolves yaml names before before"
  by (simp add: evolves_def)

lemma evolves_plain:
  assumes "plain_secrets yaml names before" and "evolves yaml names before after"
  shows "plain_secrets yaml names after"
  unfolding plain_secrets_def
proof (intro allI impI)
  fix n s'
  assume n: "n \<in> set names" "after n = Some s'"
  then have "rel_option (touched yaml) (before n) (Some s')" using spec [OF assms(2) [unfolded evolves_def], of n] by simp
  then obtain s where s: "before n = Some s" "touched yaml s s'" by (auto simp: option_rel_Some2)
  then have "plain_map yaml s \<and> ConjurMapKey \<notin> managed yaml s" using assms(1) n(1) by (auto simp: plain_secrets_def)
  then show "plain_map yaml s' \<and> ConjurMapKey \<notin> managed yaml s'" using touched_spec [OF s(2)] by (simp add: plain_map_def)
qed

lemma evolves_trans:
  assumes "plain_secrets yaml names a" and "evolves yaml names a b" and "evolves yaml names b c"
  shows "evolves yaml names a c"
  unfolding evolves_def
proof
  fix n
  note ab = spec [OF assms(2) [unfolded evolves_def], of n] and bc = spec [OF assms(3) [unfolded evolves_def], of n]
  have "rel_option (touched yaml) (a n) (c n)"
    if r: "n \<in> set names" "rel_option (touched yaml) (a n) (b n)" "rel_option (touched yaml) (b n) (c n)"
  proof (cases "a n")
    case (Some s)
    then obtain t where t: "b n = Some t" "touched yaml s t" using r(2) by (auto simp: option_rel_Some1)
    then obtain u where u: "c n = Some u" "touched yaml t u" using r(3) by (auto simp: option_rel_Some1)
    have "ConjurMapKey \<notin> managed yaml s" using assms(1) r(1) Some unfolding plain_secrets_def by blast
    then show ?thesis using touched_trans [OF t(2) u(2)] by (simp add: Some u(1))
  qed (use r in simp)
  then show "if n \<in> set names then rel_option (touched yaml) (a n) (c n) else c n = a n" using ab bc by (simp split: if_splits)
qed

text \<open>Between attempts: a provider with a history, and Secrets that have evolved.\<close>

definition between ::
  "('w, 'tpl) run_env \<Rightarrow> ('w \<Rightarrow> string \<Rightarrow> v1_secret option) \<Rightarrow> bool \<Rightarrow> K8sProviderConfig \<Rightarrow> (string \<Rightarrow> v1_secret option) \<Rightarrow> 'w app \<Rightarrow> bool" where
  "between env stored sanitize config before a \<longleftrightarrow>
     (\<exists>p. K8sProviderInstance a = Some p
        \<and> history (re_api env) stored (re_engine env) (re_sha256 env) sanitize config p (app_world a))
     \<and> evolves (re_yaml_map env) (kc_RequiredK8sSecrets config) before (stored (app_world a))"

abbreviation provide_of ::
  "('w, 'tpl) run_env \<Rightarrow> K8sProvider \<Rightarrow> 'w \<Rightarrow> (bool \<times> gerror option) outcome \<times> K8sProvider \<times> 'w" where
  "provide_of env \<equiv> k8s_Provide (provider_deps (re_recorded env) (re_api env) (re_retrieve env)) (re_order env) (re_yaml_list env)
     (re_yaml_map env) (re_engine env) (re_sha256 env)"

lemma attempt_run:
  assumes "K8sProviderInstance a = Some p"
  shows "k8s_provider_func env a = Some (r, a') \<Longrightarrow> \<exists>r0 p'. provide_of env p (app_world a) = (r0, p', app_world a') \<and> K8sProviderInstance a' = Some p'"
    and "k8s_provider_func env a = Some (Ret (u, None), a') \<Longrightarrow> \<exists>p'. provide_of env p (app_world a) = (Ret (u, None), p', app_world a')"
  using assms by (auto simp: k8s_provider_func_def instance_cleanup_def k8s_Provide_def split: prod.splits outcome.splits)

lemma attempt_between:
  assumes env: "sound_env env stored conjur config" and plain: "plain_secrets (re_yaml_map env) (kc_RequiredK8sSecrets config) before"
    and btw: "between env stored sanitize config before a" and run: "k8s_provider_func env a = Some (r, a')"
  shows "between env stored sanitize config before a'"
proof -
  obtain p where p: "K8sProviderInstance a = Some p"
      "history (re_api env) stored (re_engine env) (re_sha256 env) sanitize config p (app_world a)"
      "evolves (re_yaml_map env) (kc_RequiredK8sSecrets config) before (stored (app_world a))"
    using btw by (auto simp: between_def)
  obtain r0 p' where k: "provide_of env p (app_world a) = (r0, p', app_world a')" "K8sProviderInstance a' = Some p'"
    using attempt_run(1) [OF p(1) run] by blast
  note e = env [unfolded sound_env_def]
  have pl: "\<forall>n s. n \<in> set (kc_RequiredK8sSecrets config) \<longrightarrow> stored (app_world a) n = Some s \<longrightarrow> plain_map (re_yaml_map env) s"
    using evolves_plain [OF plain p(3)] by (auto simp: plain_secrets_def)
  have t: "stored (app_world a') n = stored (app_world a) n \<or> n \<in> set (kc_RequiredK8sSecrets config)
      \<and> rel_option (touched (re_yaml_map env)) (stored (app_world a) n) (stored (app_world a') n)" for n
    by (rule run_touches [OF p(2) _ _ _ _ _ _ _ pl k(1)]) (use e in blast)+
  have "evolves (re_yaml_map env) (kc_RequiredK8sSecrets config) (stored (app_world a)) (stored (app_world a'))"
    unfolding evolves_def using t rel_option_touched by (metis (no_types))
  then have "evolves (re_yaml_map env) (kc_RequiredK8sSecrets config) before (stored (app_world a'))"
    by (rule evolves_trans [OF plain p(3)])
  moreover have "history (re_api env) stored (re_engine env) (re_sha256 env) sanitize config p' (app_world a')"
    by (rule history.ran [OF p(2) _ _ k(1) [unfolded k8s_Provide_def]]) (use e in auto)
  ultimately show ?thesis using k(2) by (auto simp: between_def)
qed

text \<open>The retried operation succeeds in its last attempt.\<close>

lemma attempts_success:
  assumes "attempts (retry_op (k8s_provider_func env)) retry_next (retry_notify onRetry) x r x'" and "r = Ret None"
    and "sound_env env stored conjur config" and "plain_secrets (re_yaml_map env) (kc_RequiredK8sSecrets config) before"
    and "between env stored sanitize config before (fst x)"
    and "\<And>f err a. onRetry = Some f \<Longrightarrow> K8sProviderInstance (f err a) = K8sProviderInstance a \<and> app_world (f err a) = app_world a"
  shows "\<exists>a1 u. between env stored sanitize config before a1 \<and> k8s_provider_func env a1 = Some (Ret (u, None), fst x')"
  using assms
proof (induction rule: attempts.induct)
  case (succeeds x x1)
  then have "\<exists>u. k8s_provider_func env (fst x) = Some (Ret (u, None), fst x1)"
    by (cases x) (auto simp: retry_op_def split: option.splits outcome.splits)
  then show ?case using succeeds.prems(4) by blast
next
  case (again x e x1 d x2 r x3)
  have "\<exists>q. k8s_provider_func env (fst x) = Some (q, fst x1)"
    using again.hyps(1) by (cases x) (auto simp: retry_op_def split: option.splits outcome.splits)
  then have "between env stored sanitize config before (fst x1)" using attempt_between [OF again.prems(2-4)] by blast
  then have "between env stored sanitize config before (fst (retry_notify onRetry e d x2))"
    using again.hyps(2) again.prems(5)
    by (cases x1) (auto simp: retry_next_def retry_notify_def between_def split: prod.splits option.splits)
  then show ?case using again.IH again.prems by blast
qed simp_all

text \<open>
  The Secrets after a delivery: each named Secret was there, only its managed keys changed, and the
  keys of its conjur-map hold the values that Conjur has for their variables, empty ones where
  there is none and sanitizing is on. Keys that a secret group of the same name also writes are
  left aside.
\<close>

definition delivered ::
  "yaml_map \<Rightarrow> bool \<Rightarrow> (string \<Rightarrow> string option) \<Rightarrow> string list \<Rightarrow> (string \<Rightarrow> v1_secret option) \<Rightarrow> (string \<Rightarrow> v1_secret option) \<Rightarrow> bool" where
  "delivered yaml sanitize conjur names before after \<longleftrightarrow>
     (\<forall>n. if n \<in> set names
       then \<exists>s s'. before n = Some s \<and> after n = Some s' \<and> touched yaml s s'
          \<and> (\<forall>key y v ct. map_of (spec_map yaml s) key = Some y \<longrightarrow> entry_spec y = Some (v, ct)
               \<longrightarrow> \<not> ghas (sec_Annotations s) (SecretGroupPrefix @ key)
               \<longrightarrow> (case conjur v of
                      Some x \<Rightarrow> map_of (data_of s') key = Some (decode_value ct x)
                    | None \<Rightarrow> sanitize \<longrightarrow> map_of (data_of s') key = Some []))
       else after n = before n)"

lemma last_attempt_delivers:
  assumes env: "sound_env env stored conjur config" and plain: "plain_secrets (re_yaml_map env) (kc_RequiredK8sSecrets config) before"
    and btw: "between env stored sanitize config before a" and run: "k8s_provider_func env a = Some (Ret (u, None), a')"
  shows "delivered (re_yaml_map env) sanitize conjur (kc_RequiredK8sSecrets config) before (stored (app_world a'))"
  unfolding delivered_def
proof
  fix n
  let ?names = "kc_RequiredK8sSecrets config" and ?yaml = "re_yaml_map env" and ?w = "app_world a" and ?w' = "app_world a'"
  obtain p where p: "K8sProviderInstance a = Some p"
      "history (re_api env) stored (re_engine env) (re_sha256 env) sanitize config p ?w" "evolves ?yaml ?names before (stored ?w)"
    using btw by (auto simp: between_def)
  obtain p' where k: "provide_of env p ?w = (Ret (u, None), p', ?w')" using attempt_run(2) [OF p(1) run] by blast
  have pl: "\<forall>n s. n \<in> set ?names \<longrightarrow> stored ?w n = Some s \<longrightarrow> plain_map ?yaml s"
    using evolves_plain [OF plain p(3)] by (auto simp: plain_secrets_def)
  have d: "\<forall>n. if n \<in> set ?names
       then \<exists>s s'. stored ?w n = Some s \<and> stored ?w' n = Some s' \<and> s' = s\<lparr>sec_Data := sec_Data s'\<rparr>
          \<and> (\<forall>key. \<not> ghas (sec_Annotations s) (SecretGroupPrefix @ key) \<longrightarrow>
               map_of (data_of s') key = wanted_value ?yaml sanitize conjur s key)
       else stored ?w' n = stored ?w n"
    by (rule run_delivers [OF p(2) _ _ _ _ _ _ _ _ pl k]) (use env [unfolded sound_env_def] in blast)+
  have e: "evolves ?yaml ?names before (stored ?w')" using attempt_between [OF env plain btw run] by (simp add: between_def)
  note b = spec [OF p(3) [unfolded evolves_def], of n] and e = spec [OF e [unfolded evolves_def], of n] and d = spec [OF d, of n]
  show "if n \<in> set ?names
       then \<exists>s s'. before n = Some s \<and> stored ?w' n = Some s' \<and> touched ?yaml s s'
          \<and> (\<forall>key y v ct. map_of (spec_map ?yaml s) key = Some y \<longrightarrow> entry_spec y = Some (v, ct)
               \<longrightarrow> \<not> ghas (sec_Annotations s) (SecretGroupPrefix @ key)
               \<longrightarrow> (case conjur v of
                      Some x \<Rightarrow> map_of (data_of s') key = Some (decode_value ct x)
                    | None \<Rightarrow> sanitize \<longrightarrow> map_of (data_of s') key = Some []))
       else stored ?w' n = before n"
  proof (cases "n \<in> set ?names")
    case True
    then obtain s1 s' where s1: "stored ?w n = Some s1" "stored ?w' n = Some s'"
        "\<forall>key. \<not> ghas (sec_Annotations s1) (SecretGroupPrefix @ key) \<longrightarrow> map_of (data_of s') key = wanted_value ?yaml sanitize conjur s1 key"
      using d by auto
    obtain s where s: "before n = Some s" "touched ?yaml s s1" using b True s1(1) by (auto simp: option_rel_Some2)
    have t: "touched ?yaml s s'" using e True s(1) s1(2) by simp
    have m: "ConjurMapKey \<notin> managed ?yaml s" using plain True s(1) unfolding plain_secrets_def by blast
    show ?thesis
      using True s1(2,3) s(1) t touched_spec(1) [OF s(2) m] touched_fields [OF s(2)]
      by (auto simp: wanted_value_def split: option.splits)
  qed (use b e in simp)
qed

section \<open>The retriever\<close>

text \<open>A Conjur server with the given values: each interface answers with them if it answers at all.\<close>

definition conjur_server :: "'w conjur_api \<Rightarrow> string \<Rightarrow> (string \<Rightarrow> string option) \<Rightarrow> bool" where
  "conjur_server api account vals \<longleftrightarrow>
     (\<forall>ids w r w'. ca_BatchRetrieveSecrets api ids w = (Inr r, w') \<longrightarrow> v2_answer vals ids r) \<and>
     (\<forall>ids w m w'. ca_RetrieveBatchSecretsSafe api ids w = (Inr m, w') \<longrightarrow>
        v1_answer account vals ids m \<and> (\<forall>i\<in>set ids. vals (normaliseVariableId i) \<noteq> None))"

text \<open>Authentication and Conjur leave the Secrets of the cluster alone.\<close>

definition apart :: "('w \<Rightarrow> string \<Rightarrow> v1_secret option) \<Rightarrow> ('cfg, 'w) authn_api \<Rightarrow> 'w conjur_api \<Rightarrow> bool" where
  "apart stored authn api \<longleftrightarrow>
     (\<forall>w c cfg g t ids f.
        stored (snd (aa_InternalAuthenticate authn c cfg w)) = stored w \<and> stored (snd (aa_NewAccessToken authn w)) = stored w
      \<and> stored (snd (aa_NewAuthenticatorWithAccessToken authn g w)) = stored w \<and> stored (snd (aa_AuthenticateWithContext authn g w)) = stored w
      \<and> stored (aa_OverwriteToken authn t w) = stored w \<and> stored (aa_DeleteToken authn w) = stored w
      \<and> stored (snd (ca_BatchRetrieveSecrets api ids w)) = stored w \<and> stored (snd (ca_RetrieveBatchSecretsSafe api ids w)) = stored w
      \<and> stored (snd (ca_Resources api f w)) = stored w \<and> stored (ca_Cleanup api w) = stored w)"

lemma colon_tail: "c \<in> set s \<Longrightarrow> length (filter (\<lambda>x. x = c) s) = Suc (length (filter (\<lambda>x. x = c) (tl (dropWhile (\<lambda>x. x \<noteq> c) s))))"
  by (induction s) auto

lemma normalise_plain:
  assumes "plain_variable v"
  shows "normaliseVariableId v = v"
proof -
  have "CHR '':'' \<notin> set (tl (dropWhile (\<lambda>x. x \<noteq> CHR '':'') v))" if "CHR '':'' \<in> set v"
    using assms colon_tail [OF that] colon_tail [of "CHR '':''" "tl (dropWhile (\<lambda>x. x \<noteq> CHR '':'') v)"]
    by (auto simp: plain_variable_def)
  then show ?thesis by (auto simp: normaliseVariableId_def SplitN_3_cases Let_def)
qed

lemma normalise_all_wf: "gwf (normalise_all rt m)"
  unfolding normalise_all_def by (rule fold_invariant_set [where P = gwf]) (auto simp: split_beta)

text \<open>A fetch by name gives the values of the server, through either interface.\<close>

lemma ids_values:
  assumes "range_order_ok rt" and "conjur_server api account vals"
    and "retrieveConjurSecrets_ids recorded rt api ids \<lparr>useV2 = True\<rparr> w = (Inr m, c, w')"
  shows "gwf m \<and> (\<forall>v\<in>set ids. plain_variable v \<longrightarrow> map_of m v = vals v)"
proof -
  obtain full where m: "m = normalise_all rt full" and full: "RetrieveBatchSecretsSafe api ids \<lparr>useV2 = True\<rparr> w = (Inr full, c, w')"
    using assms(3) by (auto simp: retrieveConjurSecrets_ids_def split: if_splits prod.splits sum.splits)
  have "map_of (normalise_all rt full) k = (if k \<in> normaliseVariableId ` set ids then vals k else None)" for k
  proof (cases "retrieveBatchSecretsV2 api ids w")
    case (Pair r w1)
    show ?thesis
    proof (cases r)
      case (Inr f)
      obtain resp where b: "ca_hasV2 api w" "ca_BatchRetrieveSecrets api (map normaliseVariableId ids) w = (Inr resp, w1)"
        using Pair Inr by (auto simp: retrieveBatchSecretsV2_def Let_def normalize_same split: if_splits prod.splits sum.splits)
      have ans: "v2_answer vals (map normaliseVariableId ids) resp" using assms(2) b(2) unfolding conjur_server_def by blast
      have "full = fst (batch_response (original_ids ids) resp [] [])"
        using retrieveV2_eq [OF b] full Pair Inr by (auto simp: RetrieveBatchSecretsSafe_def split: if_splits)
      then show ?thesis using v2_values(1) [OF assms(1) ans, of k] by simp
    next
      case (Inl e)
      then obtain w2 where "ca_RetrieveBatchSecretsSafe api ids w1 = (Inr full, w2)"
        using full Pair by (auto simp: RetrieveBatchSecretsSafe_def Let_def split: if_splits prod.splits)
      then have "v1_answer account vals ids full" "\<forall>i\<in>set ids. vals (normaliseVariableId i) \<noteq> None"
        using assms(2) unfolding conjur_server_def by blast+
      then show ?thesis by (rule v1_values [OF assms(1)])
    qed
  qed
  then show ?thesis using normalise_plain by (force simp: m normalise_all_wf)
qed

lemma retriever_serves:
  assumes "range_order_ok rt" and "conjur_server api account vals" and "NewSecretRetriever recorded rt tok api auth = Inr f"
  shows "serves vals f"
  unfolding serves_def
proof (intro allI impI conjI ballI)
  fix ids u m u'
  assume run: "f ids u = (Ret (Inr m), u')"
  obtain t w1 where t: "tok auth u = (Inr t, w1)"
    using run assms(3) by (auto simp: NewSecretRetriever_def Retrieve_def Let_def split: prod.splits sum.splits)
  have c: "NewConjurClient recorded api t w1 = Inr \<lparr>useV2 = True\<rparr>"
    using run assms(3) t by (auto simp: NewSecretRetriever_def Retrieve_def Let_def NewConjurClient_def split: option.splits)
  have named: "\<exists>c2 w2. retrieveConjurSecrets_ids recorded rt api ids \<lparr>useV2 = True\<rparr> w1 = (Inr m, c2, w2)" if "ids \<noteq> [''*'']"
    using run assms(3) t c that by (cases ids) (auto simp: NewSecretRetriever_def Retrieve_def Let_def split: prod.splits if_splits)
  show "gwf m"
  proof (cases "ids = [''*'']")
    case True
    then have "\<exists>c2 w2. retrieveConjurSecretsAll recorded rt api \<lparr>useV2 = True\<rparr> w1 = (Ret (Inr m), c2, w2)"
      using run assms(3) t c by (auto simp: NewSecretRetriever_def Retrieve_def Let_def split: prod.splits)
    then show ?thesis
      by (auto simp: retrieveConjurSecretsAll_def normalise_all_wf split: outcome.splits prod.splits sum.splits if_splits)
  next
    case False
    then show ?thesis using named ids_values [OF assms(1,2)] by blast
  qed
  fix v
  assume "ids \<noteq> [''*'']" "v \<in> set ids" "plain_variable v"
  then show "map_of m v = vals v" using named ids_values [OF assms(1,2)] by blast
qed

text \<open>No step of a fetch changes the Secrets.\<close>

lemma apartD:
  assumes "apart stored authn api"
  shows "aa_InternalAuthenticate authn c cfg w = (r1, w') \<Longrightarrow> stored w' = stored w" "aa_NewAccessToken authn w = (r2, w') \<Longrightarrow> stored w' = stored w"
    "aa_NewAuthenticatorWithAccessToken authn g w = (r2, w') \<Longrightarrow> stored w' = stored w"
    "aa_AuthenticateWithContext authn g w = (r2, w') \<Longrightarrow> stored w' = stored w"
    "stored (aa_OverwriteToken authn t w) = stored w" "stored (aa_DeleteToken authn w) = stored w"
    "ca_BatchRetrieveSecrets api ids w = (r3, w') \<Longrightarrow> stored w' = stored w"
    "ca_RetrieveBatchSecretsSafe api ids w = (r4, w') \<Longrightarrow> stored w' = stored w"
    "ca_Resources api f w = (r5, w') \<Longrightarrow> stored w' = stored w" "stored (ca_Cleanup api w) = stored w"
  using assms unfolding apart_def by (metis snd_conv)+

lemma token_keeps:
  assumes "apart stored authn api"
  shows "stored (snd (GetAccessToken authn url_path getenv auth w)) = stored w"
  by (cases auth)
    (auto simp: token_from_client_def token_from_cloud_def readToken_def apartD [OF assms]
      dest!: apartD(1-4) [OF assms] split: prod.splits sum.splits option.splits)

lemma batch_keeps:
  assumes "apart stored authn api" and "RetrieveBatchSecretsSafe api ids c w = (r, c', w')"
  shows "stored w' = stored w"
proof -
  have "stored (snd (retrieveBatchSecretsV2 api ids w)) = stored w"
    by (auto simp: retrieveBatchSecretsV2_def Let_def dest!: apartD(7) [OF assms(1)] split: prod.splits sum.splits)
  then show ?thesis
    using assms(2) by (auto simp: RetrieveBatchSecretsSafe_def Let_def dest!: apartD(8) [OF assms(1)] split: prod.splits sum.splits if_splits)
qed

lemma pages_keep:
  assumes "apart stored authn api"
  shows "stored (snd (fetch_pages api k off paths w)) = stored w"
  using assms
proof (induction api k off paths w rule: fetch_pages.induct)
  case (1 api k off paths w)
  obtain r w1 where r: "Resources api \<lparr>rf_Kind = ''variable'', rf_Limit = 100, rf_Offset = off\<rparr> w = (r, w1)" by (metis surj_pair)
  have w1: "stored w1 = stored w" using apartD(9) [OF "1.prems"] r unfolding Resources_def by blast
  show ?case
  proof (cases "\<exists>rs is. r = Inr rs \<and> resource_ids rs = Ret is \<and> \<not> length rs < 100 \<and> \<not> length (paths @ is) \<ge> k")
    case True
    then obtain rs "is" where rs: "r = Inr rs" "resource_ids rs = Ret is" "\<not> length rs < 100" "\<not> length (paths @ is) \<ge> k" by blast
    have "fetch_pages api k off paths w = fetch_pages api k (off + 100) (paths @ is) w1"
      using r rs by (subst fetch_pages.simps) (simp add: Let_def)
    then show ?thesis using "1.IH" [OF r [symmetric] rs(1,2) refl rs(3,4) "1.prems"] w1 by simp
  next
    case False
    then have "snd (fetch_pages api k off paths w) = w1"
      using r by (subst fetch_pages.simps) (auto simp: Let_def split: sum.splits outcome.splits)
    then show ?thesis using w1 by simp
  qed
qed

lemma retriever_keeps:
  assumes "apart stored authn api" and "NewSecretRetriever recorded rt (GetAccessToken authn url_path getenv) api auth = Inr f"
  shows "keeps_secrets stored f"
  unfolding keeps_secrets_def
proof (intro allI)
  fix ids u
  obtain q w1 where t: "GetAccessToken authn url_path getenv auth u = (q, w1)" by (metis surj_pair)
  have w1: "stored w1 = stored u" using token_keeps [OF assms(1), of url_path getenv auth u] t by simp
  have all: "stored (snd (snd (retrieveConjurSecretsAll recorded rt api c w1))) = stored w1" for c
    using pages_keep [OF assms(1), of fetchAllMaxSecrets 0 "[]" w1]
    by (auto simp: retrieveConjurSecretsAll_def dest!: batch_keeps [OF assms(1)] split: prod.splits outcome.splits sum.splits)
  have named: "stored (snd (snd (retrieveConjurSecrets_ids recorded rt api ids c w1))) = stored w1" for c
    by (auto simp: retrieveConjurSecrets_ids_def dest!: batch_keeps [OF assms(1)] split: prod.splits sum.splits)
  show "stored (snd (f ids u)) = stored u"
    using assms(2) t w1 all named apartD(10) [OF assms(1)]
    by (auto simp: NewSecretRetriever_def Retrieve_def Let_def case_prod_unfold split: sum.splits)
qed

section \<open>From the start-up to the attempts\<close>

text \<open>The retry library returns only what its attempts give.\<close>

definition retry_exact :: "('x, 'e) retryNotify \<Rightarrow> bool" where
  "retry_exact retry \<longleftrightarrow>
     (\<forall>op reset nextb notify x r x'. retry op reset nextb notify x = Some (r, x') \<longrightarrow> attempts op nextb notify (reset x) r x')"

definition k8s_config :: "Config \<Rightarrow> K8sProviderConfig" where
  "k8s_config cfg = \<lparr>kc_PodNamespace = PodNamespace cfg, kc_RequiredK8sSecrets = RequiredK8sSecrets cfg\<rparr>"

lemma boot_provider:
  assumes "boot (default_deps deps authn conjur url_path a) annotsPath secretsBase templatesBase a = BootRun config provide retriever informer a1"
    and "processAnnotations (p2f_fs (app_files a)) annotsPath [] = (None, annots)"
    and "setupSecretsConfig (bd_ParseDuration deps) (bd_getenv deps) annots = Inr cfg" and "StoreType cfg = K8s"
  shows "provide = k8s_provider_func ((bd_env deps)\<lparr>re_retrieve := retriever\<rparr>)
    \<and> (\<exists>auth. NewSecretRetriever (re_recorded (bd_env deps)) (re_order (bd_env deps)) (GetAccessToken authn url_path (bd_getenv deps)) conjur auth
         = Inr retriever)
    \<and> K8sProviderInstance a1 = Some (newProvider (SanitizeEnabled cfg) (k8s_config cfg)) \<and> app_world a1 = app_world a"
proof -
  let ?deps = "default_deps deps authn conjur url_path a"
  have d: "bd_getenv ?deps = bd_getenv deps" "bd_ParseDuration ?deps = bd_ParseDuration deps"
    "bd_providerFactory ?deps = (\<lambda>retrieve. NewProviderForType ((bd_env deps)\<lparr>re_retrieve := retrieve\<rparr>))"
    "bd_retrieverFactory ?deps = NewSecretRetriever (re_recorded (bd_env deps)) (re_order (bd_env deps))
       (GetAccessToken authn url_path (bd_getenv deps)) conjur"
    by (simp_all add: default_deps_def)
  obtain tr where tr: "createTracer (bd_NewTracerProvider ?deps) (getTracerConfig (bd_getenv deps) (p2f_fs (app_files a)) annotsPath) = (None, tr)"
    using assms(1) by (auto simp: boot_def Let_def d(1) split: prod.splits option.splits)
  obtain ret where ret: "secretRetriever ?deps annots = Inr ret"
    using assms(1,2) tr by (auto simp: boot_def Let_def d(1) split: sum.splits)
  have prov: "secretsProvider ?deps secretsBase templatesBase annots ret a
      = (Inr (k8s_provider_func ((bd_env deps)\<lparr>re_retrieve := ret\<rparr>), cfg),
         a\<lparr>K8sProviderInstance := Some (newProvider (SanitizeEnabled cfg) (k8s_config cfg))\<rparr>)"
    using assms(3,4) by (simp add: secretsProvider_def d NewProviderForType_def k8s_config_def Let_def)
  have "retriever = ret \<and> provide = k8s_provider_func ((bd_env deps)\<lparr>re_retrieve := ret\<rparr>)
      \<and> K8sProviderInstance a1 = Some (newProvider (SanitizeEnabled cfg) (k8s_config cfg)) \<and> app_world a1 = app_world a"
    using assms(1,2) tr ret prov by (auto simp: boot_def Let_def d(1) split: sum.splits if_splits)
  moreover have "\<exists>auth. bd_retrieverFactory ?deps auth = Inr ret"
    using ret by (auto simp: secretRetriever_def split: sum.splits)
  ultimately show ?thesis by (simp add: d(4))
qed

lemma on_files_keeps: "on_files f a = (e, a') \<Longrightarrow> K8sProviderInstance a' = K8sProviderInstance a \<and> app_world a' = app_world a"
  by (auto simp: on_files_def split: prod.splits)

lemma setReady_keeps [simp]:
  "K8sProviderInstance (setReady err a) = K8sProviderInstance a" "app_world (setReady err a) = app_world a"
  by (simp_all add: setReady_def split: option.splits)

lemma retried_delivers:
  assumes "retry_exact retry" and env: "sound_env env stored conjur config"
    and plain: "plain_secrets (re_yaml_map env) (kc_RequiredK8sSecrets config) before"
    and btw: "between env stored sanitize config before a"
    and run: "fst (with_retry retry rc (k8s_provider_func env) a0) a = Some (Ret (u, None), a')"
  shows "delivered (re_yaml_map env) sanitize conjur (kc_RequiredK8sSecrets config) before (stored (app_world a'))"
proof (cases "RetryInterval rc > 0")
  case False
  then have "k8s_provider_func env a = Some (Ret (u, None), a')" using run by (simp add: with_retry_def)
  then show ?thesis by (rule last_attempt_delivers [OF env plain btw])
next
  case True
  let ?on = "if httpServer a0 \<noteq> None then Some (\<lambda>err. setReady (Some err)) else None"
  obtain u' e' where "retry (retry_op (k8s_provider_func env)) retry_reset retry_next (retry_notify ?on) (a, False, None)
      = Some (Ret None, (a', u', e'))"
    using run True by (auto simp: with_retry_def RetryableSecretProvider_def split: option.splits outcome.splits prod.splits)
  then have att: "attempts (retry_op (k8s_provider_func env)) retry_next (retry_notify ?on) (retry_reset (a, False, None)) (Ret None) (a', u', e')"
    using assms(1) unfolding retry_exact_def by blast
  have "between env stored sanitize config before (fst (retry_reset (a, False, None)))" using btw by (simp add: retry_reset_def between_def)
  then have "\<exists>a1 v. between env stored sanitize config before a1 \<and> k8s_provider_func env a1 = Some (Ret (v, None), fst (a', u', e'))"
    by (rule attempts_success [OF att refl env plain]) (auto split: if_splits)
  then obtain a1 v where "between env stored sanitize config before a1" "k8s_provider_func env a1 = Some (Ret (v, None), a')" by auto
  then show ?thesis by (rule last_attempt_delivers [OF env plain])
qed

section \<open>Properties\<close>

text \<open>
  (C1) The whole program, from exit code to cluster: if a container in a one-time mode, configured
  for Kubernetes Secrets with a list of names, exits with code 0, then the cluster holds what the
  conjur-maps ask for. Every named Secret was there and differs from before only in the keys that
  the provider manages; each key of its conjur-map has the value that the Conjur server has for
  its variable, or is empty if there is none and sanitizing is on; no other Secret changed. The
  annotations, the settings, any of the authenticators, either interface of the server, the map
  orders of Go and any number of failed attempts lie between. The conjur-maps are plain and do not
  manage themselves.
\<close>

theorem init_container_delivers:
  assumes start: "StartSecretsProvider deps authn conjur url_path retry a 0 a'"
    and annots: "processAnnotations (p2f_fs (app_files a)) defaultAnnotationsFilePath [] = (None, annots)"
    and mode: "getContainerMode (bd_getenv deps) annots \<noteq> ''sidecar''" "getContainerMode (bd_getenv deps) annots \<noteq> ''standalone''"
    and cfg: "setupSecretsConfig (bd_ParseDuration deps) (bd_getenv deps) annots = Inr cfg" "StoreType cfg = K8s"
    and names: "RequiredK8sSecrets cfg \<noteq> []" "distinct (RequiredK8sSecrets cfg)"
    and retry: "retry_exact retry" and kube: "kube_store (re_api (bd_env deps)) (PodNamespace cfg) stored"
    and inj: "inj (re_sha256 (bd_env deps))" and rt: "range_order_ok (re_order (bd_env deps))"
    and yaml: "yaml_map_ok (re_yaml_map (bd_env deps))"
    and server: "conjur_server conjur account vals" and apart: "apart stored authn conjur"
    and plain: "plain_secrets (re_yaml_map (bd_env deps)) (RequiredK8sSecrets cfg) (stored (app_world a))"
  shows "delivered (re_yaml_map (bd_env deps)) (SanitizeEnabled cfg) vals (RequiredK8sSecrets cfg) (stored (app_world a)) (stored (app_world a'))"
proof -
  obtain config provide retriever informer a1 a2 u a3
    where b: "boot (default_deps deps authn conjur url_path a) defaultAnnotationsFilePath defaultSecretsBasePath defaultTemplatesBasePath a
        = BootRun config provide retriever informer a1"
      and copy: "on_files (su_CopyScripts NewStatusUpdater) (snd (with_retry retry config provide a1)) = (None, a2)"
      and run: "fst (with_retry retry config provide a1) a2 = Some (Ret (u, None), a3)"
      and fin: "on_files (su_SetSecretsProvided NewStatusUpdater) (setReady None a3) = (None, a')"
    using init_exit_zero [OF start annots mode] by blast
  let ?env = "(bd_env deps)\<lparr>re_retrieve := retriever\<rparr>"
  note p = boot_provider [OF b annots cfg]
  obtain auth where ret: "NewSecretRetriever (re_recorded (bd_env deps)) (re_order (bd_env deps)) (GetAccessToken authn url_path (bd_getenv deps))
      conjur auth = Inr retriever" using p by blast
  have "serves vals retriever" "keeps_secrets stored retriever"
    using retriever_serves [OF rt server ret] retriever_keeps [OF apart ret] .
  then have env: "sound_env ?env stored vals (k8s_config cfg)"
    using kube inj rt yaml names by (simp add: sound_env_def k8s_config_def)
  have a2: "K8sProviderInstance a2 = Some (newProvider (SanitizeEnabled cfg) (k8s_config cfg))" "app_world a2 = app_world a"
    using on_files_keeps [OF copy] p by (simp_all add: with_retry_def)
  then have "between ?env stored (SanitizeEnabled cfg) (k8s_config cfg) (stored (app_world a)) a2"
    by (auto simp: between_def evolves_refl intro: history.fresh)
  moreover have "provide = k8s_provider_func ?env" using p by blast
  ultimately have "delivered (re_yaml_map ?env) (SanitizeEnabled cfg) vals (kc_RequiredK8sSecrets (k8s_config cfg)) (stored (app_world a)) (stored (app_world a3))"
    using retried_delivers [OF retry env] plain run by (simp add: k8s_config_def)
  then show ?thesis using on_files_keeps [OF fin] by (simp add: k8s_config_def)
qed

subsection \<open>Witness\<close>

text \<open>The documented retry loop returns only what its attempts give.\<close>

lemma retry_loop_exact: "retry_exact (\<lambda>op reset nextb notify x. retry_loop op nextb notify (reset x))"
proof -
  have "attempts op nextb notify x (fst y) (snd y)" if "retry_loop op nextb notify x = Some y"
    for op nextb notify and x :: 'a and y :: "'b option outcome \<times> 'a"
  proof (rule retry_loop.raw_induct [where P = "\<lambda>op nextb notify x y. attempts op nextb notify x (fst y) (snd y)"
        and xa = "(((op, nextb), notify), x)" and y = y, unfolded prod.case])
    fix loop :: "('a \<Rightarrow> ('b option outcome \<times> 'a) option) \<Rightarrow> ('a \<Rightarrow> int \<times> 'a) \<Rightarrow> ('b \<Rightarrow> int \<Rightarrow> 'a \<Rightarrow> 'a) \<Rightarrow> 'a
        \<Rightarrow> ('b option outcome \<times> 'a) option"
      and op nextb notify x y
    assume ih: "\<And>op nextb notify x y. loop op nextb notify x = Some y \<Longrightarrow> attempts op nextb notify x (fst y) (snd y)"
      and run: "(case op x of None \<Rightarrow> None
        | Some (res, x1) \<Rightarrow> (case the_error res of None \<Rightarrow> Some (res, x1)
           | Some e \<Rightarrow> (case nextb x1 of (d, x2) \<Rightarrow> if d = Stop then Some (res, x2) else loop op nextb notify (notify e d x2)))) = Some y"
    obtain res x1 where op: "op x = Some (res, x1)" using run by (auto split: option.splits)
    show "attempts op nextb notify x (fst y) (snd y)"
    proof (cases "the_error res")
      case None
      then show ?thesis using run op by (cases res) (auto intro: attempts.intros)
    next
      case (Some e)
      then show ?thesis using run op ih by (cases res; cases "nextb x1") (auto split: if_splits intro: attempts.intros)
    qed
  qed (rule that)
  then show ?thesis by (force simp: retry_exact_def)
qed

text \<open>An init container with one named Secret and a server that has its variables.\<close>

definition named_env :: "string \<Rightarrow> string" where
  "named_env k = (if k = ''K8S_SECRETS'' then ''app'' else init_env k)"

definition named_authn :: "(unit, 'w) authn_api" where
  "named_authn = \<lparr>aa_NewClient = (\<lambda>_ _ _. None), aa_InternalAuthenticate = (\<lambda>_ _ w. (Inr ''token'', w)),
     aa_NewConfigFromCustomEnv = (\<lambda>_ _. Inr ()), aa_NewAccessToken = (\<lambda>w. (None, w)),
     aa_NewAuthenticatorWithAccessToken = (\<lambda>_ w. (None, w)), aa_AuthenticateWithContext = (\<lambda>_ w. (None, w)),
     aa_ReadToken = (\<lambda>_. Inr ''token''), aa_OverwriteToken = (\<lambda>_ w. w), aa_DeleteToken = (\<lambda>w. w)\<rparr>"

definition named_conjur :: "'w conjur_api" where
  "named_conjur = \<lparr>ca_LoadConfig = (\<lambda>_. None), ca_NewClientFromToken = (\<lambda>_ _. None), ca_hasV2 = (\<lambda>_. True),
     ca_BatchRetrieveSecrets = (\<lambda>ids w. (Inr (v2_response 403 (map_of demo_fetched) ids), w)),
     ca_RetrieveBatchSecretsSafe = (\<lambda>ids w. (Inl ''not asked'', w)), ca_Resources = (\<lambda>f w. (Inr [], w)), ca_Cleanup = (\<lambda>w. w)\<rparr>"

definition named_retriever :: "string list \<Rightarrow> 'w \<Rightarrow> (gerror + (string, string) gomap) outcome \<times> 'w" where
  "named_retriever ids w =
     (case Retrieve (\<lambda>m. m) (\<lambda>_ ks. ks) (GetAccessToken named_authn Inr named_env (IamAuthenticator ''https://conjur/authn-iam/prod''))
        named_conjur ids w of (r, _, w1) \<Rightarrow> (r, w1))"

definition store_env :: "((string, v1_secret) gomap, string) run_env" where
  "store_env = \<lparr>re_api = store_api, re_recorded = (\<lambda>m. m), re_retrieve = (\<lambda>_ w. (Ret (Inr []), w)), re_order = (\<lambda>_ ks. ks),
     re_yaml_list = demo_yamls, re_yaml_map = demo_yamlm, re_engine = id_engine, re_sha256 = (\<lambda>c. c)\<rparr>"

definition named_deps :: "((string, v1_secret) gomap, unit ConjurAuthenticator, string) boot_deps" where
  "named_deps = \<lparr>bd_getenv = named_env, bd_ParseDuration = demo_duration, bd_NewTracerProvider = (\<lambda>_ _. Inr ()),
     bd_listen = (\<lambda>addr. Inr addr), bd_addHandlerError = None, bd_authenticatorFactory = (\<lambda>_. Inl ''unset''),
     bd_retrieverFactory = (\<lambda>_. Inl ''unset''),
     bd_providerFactory = (\<lambda>_ _ a. (Inl [], a)), bd_status = NewStatusUpdater, bd_env = store_env\<rparr>"

definition named_app :: "(string, v1_secret) gomap app" where
  "named_app = \<lparr>K8sProviderInstance = None, app_files = demo_files, app_world = [(''app'', k8s_secret ''app'' ''two'')],
     httpServer = None, app_backoff = NewLimitedBackOff 1000000000 0\<rparr>"

definition named_cfg :: Config where
  "named_cfg = NewConfig demo_duration (GatherSecretsProviderSettings named_env [])"

lemma named_config:
  "fst (ValidateSecretsProviderSettings demo_duration (GatherSecretsProviderSettings named_env [])) = []"
  "StoreType named_cfg = K8s" "RetryIntervalSec named_cfg = 0" "RequiredK8sSecrets named_cfg = [''app'']"
  "PodNamespace named_cfg = ''ns''" "SanitizeEnabled named_cfg"
  "getContainerMode named_env [] = ''init''"
  by code_simp+

lemma named_run:
  "fst (provide_of (store_env\<lparr>re_retrieve := named_retriever\<rparr>) (newProvider True \<lparr>kc_PodNamespace = ''ns'', kc_RequiredK8sSecrets = [''app'']\<rparr>)
     [(''app'', k8s_secret ''app'' ''two'')]) = Ret (True, None)"
  by code_simp

lemma named_laws:
  "conjur_server named_conjur account (map_of demo_fetched)" "apart stored named_authn named_conjur"
  by (simp_all add: conjur_server_def apart_def named_conjur_def named_authn_def v2_response_answers)

lemma named_secret:
  "store_get [(''app'', k8s_secret ''app'' ''two'')] ''app'' = Some (k8s_secret ''app'' ''two'')"
  "spec_map demo_yamlm (k8s_secret ''app'' ''two'')
     = [(''pw'', YStr ''db/pw''), (''cert'', YMap [(''id'', YStr ''web/cert''), (''content-type'', YStr ''base64'')])]"
  by code_simp+

lemma named_values:
  "entry_spec (YStr ''db/pw'') = Some (''db/pw'', ''text'')"
  "entry_spec (YMap [(''id'', YStr ''web/cert''), (''content-type'', YStr ''base64'')]) = Some (''web/cert'', ''base64'')"
  "map_of demo_fetched ''db/pw'' = Some ''s3cret''" "map_of demo_fetched ''web/cert'' = Some ''aGk=''"
  "decode_value ''text'' ''s3cret'' = ''s3cret''" "decode_value ''base64'' ''aGk='' = ''hi''"
  by code_simp+

lemma named_plain: "plain_secrets demo_yamlm [''app''] (store_get [(''app'', k8s_secret ''app'' ''two'')])"
proof -
  show ?thesis
    by (simp add: plain_secrets_def plain_map_def managed_def named_secret) (simp add: entry_spec_def string_at_def valid_key_def k8s_key_char_def
        plain_variable_def k8s_secret_def ghas_iff)
qed

text \<open>A one-time run on the image's files, without retries, whose provider succeeds.\<close>

lemma image_run:
  assumes "app_files a1 = demo_files" and "RunOnce config" and "RetryInterval config = 0"
    and ok: "\<And>a. K8sProviderInstance a = K8sProviderInstance a1 \<Longrightarrow> app_world a = app_world a1 \<Longrightarrow>
       \<exists>u a3. provide a = Some (Ret (u, None), a3) \<and> app_files a3 = app_files a"
  shows "\<exists>a'. RunSecretsProvider env retry config provide NewStatusUpdater a1 None a'"
proof -
  have c: "fst (on_files (su_CopyScripts NewStatusUpdater) a1) = None"
    "p2f_fs (app_files (snd (on_files (su_CopyScripts NewStatusUpdater) a1))) = snd (CopyScripts default_updater image_fs)"
    using assms(1) image_fs_ok(2) by (simp_all add: on_files_def NewStatusUpdater_def demo_files_def case_prod_unfold)
  obtain a2 where a2: "on_files (su_CopyScripts NewStatusUpdater) a1 = (None, a2)" using c(1) by (metis prod.collapse)
  obtain u a3 where k: "provide a2 = Some (Ret (u, None), a3)" "app_files a3 = app_files a2"
    using ok [of a2] on_files_keeps [OF a2] by auto
  have "p2f_fs (app_files (setReady None a3)) = snd (CopyScripts default_updater image_fs)"
    using c(2) a2 k(2) by (simp add: setReady_def split: option.splits)
  then have "fst (on_files (su_SetSecretsProvided NewStatusUpdater) (setReady None a3)) = None"
    using init_sentinel by (simp add: on_files_def NewStatusUpdater_def case_prod_unfold)
  then obtain a' where "on_files (su_SetSecretsProvided NewStatusUpdater) (setReady None a3) = (None, a')" by (metis prod.collapse)
  then have "run_start_phase config provide NewStatusUpdater a1 = Some (StartReturned None, a')"
    using a2 k(1) assms(2) by (simp add: run_start_phase_def)
  then show ?thesis using assms(3) by (auto simp: RunSecretsProvider_def with_retry_def)
qed

lemma named_boot:
  "boot (default_deps named_deps named_authn named_conjur Inr named_app) defaultAnnotationsFilePath defaultSecretsBasePath
       defaultTemplatesBasePath named_app
     = BootRun (refresh_config ''init'' named_cfg) (k8s_provider_func (store_env\<lparr>re_retrieve := named_retriever\<rparr>)) named_retriever False
         (named_app\<lparr>K8sProviderInstance := Some (newProvider True (k8s_config named_cfg))\<rparr>)"
proof -
  let ?deps = "default_deps named_deps named_authn named_conjur Inr named_app"
  have fs: "p2f_fs (app_files named_app) = image_fs" by (simp add: named_app_def demo_files_def)
  have g: "bd_getenv ?deps = named_env" "bd_NewTracerProvider ?deps = (\<lambda>_ _. Inr ())" by (simp_all add: default_deps_def named_deps_def)
  have url: "customEnv named_env [] ''CONJUR_AUTHN_URL'' = ''https://conjur/authn-iam/prod''"
    by (simp add: customEnv_def envAnnotationsConversion_def named_env_def init_env_def gget_def)
  have ret: "secretRetriever ?deps [] = Inr named_retriever"
    using init_config(6,7,8)
    by (simp add: secretRetriever_def g NewSecretRetriever_def default_deps_def named_deps_def store_env_def NewAuthenticator_def url Let_def
        named_retriever_def [abs_def])
  have prov: "secretsProvider ?deps defaultSecretsBasePath defaultTemplatesBasePath [] named_retriever named_app
      = (Inr (k8s_provider_func (store_env\<lparr>re_retrieve := named_retriever\<rparr>), named_cfg),
         named_app\<lparr>K8sProviderInstance := Some (newProvider True (k8s_config named_cfg))\<rparr>)"
    using named_config(1,2,6)
    by (simp add: secretsProvider_def setupSecretsConfig_def named_cfg_def [symmetric] default_deps_def named_deps_def
        logErrorsAndInfos_def NewProviderForType_def k8s_config_def Let_def)
  show ?thesis by (simp add: boot_def createTracer_def fs g init_annotations ret prov named_config(7) refresh_config_def Let_def)
qed

theorem init_container_delivers_witness:
  "\<exists>a' s'. StartSecretsProvider named_deps named_authn named_conjur Inr (\<lambda>op reset nextb notify x. retry_loop op nextb notify (reset x)) named_app 0 a'
     \<and> store_get (app_world a') ''app'' = Some s' \<and> map_of (data_of s') ''pw'' = Some ''s3cret''
     \<and> map_of (data_of s') ''cert'' = Some ''hi'' \<and> map_of (data_of s') ConjurMapKey = Some ''two''"
proof -
  let ?retry = "\<lambda>op reset nextb notify x. retry_loop op nextb notify (reset x)" and ?env = "store_env\<lparr>re_retrieve := named_retriever\<rparr>"
  let ?p = "newProvider True (k8s_config named_cfg)" and ?w = "[(''app'', k8s_secret ''app'' ''two'')]"
  have kc: "k8s_config named_cfg = \<lparr>kc_PodNamespace = ''ns'', kc_RequiredK8sSecrets = [''app'']\<rparr>" using named_config by (simp add: k8s_config_def)
  have ok: "\<exists>u a3. k8s_provider_func ?env a = Some (Ret (u, None), a3) \<and> app_files a3 = app_files a"
    if "K8sProviderInstance a = Some ?p" "app_world a = ?w" for a
    using that named_run by (auto simp: kc k8s_provider_func_def instance_cleanup_def k8s_Provide_def case_prod_unfold)
  have cfg: "RunOnce (refresh_config ''init'' named_cfg)" "RetryInterval (refresh_config ''init'' named_cfg) = 0"
    using named_config(3) by (simp_all add: refresh_config_def int64_def Let_def)
  have "\<exists>a'. RunSecretsProvider ?env ?retry (refresh_config ''init'' named_cfg) (k8s_provider_func ?env) NewStatusUpdater
      (named_app\<lparr>K8sProviderInstance := Some ?p\<rparr>) None a'"
    by (rule image_run [OF _ cfg]) (use ok in \<open>simp_all add: named_app_def\<close>)
  then obtain a' where "RunSecretsProvider ?env ?retry (refresh_config ''init'' named_cfg) (k8s_provider_func ?env) NewStatusUpdater
      (named_app\<lparr>K8sProviderInstance := Some ?p\<rparr>) None a'" by blast
  then have start: "StartSecretsProvider named_deps named_authn named_conjur Inr ?retry named_app 0 a'"
    using named_boot by (auto simp: StartSecretsProvider_def startSecretsProviderWithDeps_def default_deps_def named_deps_def)
  have "processAnnotations (p2f_fs (app_files named_app)) defaultAnnotationsFilePath [] = (None, [])"
    "getContainerMode (bd_getenv named_deps) [] \<noteq> ''sidecar''" "getContainerMode (bd_getenv named_deps) [] \<noteq> ''standalone''"
    "setupSecretsConfig (bd_ParseDuration named_deps) (bd_getenv named_deps) [] = Inr named_cfg"
    using init_annotations named_config(1,7)
    by (simp_all add: named_app_def demo_files_def named_deps_def setupSecretsConfig_def named_cfg_def logErrorsAndInfos_def)
  from init_container_delivers [OF start this named_config(2) _ _ retry_loop_exact _ _ _ _ named_laws, where stored = store_get]
  have d: "delivered demo_yamlm True (map_of demo_fetched) [''app''] (store_get ?w) (store_get (app_world a'))"
    using store_api_kube demo_yaml_ok named_plain named_config(4,6)
    by (simp add: named_deps_def store_env_def named_app_def range_order_id)
  then obtain s' where s': "store_get (app_world a') ''app'' = Some s'" "touched demo_yamlm (k8s_secret ''app'' ''two'') s'"
      "\<forall>key y v ct. map_of (spec_map demo_yamlm (k8s_secret ''app'' ''two'')) key = Some y \<longrightarrow> entry_spec y = Some (v, ct) \<longrightarrow>
         (case map_of demo_fetched v of Some x \<Rightarrow> map_of (data_of s') key = Some (decode_value ct x)
          | None \<Rightarrow> True \<longrightarrow> map_of (data_of s') key = Some [])"
    using spec [OF d [unfolded delivered_def], of "''app''"] named_secret(1) by (auto simp: k8s_secret_def ghas_iff)
  have "map_of (data_of s') ''pw'' = Some ''s3cret''" "map_of (data_of s') ''cert'' = Some ''hi''"
    using s'(3) [rule_format, OF _ named_values(1), of "''pw''"] s'(3) [rule_format, OF _ named_values(2), of "''cert''"]
    by (simp_all add: named_secret(2) named_values)
  moreover have "ConjurMapKey \<notin> managed demo_yamlm (k8s_secret ''app'' ''two'')"
    using named_plain named_secret(1) unfolding plain_secrets_def by simp
  then have "map_of (data_of s') ConjurMapKey = Some ''two''" using s'(2) by (simp add: touched_def) (simp add: k8s_secret_def data_of_def)
  ultimately show ?thesis using start s'(1) by blast
qed

end
