(* ===== verification/Refused_Access.thy ===== *)
theory Refused_Access
  imports Delivery
begin

text \<open>
  What becomes of access that was taken away: a Conjur server that answers but gives no variable,
  the retriever that asks it, and the two providers, which look for a code in the text of the
  error before they sanitize.
\<close>

section \<open>A server that refuses every variable\<close>

text \<open>It can be reached and has the version 2 interface, but gives no value, whatever the statuses.\<close>

definition refuses :: "'w conjur_api \<Rightarrow> bool" where
  "refuses api \<longleftrightarrow>
     (\<forall>w. ca_LoadConfig api w = None \<and> ca_hasV2 api w \<and> (\<forall>t. ca_NewClientFromToken api t w = None)
        \<and> (\<forall>ids. \<exists>resp w'. ca_BatchRetrieveSecrets api ids w = (Inr resp, w') \<and> v2_answer (\<lambda>_. None) ids resp))"

text \<open>The retriever of the program then fails with CSPFK092E, for any variables by name.\<close>

lemma refused_retrieval:
  assumes "refuses api" and "\<forall>w. \<exists>t w'. tok auth w = (Inr t, w')" and "NewSecretRetriever recorded rt tok api auth = Inr f"
    and "ids \<noteq> []" and "ids \<noteq> [''*'']"
  shows "\<exists>w'. f ids w = (Ret (Inl CSPFK092E), w')"
proof -
  obtain t w1 where t: "tok auth w = (Inr t, w1)" using assms(2) by blast
  have new: "NewConjurClient recorded api t w1 = Inr \<lparr>useV2 = True\<rparr>"
    using assms(1) by (simp add: refuses_def NewConjurClient_def)
  obtain resp w2 where b: "ca_BatchRetrieveSecrets api (map normaliseVariableId ids) w1 = (Inr resp, w2)"
      "v2_answer (\<lambda>_. None) (map normaliseVariableId ids) resp"
    using assms(1) unfolding refuses_def by blast
  have "\<forall>s\<in>set resp. bs_Status s \<noteq> 200" using b(2) by (simp add: v2_answer_def)
  then have "retrieveConjurSecrets_ids recorded rt api ids \<lparr>useV2 = True\<rparr> w1 = (Inl CSPFK092E, \<lparr>useV2 = True\<rparr>, w2)"
    using v2_refusal [OF _ b(1)] assms(1,4) by (simp add: refuses_def)
  moreover have "\<not> (length ids = 1 \<and> hd ids = ''*'')" using assms(5) by (cases ids) auto
  ultimately show ?thesis
    using assms(3) by (auto simp: NewSecretRetriever_def Retrieve_def t new Let_def simp del: length_0_conv)
qed

section \<open>The providers\<close>

text \<open>The error has none of the codes, as it is and wrapped by the Kubernetes provider.\<close>

lemma refusal_not_recognised: "\<not> access_revoked CSPFK092E" "\<not> revoked_error (CSPFK034E CSPFK092E)"
  by code_simp+

text \<open>
  (C37) Lost access is not recognised: when the version 2 interface refuses every variable, with
  403, 404 or whatever statuses, the providers do not sanitize, although sanitizing may be
  enabled. The file provider reports CSPFK092E, no update, and leaves all files and checksums as
  they are; the Kubernetes provider reports that error, wrapped, and no update, and all it has
  done is to read the Secrets and to ask Conjur.
\<close>

theorem v2_refusal_hides_reason:
  fixes env :: "('w, 'tpl) run_env"
  assumes "refuses api" and "\<forall>w. \<exists>t w'. tok auth w = (Inr t, w')"
    and "NewSecretRetriever (re_recorded env) (re_order env) tok api auth = Inr (re_retrieve env)"
    and "\<forall>m. re_recorded env m = m"
  shows "(\<forall>p a. getAllPaths (re_order env) (secretGroups p) \<notin> {[], [''*'']} \<longrightarrow>
       file_provider_func env p a =
         Some (Ret (False, Some (FileFailed (FetchFailed CSPFK092E))),
           a\<lparr>app_world := snd (re_retrieve env (getAllPaths (re_order env) (secretGroups p)) (app_world a))\<rparr>))
     \<and> (\<forall>q a p1 w1 ids. K8sProviderInstance a = Some q
         \<and> retrieveRequiredK8sSecrets (provider_deps (re_recorded env) (re_api env) (re_retrieve env)) (re_yaml_list env) (re_yaml_map env)
             q (app_world a) = (Ret None, p1, w1)
         \<and> listConjurSecretsToFetch (re_recorded env) (re_order env) p1 = Inr ids \<and> ids \<notin> {[], [''*'']} \<longrightarrow>
       k8s_provider_func env a =
         Some (Ret (False, Some (K8sFailed (CSPFK034E (CSPFK034E CSPFK092E)))),
           a\<lparr>K8sProviderInstance := Some (clear_state p1), app_world := snd (re_retrieve env ids w1)\<rparr>))"
proof (intro conjI allI impI)
  note refused = refused_retrieval [where tok = tok, OF assms(1,2,3)]
  fix p :: fileProvider and a :: "'w app"
  assume "getAllPaths (re_order env) (secretGroups p) \<notin> {[], [''*'']}"
  then obtain w' where w': "re_retrieve env (getAllPaths (re_order env) (secretGroups p)) (app_world a) = (Ret (Inl CSPFK092E), w')"
    using refused by blast
  then show "file_provider_func env p a =
      Some (Ret (False, Some (FileFailed (FetchFailed CSPFK092E))),
        a\<lparr>app_world := snd (re_retrieve env (getAllPaths (re_order env) (secretGroups p)) (app_world a))\<rparr>)"
    by (simp add: file_provider_func_def Provide_def provideWithDeps_def FetchSecretsForGroups_def refusal_not_recognised)
next
  note refused = refused_retrieval [where tok = tok, OF assms(1,2,3)]
  let ?deps = "provider_deps (re_recorded env) (re_api env) (re_retrieve env)"
  fix q :: K8sProvider and a :: "'w app" and p1 :: K8sProvider and w1 :: 'w and ids :: "string list"
  assume h: "K8sProviderInstance a = Some q
      \<and> retrieveRequiredK8sSecrets ?deps (re_yaml_list env) (re_yaml_map env) q (app_world a) = (Ret None, p1, w1)
      \<and> listConjurSecretsToFetch (re_recorded env) (re_order env) p1 = Inr ids \<and> ids \<notin> {[], [''*'']}"
  then obtain w2 where w2: "re_retrieve env ids w1 = (Ret (Inl CSPFK092E), w2)" using refused by blast
  have "\<not> (length (updateDestinations p1) = 0 \<and> length (secretsGroups p1) = 0)"
    using h by (auto simp: listConjurSecretsToFetch_def)
  moreover have "retrieveConjurSecrets ?deps (re_order env) p1 w1 = (Ret (Inl (CSPFK034E CSPFK092E)), w2)"
    using h w2 assms(4) by (simp add: retrieveConjurSecrets_def provider_deps_def)
  ultimately have "provide_body ?deps (re_order env) (re_yaml_list env) (re_yaml_map env) (re_engine env) (re_sha256 env) [] q (app_world a)
      = (Ret (False, Some (CSPFK034E (CSPFK034E CSPFK092E))), p1, w2)"
    using h assms(4) refusal_not_recognised(2) by (auto simp: provide_body_def provider_deps_def)
  then show "k8s_provider_func env a =
      Some (Ret (False, Some (K8sFailed (CSPFK034E (CSPFK034E CSPFK092E)))),
        a\<lparr>K8sProviderInstance := Some (clear_state p1), app_world := snd (re_retrieve env ids w1)\<rparr>)"
    using h w2 by (simp add: k8s_provider_func_def instance_cleanup_def ProvideWithCleanup_def)
qed

text \<open>A server that refuses everything with 403, a Secret in the cluster and a group of files.\<close>

definition refusing_conjur :: "(string, v1_secret) gomap conjur_api" where
  "refusing_conjur = named_conjur\<lparr>ca_BatchRetrieveSecrets := (\<lambda>ids w. (Inr (v2_response 403 (\<lambda>_. None) ids), w))\<rparr>"

definition refused_retriever ::
  "string list \<Rightarrow> (string, v1_secret) gomap \<Rightarrow> (gerror + (string, string) gomap) outcome \<times> (string, v1_secret) gomap" where
  "refused_retriever ids w =
     (case Retrieve (\<lambda>m. m) (\<lambda>_ ks. ks) (\<lambda>w. (Inr ''token'', w)) refusing_conjur ids w of (r, _, w1) \<Rightarrow> (r, w1))"

definition refused_env :: "((string, v1_secret) gomap, string) run_env" where
  "refused_env = store_env\<lparr>re_retrieve := refused_retriever\<rparr>"

definition refused_app :: "(string, v1_secret) gomap app" where
  "refused_app = named_app\<lparr>K8sProviderInstance := Some demo_named\<rparr>"

lemma refused_laws:
  "refuses refusing_conjur" "NewSecretRetriever (re_recorded refused_env) (re_order refused_env) (\<lambda>_ w. (Inr ''token'', w)) refusing_conjur ()
     = Inr (re_retrieve refused_env)" "\<forall>m. re_recorded refused_env m = m"
proof -
  show "refuses refusing_conjur"
    using v2_response_answers [of 403 "\<lambda>_. None"] by (simp add: refuses_def refusing_conjur_def named_conjur_def)
  show "NewSecretRetriever (re_recorded refused_env) (re_order refused_env) (\<lambda>_ w. (Inr ''token'', w)) refusing_conjur ()
     = Inr (re_retrieve refused_env)"
    by (simp add: NewSecretRetriever_def refused_env_def store_env_def refused_retriever_def fun_eq_iff)
  show "\<forall>m. re_recorded refused_env m = m" by (simp add: refused_env_def store_env_def)
qed

theorem v2_refusal_hides_reason_witness:
  "(\<exists>a'. file_provider_func refused_env (demo_provider (Inr [])) refused_app
       = Some (Ret (False, Some (FileFailed (FetchFailed CSPFK092E))), a') \<and> app_files a' = app_files refused_app)
   \<and> (\<exists>a'. k8s_provider_func refused_env refused_app = Some (Ret (False, Some (K8sFailed (CSPFK034E (CSPFK034E CSPFK092E)))), a')
       \<and> app_world a' = app_world refused_app)"
proof
  note fact = v2_refusal_hides_reason [where tok = "\<lambda>_ w. (Inr ''token'', w)", OF refused_laws(1) _ refused_laws(2,3)]
  have "getAllPaths (re_order refused_env) (secretGroups (demo_provider (Inr []))) \<notin> {[], [''*'']}"
    by code_simp
  with fact show "\<exists>a'. file_provider_func refused_env (demo_provider (Inr [])) refused_app
       = Some (Ret (False, Some (FileFailed (FetchFailed CSPFK092E))), a') \<and> app_files a' = app_files refused_app"
    by simp
  let ?r = "retrieveRequiredK8sSecrets (provider_deps (re_recorded refused_env) (re_api refused_env) (re_retrieve refused_env))
      (re_yaml_list refused_env) (re_yaml_map refused_env) demo_named (app_world refused_app)"
  have r: "fst ?r = Ret None" "listConjurSecretsToFetch (re_recorded refused_env) (re_order refused_env) (fst (snd ?r)) = Inr [''db/pw'', ''web/cert'']"
    "snd (re_retrieve refused_env [''db/pw'', ''web/cert''] (snd (snd ?r))) = app_world refused_app"
    by code_simp+
  have "K8sProviderInstance refused_app = Some demo_named" by (simp add: refused_app_def)
  then have "k8s_provider_func refused_env refused_app = Some (Ret (False, Some (K8sFailed (CSPFK034E (CSPFK034E CSPFK092E)))),
      refused_app\<lparr>K8sProviderInstance := Some (clear_state (fst (snd ?r))), app_world := snd (re_retrieve refused_env [''db/pw'', ''web/cert''] (snd (snd ?r)))\<rparr>)"
    using r(1,2) by (intro mp [OF spec [OF spec [OF spec [OF spec [OF spec [OF conjunct2 [OF fact]]]]]]]) (auto simp: prod_eq_iff)
  then show "\<exists>a'. k8s_provider_func refused_env refused_app = Some (Ret (False, Some (K8sFailed (CSPFK034E (CSPFK034E CSPFK092E)))), a')
       \<and> app_world a' = app_world refused_app"
    using r(3) by simp
qed

end
