(* ===== verification/Labeled_Facts.thy ===== *)
theory Labeled_Facts
  imports K8s_Facts
begin

text \<open>
  Labelled Secrets that are only partly valid. The provider goes on after an invalid one, but of
  what it had recorded for it only the object is forgotten; the lemmas follow the destinations
  that stay behind through the rest of the run.
\<close>

section \<open>Destinations stay\<close>











section \<open>A Secret that is forgotten half-way\<close>




section \<open>Updating an unknown Secret\<close>



section \<open>Properties\<close>





end
