(* ===== verification/Shared_Backoff.thy ===== *)
theory Shared_Backoff
  imports Retry_Facts
begin

text \<open>
  The retrying provider function is made once and its back-off lives as long as it does. In
  sidecar and standalone mode the periodic and the informer-triggered goroutine both call it, each
  through its own retry loop, and the loops share the back-off. Here one goroutine's call is run
  while the other goroutine makes whole calls of the same function in between.
\<close>

section \<open>A call that is interleaved with calls of the same function\<close>

text \<open>An attempt during which, after its own work, another goroutine makes a call that returns.\<close>

definition interleaved :: "'w ProviderFunc \<Rightarrow> 'w ProviderFunc \<Rightarrow> 'w ProviderFunc" where
  "interleaved provide other a =
     (case provide a of
        Some (Ret r, a1) \<Rightarrow>
          (case other a1 of
             Some (Ret _, a2) \<Rightarrow> Some (Ret r, a2)
           | Some (Panic, a2) \<Rightarrow> Some (Panic, a2)
           | None \<Rightarrow> None)
      | res \<Rightarrow> res)"

text \<open>Both goroutines call the same function; the one whose call is observed is interrupted in every attempt.\<close>

abbreviation shared_call ::
  "('w retry_state, run_error) retryNotify \<Rightarrow> 'w ProviderFunc \<Rightarrow> (run_error \<Rightarrow> 'w app \<Rightarrow> 'w app) option \<Rightarrow> 'w ProviderFunc" where
  "shared_call retry provide onRetry \<equiv>
     RetryableSecretProvider retry (interleaved provide (RetryableSecretProvider retry provide onRetry)) onRetry"

definition reset_app :: "'w app \<Rightarrow> 'w app" where
  "reset_app a = a\<lparr>app_backoff := Reset (app_backoff a)\<rparr>"

text \<open>The loop as a chain of failed attempts, closed by one that does not fail or by the end of the retries.\<close>

lemma attempts_chain:
  assumes "\<And>i. i < k \<Longrightarrow> op (x i) = Some (Ret (Some (e i)), y i) \<and> nextb (y i) = (d i, z i) \<and> d i \<noteq> Stop
      \<and> notify (e i) (d i) (z i) = x (Suc i)"
    and "attempts op nextb notify (x k) r x'" and "j \<le> k"
  shows "attempts op nextb notify (x j) r x'"
  using assms(3)
proof (induction j rule: inc_induct)
  case base
  show ?case by (rule assms(2))
next
  case (step i)
  have s: "op (x i) = Some (Ret (Some (e i)), y i)" "nextb (y i) = (d i, z i)" "d i \<noteq> Stop" "notify (e i) (d i) (z i) = x (Suc i)"
    using assms(1) [OF step(2)] by blast+
  show ?case using attempts.again [where op = op and nextb = nextb and notify = notify, OF s(1,2,3), of r x'] step(3) unfolding s(4) .
qed

lemma Retryable_result:
  assumes "retry_notify_ok retry"
    and "attempts (retry_op provide) retry_next (retry_notify onRetry) (reset_app a, False, None) (Ret err) (a', u, e)"
  shows "RetryableSecretProvider retry provide onRetry a = Some (Ret (u, err), a')"
proof -
  have "retry_reset (a, False, None) = (reset_app a, False, None)" by (simp add: retry_reset_def reset_app_def)
  then have "retry (retry_op provide) retry_reset retry_next (retry_notify onRetry) (a, False, None) = Some (Ret err, (a', u, e))"
    using assms unfolding retry_notify_ok_def by simp
  then show ?thesis by (cases err) (simp_all add: RetryableSecretProvider_def)
qed

text \<open>A call whose first attempt succeeds leaves the shared back-off reset.\<close>

lemma call_succeeds_at_once:
  assumes "retry_notify_ok retry" and "\<And>a. provide a = Some (Ret (fst (f a)), snd (f a))"
    and "fst (f (reset_app a)) = (u, None)"
  shows "RetryableSecretProvider retry provide onRetry a = Some (Ret (u, None), snd (f (reset_app a)))"
proof (rule Retryable_result [OF assms(1)])
  show "attempts (retry_op provide) retry_next (retry_notify onRetry) (reset_app a, False, None) (Ret None)
      (snd (f (reset_app a)), u, None)"
    by (rule attempts.succeeds) (simp add: retry_op_def assms(2,3))
qed

section \<open>More attempts than the limit\<close>

text \<open>An own attempt followed by an attempt of the other goroutine on the reset back-off.\<close>

definition twice :: "('w app \<Rightarrow> (bool \<times> run_error option) \<times> 'w app) \<Rightarrow> 'w app \<Rightarrow> (bool \<times> run_error option) \<times> 'w app" where
  "twice f a = (fst (f a), snd (f (reset_app (snd (f a)))))"

definition other_succeeds :: "('w app \<Rightarrow> (bool \<times> run_error option) \<times> 'w app) \<Rightarrow> 'w app \<Rightarrow> bool" where
  "other_succeeds f a \<longleftrightarrow> snd (fst (f (reset_app (snd (f a))))) = None"

lemma interleaved_twice:
  assumes "retry_notify_ok retry" and "\<And>a. provide a = Some (Ret (fst (f a)), snd (f a))" and "other_succeeds f a"
  shows "interleaved provide (RetryableSecretProvider retry provide onRetry) a = Some (Ret (fst (twice f a)), snd (twice f a))"
proof -
  obtain u where "fst (f (reset_app (snd (f a)))) = (u, None)"
    using assms(3) by (metis other_succeeds_def prod.collapse)
  from call_succeeds_at_once [where f = f and provide = provide and onRetry = onRetry, OF assms(1,2) this] show ?thesis
    by (simp add: interleaved_def assms(2) twice_def)
qed

lemma twice_result [simp]: "fst (twice f a) = fst (f a)"
  by (simp add: twice_def)

lemma twice_backoff:
  assumes "keeps_backoff (\<lambda>a. snd (f a))"
  shows "app_backoff (snd (twice f a)) = Reset (app_backoff a)"
  using assms by (simp add: twice_def reset_app_def keeps_backoff_def)

lemma reset_next:
  assumes "0 \<le> Interval b" and "1 \<le> RetryLimit b"
  shows "fst (NextBackOff (Reset b)) \<noteq> Stop"
    and "Interval (snd (NextBackOff (Reset b))) = Interval b" and "RetryLimit (snd (NextBackOff (Reset b))) = RetryLimit b"
  using assms by (simp_all add: NextBackOff_def Reset_def Stop_def)

lemma twice_settings:
  assumes "keeps_backoff (\<lambda>a. snd (f a))" and "\<forall>g e. onRetry = Some g \<longrightarrow> keeps_backoff (g e)"
    and "0 \<le> Interval (app_backoff a)" and "1 \<le> RetryLimit (app_backoff a)"
  shows "Interval (app_backoff (before_attempt (twice f) onRetry a i)) = Interval (app_backoff a)
    \<and> RetryLimit (app_backoff (before_attempt (twice f) onRetry a i)) = RetryLimit (app_backoff a)"
proof (induction i)
  case (Suc i)
  let ?b = "app_backoff (before_attempt (twice f) onRetry a i)"
  have "app_backoff (before_attempt (twice f) onRetry a (Suc i)) = snd (NextBackOff (Reset ?b))"
    using assms(2) twice_backoff [OF assms(1)]
    by (auto simp: keeps_backoff_def case_prod_unfold Let_def split: option.splits)
  then show ?case using reset_next [of ?b] Suc assms(3,4) by simp
qed (simp add: Reset_def)

lemma shared_call_goes_on:
  assumes "retry_notify_ok retry" and "\<And>a. provide a = Some (Ret (fst (f a)), snd (f a))"
    and keeps: "keeps_backoff (\<lambda>a. snd (f a))" "\<forall>g e. onRetry = Some g \<longrightarrow> keeps_backoff (g e)"
    and lim: "0 \<le> Interval (app_backoff a)" "1 \<le> RetryLimit (app_backoff a)"
    and fails: "\<And>i. i < k \<Longrightarrow> attempt_fails (twice f) onRetry a i" and "\<not> attempt_fails (twice f) onRetry a k"
    and others: "\<And>i. i \<le> k \<Longrightarrow> other_succeeds f (before_attempt (twice f) onRetry a i)"
  shows "shared_call retry provide onRetry a =
     Some (Ret (fst (f (before_attempt (twice f) onRetry a k))), snd (twice f (before_attempt (twice f) onRetry a k)))"
proof -
  let ?p = "interleaved provide (RetryableSecretProvider retry provide onRetry)"
  let ?s = "before_attempt (twice f) onRetry a"
  define v where "v i = (case i of 0 \<Rightarrow> (False, None) | Suc j \<Rightarrow> fst (f (?s j)))" for i
  have op: "retry_op ?p (?s i, v i) = Some (Ret (snd (fst (f (?s i)))), (snd (twice f (?s i)), fst (f (?s i))))" if "i \<le> k" for i
    using interleaved_twice [OF assms(1,2) others [OF that], of onRetry]
    by (simp add: retry_op_def twice_def case_prod_unfold split: prod.splits)
  have step: "retry_op ?p (?s i, v i) = Some (Ret (Some (the (snd (fst (f (?s i)))))), (snd (twice f (?s i)), fst (f (?s i))))
      \<and> retry_next (snd (twice f (?s i)), fst (f (?s i))) = (fst (NextBackOff (Reset (app_backoff (?s i)))),
          ((snd (twice f (?s i)))\<lparr>app_backoff := snd (NextBackOff (Reset (app_backoff (?s i))))\<rparr>, fst (f (?s i))))
      \<and> fst (NextBackOff (Reset (app_backoff (?s i)))) \<noteq> Stop
      \<and> retry_notify onRetry (the (snd (fst (f (?s i))))) (fst (NextBackOff (Reset (app_backoff (?s i)))))
          ((snd (twice f (?s i)))\<lparr>app_backoff := snd (NextBackOff (Reset (app_backoff (?s i))))\<rparr>, fst (f (?s i))) = (?s (Suc i), v (Suc i))"
    if i: "i < k" for i
  proof (intro conjI)
    have "snd (fst (f (?s i))) \<noteq> None" using fails [OF i] by (simp add: attempt_fails_def twice_def)
    then show "retry_op ?p (?s i, v i) = Some (Ret (Some (the (snd (fst (f (?s i)))))), (snd (twice f (?s i)), fst (f (?s i))))"
      using op [of i] i by auto
    show "fst (NextBackOff (Reset (app_backoff (?s i)))) \<noteq> Stop"
      using reset_next(1) [of "app_backoff (?s i)"] twice_settings [OF keeps lim, of i] lim by simp
    show "retry_notify onRetry (the (snd (fst (f (?s i))))) (fst (NextBackOff (Reset (app_backoff (?s i)))))
          ((snd (twice f (?s i)))\<lparr>app_backoff := snd (NextBackOff (Reset (app_backoff (?s i))))\<rparr>, fst (f (?s i))) = (?s (Suc i), v (Suc i))"
      by (auto simp: retry_notify_def v_def twice_backoff [OF keeps(1)] case_prod_unfold Let_def split: option.splits)
  qed (simp add: retry_next_def twice_backoff [OF keeps(1)] case_prod_unfold)
  have none: "snd (fst (f (?s k))) = None" using assms(8) by (simp add: attempt_fails_def twice_def)
  have last: "attempts (retry_op ?p) retry_next (retry_notify onRetry) (?s k, v k) (Ret None) (snd (twice f (?s k)), fst (f (?s k)))"
    by (rule attempts.succeeds) (simp add: op none)
  have "attempts (retry_op ?p) retry_next (retry_notify onRetry) (?s 0, v 0) (Ret None) (snd (twice f (?s k)), fst (f (?s k)))"
    by (rule attempts_chain [where x = "\<lambda>i. (?s i, v i)", OF step last]) simp_all
  then have "attempts (retry_op ?p) retry_next (retry_notify onRetry) (reset_app a, False, None) (Ret None)
      (snd (twice f (?s k)), fst (fst (f (?s k))), snd (fst (f (?s k))))"
    by (simp add: v_def reset_app_def)
  from Retryable_result [OF assms(1) this] show ?thesis using none by (metis prod.collapse)
qed

section \<open>Fewer attempts than the limit\<close>

text \<open>A call all of whose attempts fail leaves no retry in the shared back-off.\<close>

lemma spent_next:
  assumes "backoff_ok b" and "retry_budget b = Some 0"
  shows "NextBackOff b = (Stop, b)"
  using assms by (auto simp: backoff_defs split: if_splits)

lemma failed_call_uses_up:
  assumes "retry_notify_ok retry" and total: "\<And>a. provide a = Some (Ret (fst (f a)), snd (f a))"
    and keeps: "keeps_backoff (\<lambda>a. snd (f a))" "\<forall>g e. onRetry = Some g \<longrightarrow> keeps_backoff (g e)"
    and lim: "0 \<le> Interval (app_backoff a)" "0 \<le> RetryLimit (app_backoff a)"
    and fails: "\<And>a. snd (fst (f a)) \<noteq> None"
  shows "\<exists>r a'. RetryableSecretProvider retry provide onRetry a = Some (Ret r, a')
     \<and> backoff_ok (app_backoff a') \<and> retry_budget (app_backoff a') = Some 0"
proof -
  let ?s = "before_attempt f onRetry a" and ?k = "nat (RetryLimit (app_backoff a))"
  define v where "v i = (case i of 0 \<Rightarrow> (False, None) | Suc j \<Rightarrow> fst (f (?s j)))" for i
  define e where "e i = the (snd (fst (f (?s i))))" for i
  have op: "retry_op provide (?s i, v i) = Some (Ret (Some (e i)), (snd (f (?s i)), fst (f (?s i))))" for i
    using fails [of "?s i"] by (auto simp: retry_op_def total e_def case_prod_unfold split: prod.splits)
  have same: "app_backoff (snd (f (?s i))) = app_backoff (?s i)" for i using keeps(1) by (simp add: keeps_backoff_def)
  have nxt: "retry_next (snd (f (?s i)), fst (f (?s i))) = (fst (NextBackOff (app_backoff (?s i))),
      ((snd (f (?s i)))\<lparr>app_backoff := snd (NextBackOff (app_backoff (?s i)))\<rparr>, fst (f (?s i))))" for i
    by (simp add: retry_next_def same case_prod_unfold)
  have b: "backoff_ok (app_backoff (?s i)) \<and> retry_budget (app_backoff (?s i)) = Some (?k - i)" if "i \<le> ?k" for i
    using budget_before_attempt [OF keeps lim(1), of i] lim(2) that by simp
  have go: "fst (NextBackOff (app_backoff (?s i))) \<noteq> Stop" if "i < ?k" for i
    using limited.go_nonempty [of "app_backoff (?s i)"] b [of i] that by simp
  have noted: "retry_notify onRetry (e i) d ((snd (f (?s i)))\<lparr>app_backoff := snd (NextBackOff (app_backoff (?s i)))\<rparr>, fst (f (?s i)))
      = (?s (Suc i), v (Suc i))" for i d
    using same [of i] by (auto simp: retry_notify_def v_def e_def case_prod_unfold Let_def split: option.splits)
  let ?a' = "(snd (f (?s ?k)))\<lparr>app_backoff := app_backoff (?s ?k)\<rparr>"
  have spent: "NextBackOff (app_backoff (?s ?k)) = (Stop, app_backoff (?s ?k))" using spent_next b [of ?k] by simp
  have last: "attempts (retry_op provide) retry_next (retry_notify onRetry) (?s ?k, v ?k) (Ret (Some (e ?k))) (?a', fst (f (?s ?k)))"
    by (rule attempts.stops [where op = "retry_op provide", OF op [of ?k]]) (simp add: nxt spent)
  have "attempts (retry_op provide) retry_next (retry_notify onRetry) (?s 0, v 0) (Ret (Some (e ?k))) (?a', fst (f (?s ?k)))"
    by (rule attempts_chain [where x = "\<lambda>i. (?s i, v i)", OF _ last])
      (use op nxt go noted in blast, simp)
  then have "attempts (retry_op provide) retry_next (retry_notify onRetry) (reset_app a, False, None) (Ret (Some (e ?k)))
      (?a', fst (fst (f (?s ?k))), snd (fst (f (?s ?k))))"
    by (simp add: v_def reset_app_def)
  from Retryable_result [OF assms(1) this] show ?thesis using b [of ?k] by auto
qed

lemma shared_call_gives_up:
  assumes "retry_notify_ok retry" and total: "\<And>a. provide a = Some (Ret (fst (f a)), snd (f a))"
    and keeps: "keeps_backoff (\<lambda>a. snd (f a))" "\<forall>g e. onRetry = Some g \<longrightarrow> keeps_backoff (g e)"
    and lim: "0 \<le> Interval (app_backoff a)" "0 \<le> RetryLimit (app_backoff a)"
    and fails: "\<And>a. snd (fst (f a)) \<noteq> None"
  shows "\<exists>r a'. RetryableSecretProvider retry provide onRetry (snd (f (reset_app a))) = Some (Ret r, a')
     \<and> shared_call retry provide onRetry a = Some (Ret (fst (f (reset_app a))), a')"
proof -
  let ?a1 = "snd (f (reset_app a))"
  have "app_backoff ?a1 = Reset (app_backoff a)" using keeps(1) by (simp add: keeps_backoff_def reset_app_def)
  then have lim1: "0 \<le> Interval (app_backoff ?a1)" "0 \<le> RetryLimit (app_backoff ?a1)" using lim by (simp_all add: Reset_def)
  obtain r a' where other: "RetryableSecretProvider retry provide onRetry ?a1 = Some (Ret r, a')"
    and b: "backoff_ok (app_backoff a')" "retry_budget (app_backoff a') = Some 0"
    using failed_call_uses_up [where f = f, OF assms(1) total keeps lim1 fails] by blast
  obtain u e where e: "fst (f (reset_app a)) = (u, Some e)" using fails [of "reset_app a"] by (cases "fst (f (reset_app a))") auto
  let ?p = "interleaved provide (RetryableSecretProvider retry provide onRetry)"
  have "attempts (retry_op ?p) retry_next (retry_notify onRetry) (reset_app a, False, None) (Ret (Some e)) (a', u, Some e)"
    by (rule attempts.stops [where ?x1.0 = "(a', u, Some e)"])
      (simp_all add: retry_op_def interleaved_def total other e retry_next_def spent_next [OF b])
  from Retryable_result [OF assms(1) this] e have "shared_call retry provide onRetry a = Some (Ret (fst (f (reset_app a))), a')"
    by simp
  with other show ?thesis by blast
qed

section \<open>Property\<close>

text \<open>
  (C40) The retry limit does not hold for a call during which another goroutine calls the same
  function, because both share the back-off. Whatever the limit (at least one retry), a call goes
  on as long as its attempts fail and the calls that the other goroutine makes in between succeed,
  and returns the result of its first attempt that does not fail; and when the provider only
  fails, a call in whose first attempt the other goroutine makes a call gives up after that
  attempt: it returns the attempt's result, in the state that the other call left.
\<close>

theorem shared_backoff_loses_limit:
  assumes "retry_notify_ok retry" and "\<And>a. provide a = Some (Ret (fst (f a)), snd (f a))"
    and "keeps_backoff (\<lambda>a. snd (f a))" and "\<forall>g e. onRetry = Some g \<longrightarrow> keeps_backoff (g e)"
    and "0 \<le> Interval (app_backoff a)" and "1 \<le> RetryLimit (app_backoff a)"
  shows "(\<forall>k. (\<forall>i<k. attempt_fails (twice f) onRetry a i) \<and> \<not> attempt_fails (twice f) onRetry a k
          \<and> (\<forall>i\<le>k. other_succeeds f (before_attempt (twice f) onRetry a i)) \<longrightarrow>
          shared_call retry provide onRetry a =
            Some (Ret (fst (f (before_attempt (twice f) onRetry a k))), snd (twice f (before_attempt (twice f) onRetry a k))))
     \<and> ((\<forall>a. snd (fst (f a)) \<noteq> None) \<longrightarrow>
          (\<exists>r a'. RetryableSecretProvider retry provide onRetry (snd (f (reset_app a))) = Some (Ret r, a')
             \<and> shared_call retry provide onRetry a = Some (Ret (fst (f (reset_app a))), a')))"
proof (intro conjI allI impI)
  fix k
  assume "(\<forall>i<k. attempt_fails (twice f) onRetry a i) \<and> \<not> attempt_fails (twice f) onRetry a k
          \<and> (\<forall>i\<le>k. other_succeeds f (before_attempt (twice f) onRetry a i))"
  then show "shared_call retry provide onRetry a =
            Some (Ret (fst (f (before_attempt (twice f) onRetry a k))), snd (twice f (before_attempt (twice f) onRetry a k)))"
    by (intro shared_call_goes_on [OF assms]) auto
next
  assume "\<forall>a. snd (fst (f a)) \<noteq> None"
  then show "\<exists>r a'. RetryableSecretProvider retry provide onRetry (snd (f (reset_app a))) = Some (Ret r, a')
      \<and> shared_call retry provide onRetry a = Some (Ret (fst (f (reset_app a))), a')"
    by (intro shared_call_gives_up [OF assms(1-5)]) (use assms(6) in auto)
qed

text \<open>
  With one retry allowed: a provider that works for the other goroutine in between, whose call
  makes five attempts, and one that only fails, whose call makes a single attempt.
\<close>

definition alternating :: "nat app \<Rightarrow> (bool \<times> run_error option) \<times> nat app" where
  "alternating a = ((True, if even (app_world a) \<and> app_world a < 8 then Some (K8sFailed ''down'') else None), a\<lparr>app_world := Suc (app_world a)\<rparr>)"

definition down :: "nat app \<Rightarrow> (bool \<times> run_error option) \<times> nat app" where
  "down a = ((False, Some (K8sFailed ''down'')), a\<lparr>app_world := Suc (app_world a)\<rparr>)"

lemma alternating_world: "app_world (before_attempt (twice alternating) None (demo_app 1) i) = 2 * i"
proof (induction i)
  case 0
  show ?case by (simp add: demo_app_def)
next
  case (Suc i)
  then show ?case by (simp add: twice_def alternating_def reset_app_def)
qed

theorem shared_backoff_loses_limit_witness:
  "(\<exists>a'. shared_call (\<lambda>op reset nextb notify x. retry_loop op nextb notify (reset x))
        (\<lambda>a. Some (Ret (fst (alternating a)), snd (alternating a))) None (demo_app 1) = Some (Ret (True, None), a') \<and> app_world a' = 10)
   \<and> (\<exists>a'. shared_call (\<lambda>op reset nextb notify x. retry_loop op nextb notify (reset x))
        (\<lambda>a. Some (Ret (fst (down a)), snd (down a))) None (demo_app 1) = Some (Ret (False, Some (K8sFailed ''down'')), a'))"
proof
  have b: "0 \<le> Interval (app_backoff (demo_app 1))" "1 \<le> RetryLimit (app_backoff (demo_app 1))"
    by (simp_all add: demo_app_def NewLimitedBackOff_def)
  let ?s = "before_attempt (twice alternating) None (demo_app 1)"
  have keeps: "keeps_backoff (\<lambda>a. snd (alternating a))" by (simp add: keeps_backoff_def alternating_def)
  have run: "\<forall>i<4. attempt_fails (twice alternating) None (demo_app 1) i" "\<not> attempt_fails (twice alternating) None (demo_app 1) 4"
    "\<forall>i\<le>4. other_succeeds alternating (?s i)"
    by (simp_all add: attempt_fails_def other_succeeds_def reset_app_def alternating_def alternating_world)
  have "fst (alternating (?s 4)) = (True, None)" "app_world (snd (twice alternating (?s 4))) = 10"
    by (simp_all add: alternating_def alternating_world twice_def reset_app_def)
  with run show "\<exists>a'. shared_call (\<lambda>op reset nextb notify x. retry_loop op nextb notify (reset x))
        (\<lambda>a. Some (Ret (fst (alternating a)), snd (alternating a))) None (demo_app 1) = Some (Ret (True, None), a') \<and> app_world a' = 10"
    using conjunct1 [OF shared_backoff_loses_limit [where f = alternating and onRetry = None, OF retry_loop_ok refl keeps _ b]] by auto
  have "keeps_backoff (\<lambda>a. snd (down a))" "\<forall>a. snd (fst (down a)) \<noteq> None" by (simp_all add: keeps_backoff_def down_def)
  then show "\<exists>a'. shared_call (\<lambda>op reset nextb notify x. retry_loop op nextb notify (reset x))
        (\<lambda>a. Some (Ret (fst (down a)), snd (down a))) None (demo_app 1) = Some (Ret (False, Some (K8sFailed ''down'')), a')"
    using conjunct2 [OF shared_backoff_loses_limit [where f = down and onRetry = None, OF retry_loop_ok refl _ _ b]]
    by (auto simp: down_def)
qed

end
