(* ===== verification/Go_Fmt.thy ===== *)
theory Go_Fmt
  imports Go_Quote
begin

text \<open>
  Package fmt, as far as the program's messages use it: the verbs s, v, d, t, q and w without
  flags, on strings, integers, booleans and errors. A format with another verb or a flag has no
  result here. What Go writes for a verb without an argument, an argument without a verb or of the
  wrong kind is written out.
\<close>

datatype fmt_arg = FStr string | FInt int | FBool bool | FErr string string

definition decimal :: "int \<Rightarrow> string" where
  "decimal i = (if i < 0 then ''-'' @ FormatNat (nat (- i)) else FormatNat (nat i))"

primrec arg_type :: "fmt_arg \<Rightarrow> string" where
  "arg_type (FStr s) = ''string''"
| "arg_type (FInt i) = ''int''"
| "arg_type (FBool b) = ''bool''"
| "arg_type (FErr t s) = t"

primrec arg_text :: "fmt_arg \<Rightarrow> string" where
  "arg_text (FStr s) = s"
| "arg_text (FInt i) = decimal i"
| "arg_text (FBool b) = (if b then ''true'' else ''false'')"
| "arg_text (FErr t s) = s"

definition bad_verb :: "char \<Rightarrow> fmt_arg \<Rightarrow> string" where
  "bad_verb c a = ''%!'' @ [c] @ ''('' @ arg_type a @ ''='' @ arg_text a @ '')''"

text \<open>One argument; the verb w counts as v for errors, and only where errors are wrapped.\<close>

definition print_arg :: "bool \<Rightarrow> char \<Rightarrow> fmt_arg \<Rightarrow> string option" where
  "print_arg wrap c a =
     (if c = CHR ''v'' then Some (arg_text a)
      else if c = CHR ''s'' then
        (case a of FStr s \<Rightarrow> Some s | FErr t s \<Rightarrow> Some s | _ \<Rightarrow> Some (bad_verb c a))
      else if c = CHR ''d'' then
        (case a of FInt i \<Rightarrow> Some (decimal i) | FStr s \<Rightarrow> Some (bad_verb c a) | FBool b \<Rightarrow> Some (bad_verb c a) | FErr t s \<Rightarrow> None)
      else if c = CHR ''t'' then
        (case a of FBool b \<Rightarrow> Some (arg_text a) | FErr t s \<Rightarrow> None | _ \<Rightarrow> Some (bad_verb c a))
      else if c = CHR ''q'' then
        (case a of FStr s \<Rightarrow> Some (Quote s) | FErr t s \<Rightarrow> Some (Quote s) | FBool b \<Rightarrow> Some (bad_verb c a) | FInt i \<Rightarrow> None)
      else if c = CHR ''w'' \<and> wrap then
        (case a of FErr t s \<Rightarrow> Some s | _ \<Rightarrow> Some (bad_verb c a))
      else None)"

definition extra_args :: "fmt_arg list \<Rightarrow> string" where
  "extra_args as =
     (if as = [] then [] else ''%!(EXTRA '' @ JoinSep (map (\<lambda>a. arg_type a @ ''='' @ arg_text a) as) '', '' @ '')'')"

fun doPrintf :: "bool \<Rightarrow> string \<Rightarrow> fmt_arg list \<Rightarrow> string option" where
  "doPrintf wrap [] as = Some (extra_args as)"
| "doPrintf wrap [c] as = Some ((if c = CHR ''%'' then ''%!(NOVERB)'' else [c]) @ extra_args as)"
| "doPrintf wrap (c # v # rest) as =
     (if c \<noteq> CHR ''%'' then map_option ((#) c) (doPrintf wrap (v # rest) as)
      else if v = CHR ''%'' then map_option ((#) v) (doPrintf wrap rest as)
      else if v \<notin> set ''svdtqw'' then None
      else case as of
          [] \<Rightarrow> map_option ((@) (''%!'' @ [v] @ ''(MISSING)'')) (doPrintf wrap rest [])
        | a # as' \<Rightarrow> Option.bind (print_arg wrap v a) (\<lambda>t. map_option ((@) t) (doPrintf wrap rest as')))"

definition Sprintf :: "string \<Rightarrow> fmt_arg list \<Rightarrow> string option" where
  "Sprintf fmt as = doPrintf False fmt as"

definition Errorf :: "string \<Rightarrow> fmt_arg list \<Rightarrow> string option" where
  "Errorf fmt as = doPrintf True fmt as"

section \<open>Lemmas\<close>

lemma doPrintf_plain: "CHR ''%'' \<notin> set p \<Longrightarrow> doPrintf wrap (p @ f) as = map_option ((@) p) (doPrintf wrap f as)"
proof (induction p)
  case (Cons c p)
  then show ?case by (cases "p @ f") (auto simp: option.map_comp comp_def)
qed (simp add: option.map_ident_strong)

text \<open>A format without verbs is its own result.\<close>

lemma Sprintf_plain: "CHR ''%'' \<notin> set p \<Longrightarrow> Sprintf p [] = Some p"
  using doPrintf_plain [of p False "[]" "[]"] by (simp add: Sprintf_def extra_args_def)

text \<open>The number of arguments that a format uses.\<close>

fun verbs :: "string \<Rightarrow> nat" where
  "verbs [] = 0"
| "verbs [c] = 0"
| "verbs (c # v # rest) =
     (if c \<noteq> CHR ''%'' then verbs (v # rest) else if v = CHR ''%'' then verbs rest else Suc (verbs rest))"

lemma extra_args_iff [simp]: "extra_args as = [] \<longleftrightarrow> as = []"
  by (simp add: extra_args_def)

text \<open>
  With as many string arguments as verbs for strings, every argument appears and nothing is
  reported as missing or extra: the result is the format with the arguments put in.
\<close>

fun fill :: "string \<Rightarrow> string list \<Rightarrow> string" where
  "fill [] ts = []"
| "fill [c] ts = [c]"
| "fill (c # v # rest) ts =
     (if c \<noteq> CHR ''%'' then c # fill (v # rest) ts
      else if v = CHR ''%'' then v # fill rest ts else hd ts @ fill rest (tl ts))"

fun string_verbs :: "string \<Rightarrow> bool" where
  "string_verbs [] = True"
| "string_verbs [c] = (c \<noteq> CHR ''%'')"
| "string_verbs (c # v # rest) =
     (if c \<noteq> CHR ''%'' then string_verbs (v # rest) else v \<in> set ''%sv'' \<and> string_verbs rest)"

lemma Sprintf_fill:
  assumes "string_verbs fmt" and "length ts = verbs fmt"
  shows "Sprintf fmt (map FStr ts) = Some (fill fmt ts)"
  using assms unfolding Sprintf_def
proof (induction fmt ts rule: fill.induct)
  case (3 c v rest ts)
  show ?case
  proof (cases "c = CHR ''%'' \<and> v \<noteq> CHR ''%''")
    case True
    then obtain t us where ts: "ts = t # us" using "3.prems"(2) by (cases ts) auto
    have "v \<in> set ''svdtqw''" "print_arg False v (FStr t) = Some t" "doPrintf False rest (map FStr us) = Some (fill rest us)"
      using True "3.prems" "3.IH"(3) by (auto simp: print_arg_def ts)
    then show ?thesis using True by (simp add: ts)
  next
    case False
    then show ?thesis using "3.prems" "3.IH"(1,2) by auto
  qed
qed (auto simp: extra_args_def)

end
