(* ===== verification/Messages.thy ===== *)
theory Messages
  imports Go_Fmt Entrypoint
begin

text \<open>
  The message catalogue (package messages) and the version (version.go). The constants are tables
  of names and formats here, one for each group of error messages, one for the information and one
  for the debug messages. The messages that the models of the other packages carry are those of
  the catalogue, formatted by package fmt.
\<close>

section \<open>error\_messages.go\<close>

definition access_token_messages :: "(string \<times> string) list" where
  "access_token_messages =
     [(''CSPFK001E'', ''CSPFK001E Failed to create access token object''),
      (''CSPFK002E'', ''CSPFK002E Failed to retrieve access token''),
      (''CSPFK003E'', ''CSPFK003E AccessToken failed to delete access token data. Reason: %s'')]"

definition environment_messages :: "(string \<times> string) list" where
  "environment_messages =
     [(''CSPFK004E'', ''CSPFK004E Environment variable '%s' must be provided''),
      (''CSPFK005E'', ''CSPFK005E Provided incorrect value for environment variable %s'')]"

definition authenticator_messages :: "(string \<times> string) list" where
  "authenticator_messages =
     [(''CSPFK008E'', ''CSPFK008E Failed to instantiate authenticator configuration''),
      (''CSPFK009E'', ''CSPFK009E Failed to instantiate authenticator object''),
      (''CSPFK010E'', ''CSPFK010E Failed to authenticate''),
      (''CSPFK011E'', ''CSPFK011E Failed to parse authentication response'')]"

definition provide_messages :: "(string \<times> string) list" where
  "provide_messages =
     [(''CSPFK014E'', ''CSPFK014E Failed to instantiate ProvideConjurSecrets function. Reason: %s''),
      (''CSPFK015E'', ''CSPFK015E Failed to instantiate secrets config''),
      (''CSPFK016E'', ''CSPFK016E Failed to provide DAP/Conjur secrets'')]"

definition kubernetes_messages :: "(string \<times> string) list" where
  "kubernetes_messages =
     [(''CSPFK018E'', ''CSPFK018E Failed to create Kubernetes client''),
      (''CSPFK019E'', ''CSPFK019E Failed to load in-cluster Kubernetes client config''),
      (''CSPFK020E'', ''CSPFK020E Failed to retrieve Kubernetes Secret''),
      (''CSPFK021E'', ''CSPFK021E Failed to retrieve Kubernetes Secrets''),
      (''CSPFK022E'', ''CSPFK022E Failed to update Kubernetes Secret''),
      (''CSPFK023E'', ''CSPFK023E Failed to update Kubernetes Secrets''),
      (''CSPFK024E'', ''CSPFK024E Failed to list labeled Kubernetes Secrets''),
      (''CSPFK025E'', ''CSPFK025E PathMap cannot be empty''),
      (''CSPFK027E'', ''CSPFK027E Failed to update Kubernetes Secrets map with DAP/Conjur secrets''),
      (''CSPFK028E'', ''CSPFK028E Unable to update Kubernetes Secret '%s'' @ [CHR 0x27]),
      (''CSPFK063E'', ''CSPFK063E Unable to delete Kubernetes Secret''),
      (''CSPFK067E'', ''CSPFK067E Normalized secret names produced a duplicate secret key '%s'. Leaving first value in place.'')]"

definition conjur_messages :: "(string \<times> string) list" where
  "conjur_messages =
     [(''CSPFK031E'', ''CSPFK031E Failed to load DAP/Conjur config. Reason: %s''),
      (''CSPFK032E'', ''CSPFK032E Failed to create DAP/Conjur client from token. Reason: %s''),
      (''CSPFK033E'', ''CSPFK033E Failed to create DAP/Conjur client''),
      (''CSPFK034E'', ''CSPFK034E Failed to retrieve DAP/Conjur secrets. Reason: %s''),
      (''CSPFK035E'', ''CSPFK035E Failed to parse DAP/Conjur variable ID''),
      (''CSPFK036E'', ''CSPFK036E Variable ID '%s' is not in the format '<account>:variable:<variable_id>'' @ [CHR 0x27]),
      (''CSPFK037E'', ''CSPFK037E Failed to parse DAP/Conjur variable ID for secret '%s' in destination '%s'' @ [CHR 0x27])]"

definition general_messages :: "(string \<times> string) list" where
  "general_messages =
     [(''CSPFK038E'', ''CSPFK038E Retransmission backoff exhausted''),
      (''CSPFK039E'', ''CSPFK039E Secrets Provider for Kubernetes failed to update secrets in %s mode. Reason: %s''),
      (''CSPFK040E'', ''CSPFK040E Retrying in %v (attempt %d of %s). Reason: %v'')]"

definition annotation_messages :: "(string \<times> string) list" where
  "annotation_messages =
     [(''CSPFK041E'', ''CSPFK041E Failed to open annotations file '%s'. Reason: %s''),
      (''CSPFK042E'', ''CSPFK042E Annotation '%s' does not accept value '%s': must be type %s''),
      (''CSPFK043E'', ''CSPFK043E Annotation '%s' does not accept value '%s': only accepts %v''),
      (''CSPFK044E'', ''CSPFK044E Annotation '%s' must be provided''),
      (''CSPFK045E'', ''CSPFK045E Annotation file line %d is malformed: expecting format \"<key>=<quoted value>\"''),
      (''CSPFK046E'', ''CSPFK046E Secret Store Type needs to be configured, either with 'SECRETS_DESTINATION' environment variable or 'conjur.org/secrets-destination' Pod annotation''),
      (''CSPFK047E'', ''CSPFK047E Secrets Provider in Push-to-File mode can only be configured with Pod annotations''),
      (''CSPFK049E'', ''CSPFK049E Failed to validate Pod annotations''),
      (''CSPFK050E'', ''CSPFK050E Invalid secrets refresh interval annotation: %s %s''),
      (''CSPFK051E'', ''CSPFK051E Invalid secrets refresh configuration: %s %s''),
      (''CSPFK052E'', ''CSPFK052E %s must be provided for standalone mode'')]"

definition push_to_file_messages :: "(string \<times> string) list" where
  "push_to_file_messages =
     [(''CSPFK053E'', ''CSPFK053E Unable to initialize Secrets Provider: unable to create secret group collection''),
      (''CSPFK054E'', ''CSPFK054E Unable to initialize Secrets Provider: unrecognized Store Type '%s'' @ [CHR 0x27]),
      (''CSPFK062E'', ''CSPFK062E Unable to delete secrets file'')]"

definition atomic_writer_messages :: "(string \<times> string) list" where
  "atomic_writer_messages =
     [(''CSPFK055E'', ''CSPFK055E Could not create temporary file for '%s'' @ [CHR 0x27]),
      (''CSPFK056E'', ''CSPFK056E Could not flush temporary file '%s'' @ [CHR 0x27]),
      (''CSPFK057E'', ''CSPFK057E Could not set permissions on temporary file '%s'' @ [CHR 0x27]),
      (''CSPFK058E'', ''CSPFK058E Could not rename temporary file '%s' to '%s'' @ [CHR 0x27]),
      (''CSPFK059E'', ''CSPFK059E Could not delete temporary file '%s'. Truncated file.''),
      (''CSPFK060E'', ''CSPFK060E Could not delete temporary file '%s'. File may be left on disk.''),
      (''CSPFK061E'', ''CSPFK061E Could not write content to temporary file for '%s'' @ [CHR 0x27])]"

definition decoding_messages :: "(string \<times> string) list" where
  "decoding_messages =
     [(''CSPFK064E'', ''CSPFK064E Failed to decode secret '%s' with '%s' content-type. Reason: %s''),
      (''CSPFK065E'', ''CSPFK065E Secret group %s: the content-type of %s is invalid'')]"

definition fetch_all_messages :: "(string \<times> string) list" where
  "fetch_all_messages =
     [(''CSPFK066E'', ''CSPFK066E Stopped fetching additional secrets after %d secrets were fetched''),
      (''CSPFK090E'', ''CSPFK090E V2 batch retrieval not available, falling back to V1: %s''),
      (''CSPFK091E'', ''CSPFK091E Some secrets failed to retrieve in V2 batch request: %s''),
      (''CSPFK092E'', ''CSPFK092E No secrets were successfully retrieved''),
      (''CSPFK068E'', ''CSPFK068E Retrieved secrets did not include secret '%s' requested by secret group '%s'' @ [CHR 0x27])]"

definition url_messages :: "(string \<times> string) list" where
  "url_messages =
     [(''CSPFK069E'', ''CSPFK069E Invalid URL format: %s'')]"

definition label_messages :: "(string \<times> string) list" where
  "label_messages =
     [(''CSPFK070E'', ''CSPFK070E No updateable labeled secrets were discovered''),
      (''CSPFK073E'', ''CSPFK073E Skipping invalid labeled Kubernetes Secret '%s': %s'')]"

definition informer_messages :: "(string \<times> string) list" where
  "informer_messages =
     [(''CSPFK071E'', ''CSPFK071E Could not create K8s client for informer: %v''),
      (''CSPFK072E'', ''CSPFK072E Could not start secret informer: %v, fall back to periodic refresh mode''),
      (''CSPFK074E'', ''CSPFK074E Secret informer failed to parse new secret, skip onUpdate event''),
      (''CSPFK075E'', ''CSPFK075E Secret informer failed to parse old secret, skip onUpdate event''),
      (''CSPFK076E'', ''CSPFK076E Secret informer requires a notifier to send event''),
      (''CSPFK078E'', ''CSPFK078E Secret informer failed to add event handler: %w''),
      (''CSPFK079E'', ''CSPFK079E Secret informer failed to initialize cache sync''),
      (''CSPFK080E'', ''CSPFK080E Secret informer initialize cache sync timed out, move on without waiting''),
      (''CSPFK081E'', ''CSPFK081E Secret informer failed to process %q event, error: %v''),
      (''CSPFK082E'', ''CSPFK082E Secret informer failed to send event using notifier''),
      (''CSPFK083E'', ''CSPFK083E Secret informer event worker panic: %v''),
      (''CSPFK085E'', ''CSPFK085E Secret informer failed to parse secret, skip onAdd event''),
      (''CSPFK086E'', ''CSPFK086E Secret %s has removed the label '%s' and will no longer be updated by Secrets Provider. Existing secret data may persist unintentionally and become stale'')]"

definition notifier_messages :: "(string \<times> string) list" where
  "notifier_messages =
     [(''CSPFK084I'', ''CSPFK084I Secret informer notifier has nil events channel, skip sending event'')]"

definition standalone_messages :: "(string \<times> string) list" where
  "standalone_messages =
     [(''CSPFK093E'', ''CSPFK093E %s must not be configured in standalone mode'')]"

definition group_template_messages :: "(string \<times> string) list" where
  "group_template_messages =
     [(''CSPFK087E'', ''CSPFK087E Value for '%s' group alias '%s' not fetched from Conjur''),
      (''CSPFK088E'', ''CSPFK088E Unable to get template for %s group in %s secret: %s''),
      (''CSPFK089E'', ''CSPFK089E Failed to render template for %s group in %s secret: %s'')]"

definition http_messages :: "(string \<times> string) list" where
  "http_messages =
     [(''CSPFK094E'', ''CSPFK094E Failed to create HTTP server: %v'')]"

section \<open>info\_messages.go and debug\_messages.go\<close>

definition info_messages :: "(string \<times> string) list" where
  "info_messages =
     [(''CSPFK002I'', ''CSPFK002I Creating DAP/Conjur client''),
      (''CSPFK003I'', ''CSPFK003I Retrieving following secrets from DAP/Conjur: %v''),
      (''CSPFK004I'', ''CSPFK004I Creating Kubernetes client''),
      (''CSPFK005I'', ''CSPFK005I Retrieving Kubernetes secret '%s' from namespace '%s'' @ [CHR 0x27]),
      (''CSPFK006I'', ''CSPFK006I Updating Kubernetes secret '%s' in namespace '%s'' @ [CHR 0x27]),
      (''CSPFK008I'', ''CSPFK008I CyberArk Secrets Provider for Kubernetes v%s starting up''),
      (''CSPFK009I'', ''CSPFK009I DAP/Conjur Secrets updated in Kubernetes successfully''),
      (''CSPFK010I'', ''CSPFK010I Updating Kubernetes Secrets: %d retries out of %d''),
      (''CSPFK011I'', ''CSPFK011I Annotation '%s' valid, but not recognized''),
      (''CSPFK012I'', ''CSPFK012I Secrets Provider setting '%s' set by both environment variable '%s' and annotation '%s'' @ [CHR 0x27]),
      (''CSPFK014I'', ''CSPFK014I Authenticator setting %s provided by %s''),
      (''CSPFK015I'', ''CSPFK015I DAP/Conjur Secrets pushed to shared volume successfully''),
      (''CSPFK017I'', ''CSPFK017I Creating default file name for secret group '%s'' @ [CHR 0x27]),
      (''CSPFK018I'', ''CSPFK018I No change in secret file, no secret files written''),
      (''CSPFK019I'', ''CSPFK019I Error fetching secrets, deleting secrets file''),
      (''CSPFK021I'', ''CSPFK021I Error fetching Conjur secrets, clearing Kubernetes secrets''),
      (''CSPFK022I'', ''CSPFK022I Storing secret with base64 content-type '%s' in destination '%s'' @ [CHR 0x27]),
      (''CSPFK023I'', ''CSPFK023I Retrieving all available secrets from Conjur''),
      (''CSPFK024I'', ''CSPFK024I Secrets Provider set to retrieve Kubernetes secrets by label''),
      (''CSPFK025I'', ''CSPFK025I Retrieving labeled Kubernetes secrets from namespace '%s'' @ [CHR 0x27]),
      (''CSPFK026I'', ''CSPFK026I Secret informer started for namespace: %s''),
      (''CSPFK027I'', ''CSPFK027I Secret informer stopped for namespace: %s''),
      (''CSPFK028I'', ''CSPFK028I Secret informer event: %s: %s/%s''),
      (''CSPFK029I'', ''CSPFK029I Secret informer event queue worker started for namespace: %s''),
      (''CSPFK030I'', ''CSPFK030I Secret informer event queue worker stopped for namespace: %s''),
      (''CSPFK031I'', ''CSPFK031I Processing batched secret informer events: %d events batched''),
      (''CSPFK032I'', ''CSPFK032I Detected removed keys from conjur-map in secret '%s': %v''),
      (''CSPFK033I'', ''CSPFK033I Removing key '%s' from Kubernetes secret '%s' as it was removed from conjur-map''),
      (''CSPFK034I'', ''CSPFK034I Allow secret '%s' without conjur-map, continue...''),
      (''CSPFK035I'', ''CSPFK035I Exceeded max debounce delay, providing secrets (eventCount: %d)''),
      (''CSPFK036I'', ''CSPFK036I V2 batch retrieval succeeded: retrieved %d secrets''),
      (''CSPFK037I'', ''CSPFK037I Namespace allowlist set to '*' (all namespaces)''),
      (''CSPFK038I'', ''CSPFK038I HTTP server start listening at %s''),
      (''CSPFK039I'', ''CSPFK039I Secrets Provider healthy status changed to %t''),
      (''CSPFK040I'', ''CSPFK040I Secrets Provider ready status changed to %t'')]"

definition debug_messages :: "(string \<times> string) list" where
  "debug_messages =
     [(''CSPFK002D'', ''CSPFK002D Failed to load in-cluster Kubernetes client config. Reason: %s''),
      (''CSPFK003D'', ''CSPFK003D Failed to create Kubernetes client. Reason: %s''),
      (''CSPFK004D'', ''CSPFK004D Failed to retrieve Kubernetes Secret. Reason: %s''),
      (''CSPFK005D'', ''CSPFK005D Failed to update Kubernetes Secret. Reason: %s''),
      (''CSPFK006D'', ''CSPFK006D Kubernetes Secret '%s' has no value defined for the '%s' data entry''),
      (''CSPFK007D'', ''CSPFK007D Kubernetes Secret '%s' has an invalid value for '%s' data entry. Reason: %s''),
      (''CSPFK008D'', ''CSPFK008D Kubernetes Secret '%s' has no '%s' data entry defined''),
      (''CSPFK009D'', ''CSPFK009D Processing '%s' data entry value of Kubernetes Secret '%s'' @ [CHR 0x27]),
      (''CSPFK010D'', ''CSPFK010D Listed %d secrets from Conjur''),
      (''CSPFK011D'', ''CSPFK011D Failed to list labeled Kubernetes Secrets. Reason: %s''),
      (''CSPFK012D'', ''CSPFK012D No periodic refresh or informer configured; sleeping indefinitely to keep sidecar running''),
      (''CSPFK013D'', ''CSPFK013D Kubernetes Secret '%s' has no '%s' annotation defined''),
      (''CSPFK014D'', ''CSPFK014D Found %d secret group templates for Kubernetes secret %s''),
      (''CSPFK015D'', ''CSPFK015D No secrets to update''),
      (''CSPFK016D'', ''CSPFK016D No change in Kubernetes secret '%s'' @ [CHR 0x27])]"

definition catalogue :: "(string \<times> string) list" where
  "catalogue = concat [access_token_messages, environment_messages, authenticator_messages, provide_messages, kubernetes_messages,
     conjur_messages, general_messages, annotation_messages, push_to_file_messages, atomic_writer_messages,
     decoding_messages, fetch_all_messages, url_messages, label_messages, informer_messages,
     notifier_messages, standalone_messages, group_template_messages, http_messages, info_messages,
     debug_messages]"

section \<open>version.go\<close>

definition Version :: string where "Version = ''unset''"
definition Tag :: string where "Tag = ''dev''"

definition FullVersionName :: "string option" where
  "FullVersionName = Sprintf ''%s-%s'' [FStr Version, FStr Tag]"

section \<open>Lemmas\<close>

text \<open>Every message begins with the name of its constant.\<close>

definition named_message :: "string \<times> string \<Rightarrow> bool" where
  "named_message nm \<longleftrightarrow> HasPrefix (snd nm) (fst nm @ '' '')"

lemma catalogue_names: "list_all named_message catalogue"
  unfolding catalogue_def by code_simp

text \<open>The messages without arguments.\<close>

lemma plain_messages:
  "map_of access_token_messages ''CSPFK001E'' = Some CSPFK001E"
  "map_of access_token_messages ''CSPFK002E'' = Some CSPFK002E"
  "map_of authenticator_messages ''CSPFK008E'' = Some CSPFK008E"
  "map_of authenticator_messages ''CSPFK009E'' = Some CSPFK009E"
  "map_of authenticator_messages ''CSPFK010E'' = Some CSPFK010E"
  "map_of kubernetes_messages ''CSPFK018E'' = Some CSPFK018E"
  "map_of kubernetes_messages ''CSPFK019E'' = Some CSPFK019E"
  "map_of kubernetes_messages ''CSPFK020E'' = Some CSPFK020E"
  "map_of kubernetes_messages ''CSPFK021E'' = Some CSPFK021E"
  "map_of kubernetes_messages ''CSPFK022E'' = Some CSPFK022E"
  "map_of kubernetes_messages ''CSPFK023E'' = Some CSPFK023E"
  "map_of kubernetes_messages ''CSPFK024E'' = Some CSPFK024E"
  "map_of kubernetes_messages ''CSPFK025E'' = Some CSPFK025E"
  "map_of conjur_messages ''CSPFK033E'' = Some CSPFK033E"
  "map_of informer_messages ''CSPFK076E'' = Some CSPFK076E"
  "map_of informer_messages ''CSPFK082E'' = Some CSPFK082E"
  "map_of fetch_all_messages ''CSPFK092E'' = Some CSPFK092E"
  by code_simp+

text \<open>The messages with arguments, for any arguments.\<close>

definition formatted :: "(string \<times> string) list \<Rightarrow> string \<Rightarrow> fmt_arg list \<Rightarrow> string option" where
  "formatted table n args = Option.bind (map_of table n) (\<lambda>fmt. Errorf fmt args)"

lemma formatted_messages:
  "formatted kubernetes_messages ''CSPFK028E'' [FStr e] = Some (CSPFK028E e)"
  "formatted conjur_messages ''CSPFK031E'' [FStr e] = Some (CSPFK031E e)"
  "formatted conjur_messages ''CSPFK032E'' [FStr e] = Some (CSPFK032E e)"
  "formatted conjur_messages ''CSPFK034E'' [FStr e] = Some (CSPFK034E e)"
  "formatted url_messages ''CSPFK069E'' [FStr e] = Some (CSPFK069E e)"
  "formatted conjur_messages ''CSPFK037E'' [FStr sn, FStr dest] = Some (CSPFK037E sn dest)"
  "formatted fetch_all_messages ''CSPFK068E'' [FStr path, FStr groupName] = Some (CSPFK068E path groupName)"
  "formatted informer_messages ''CSPFK078E'' [FErr t e] = Some (CSPFK078E e)"
  by (code_simp, (rule append_Nil2)?)+

text \<open>
  Messages whose arguments do not fit: the warning about an invalid content type is given one
  argument for its two verbs, and the errors of the atomic writer and of the file provider get one
  more than they use.
\<close>

lemma content_type_warning:
  "formatted decoding_messages ''CSPFK065E'' [FStr ''e''] = Some ''CSPFK065E Secret group e: the content-type of %!s(MISSING) is invalid''"
  by code_simp

lemma delete_file_error:
  "formatted push_to_file_messages ''CSPFK062E'' [FErr ''*fs.PathError'' ''denied''] =
     Some ''CSPFK062E Unable to delete secrets file%!(EXTRA *fs.PathError=denied)''"
  by code_simp

lemma version_name: "FullVersionName = Some ''unset-dev''"
  by code_simp

end
