(* ===== verification/Spec2Isabelle.thy ===== *)
theory Spec2Isabelle
  imports Refused_Access Labeled_Facts Shared_Backoff Messages
begin

text \<open>
  \<^bold>\<open>Verification library of the CyberArk Secrets Provider for Kubernetes.\<close>

  The program runs beside an application, as an init, application or sidecar container, or alone
  for a namespace. It authenticates to Conjur, fetches variables and delivers them in one of two
  ways: into files on a shared volume (push to file), rendered with templates per secret group, or
  into Kubernetes Secrets whose conjur-map entry says which variable goes to which key. It runs
  once, or again at intervals and when watched Secrets change, and replaces or empties what it
  delivered when values change or access is revoked.

  \<^bold>\<open>Parts, theories and sources\<close> (all paths below src/pkg)

  \<^item> Prelude: Go maps with an unspecified iteration order, calls that may panic, shared rule
    collections, and the interface of a keyed store. Go\_Text, Go\_Conv, Go\_Path, Go\_Quote and
    Base64 hold what the program uses of Go's strings, strconv, unicode/utf8, path and base64;
    File\_System is Go's package os on a model of files with an arbitrary pattern of failing calls.
  \<^item> Config (secrets/config/config.go): annotations and environment to a validated configuration.
  \<^item> Annotations (secrets/annotations/annotation\_parser.go): reading the annotations file.
  \<^item> Utils (utils/): checksums of delivered content and the bounded back-off.
  \<^item> Atomic\_Writer (atomicwriter/atomic\_writer.go): replacing a file as a whole.
  \<^item> File\_Templates (secrets/file\_templates/): secret specifications and templates;
    Standard\_Templates, Push\_Writer, Secret\_Group, Push\_To\_File (secrets/pushtofile/): formats,
    writing with checksums, groups, fetching and the provider for files.
  \<^item> K8s\_Client (secrets/clients/k8s/), K8s\_Provider and K8s\_Facts
    (secrets/k8s\_secrets\_storage/provide\_conjur\_secrets.go): the provider for Kubernetes Secrets;
    Labeled\_Facts: labelled Secrets of which only a part is valid.
    Cluster and Cluster\_Facts follow its runs on a cluster that stores Secrets.
  \<^item> Conjur\_Client, Conjur\_Authenticator (secrets/clients/conjur/): access tokens, the client of
    the Conjur interface in versions 2 and 1, retrieving given or all variables.
  \<^item> K8s\_Informer (secrets/k8s\_informer/): event handlers, work queue, notifier, start and stop.
  \<^item> Provider\_Status (secrets/provider\_status.go) and Health\_Server (server/server.go): how the
    provider reports its progress, in sentinel files and through HTTP probes.
  \<^item> Provider\_Run, Retry\_Facts, Run\_Facts (secrets/provide\_conjur\_secrets.go): creating the
    provider, retries, and the three goroutines of a running program; Shared\_Backoff: calls of
    the retrying function by two goroutines, on one back-off.
  \<^item> Entrypoint (entrypoint/): the start of the program up to its exit code. Delivery: what an exit
    code of 0 says about the cluster, through all of the above. Refused\_Access: what both
    providers do when the Conjur server refuses every variable.
  \<^item> Messages (log/messages/, secrets/version.go) with Go\_Fmt: the message catalogue, formatted.

  The entry point reads the annotations, validates the configuration, makes an authenticator and a
  retriever, creates the provider of the configured store and runs it. The runner calls the
  provider directly, through the retry loop, or, when updates have removed keys, through the
  Kubernetes provider's clean-up; the informer feeds the runner's channel; both providers call the
  retriever; the status files and the readiness flag follow the outcome. In the model each of these
  calls is the call of the corresponding definition: \<^verbatim>\<open>StartSecretsProvider\<close> unfolds to the whole
  program.

  \<^bold>\<open>State and effects\<close>

  Structs are records and errors are values of datatypes or strings with the source's messages
  (where the program inspects them). Functions that change state take and return it: the file
  system with its fault oracle, the Kubernetes provider's record, the checksums (a package
  variable), the wrapper's record of the interface version, and a world of any type on which the
  libraries act. A panic is an outcome of its own. A loop over a map is a loop over a list in
  the order that an arbitrary function chooses, and the properties hold for all of them. Go
  integers are \<^typ>\<open>int\<close> with the range checks of strconv where a number is parsed. The one
  product that can leave the range, the retry interval in nanoseconds, wraps around
  (\<^const>\<open>int64\<close> in \<^const>\<open>refresh_config\<close>); sums of times and counters of events and
  retries are taken to stay within it.

  Third-party code is a parameter: the Kubernetes client and its work queue, the Conjur API and
  authentication libraries, the YAML library, the template engine, backoff.RetryNotify; so are
  SHA-256, time.ParseDuration, url.Parse, net.Listen and the environment. Where a property needs
  more of a parameter than its type, its documented behaviour is a named hypothesis (for example
  \<^const>\<open>fifo_queue\<close>, \<^const>\<open>kube_store\<close>, \<^const>\<open>conjur_server\<close>, \<^const>\<open>retry_notify_ok\<close>,
  \<^const>\<open>range_order_ok\<close>), and a concrete function
  satisfies it in the property's witness.

  \<^bold>\<open>Loops\<close>

  Loops over lists are structural recursions; scanning, unquoting, replacing and paging are
  functions with a measure. The page loop ends because each full page moves its list of
  identifiers towards the limit. The informer's worker may wait forever, so it is a
  \<^verbatim>\<open>partial_function (option)\<close>, in which waiting forever is \<^const>\<open>None\<close>, and that it ends after
  Stop is a theorem. The retry loop belongs to a library; its executions are an inductive relation,
  and the bound on them is proved from the back-off. The running program is a step relation
  (\<^const>\<open>rstep\<close>) in which time passes and events arrive, a goroutine takes up an event, a
  tick or its timer, and finishes what it took up, which may take any time; the state changes at
  the end, where the provider's mutex orders the runs of the two goroutines. Nothing forces time to
  stop for a timer that is due. What must happen is said by fair runs (\<^const>\<open>fair_run\<close>): a
  goroutine that can go on does at some time, and time passes. The main goroutine leaves its
  select statement once; the others then end or, as their own select statements choose freely,
  take up what is still there. The grace period of ten milliseconds is not measured: the result is
  the state at any time after the return. Two goroutines that retry at the same time share a
  back-off; Shared\_Backoff runs a call of one while the other calls the same function within its
  attempts.

  \<^bold>\<open>Interfaces\<close> (locales, each interpreted on the program's definitions)

  \<^item> keyed\_store: lookup, update and deletion, on Go maps and on the nested data of the Secrets.
  \<^item> codec: the base64 decoder undoes the encoder. change\_detector: when a checksum comparison
    reports a change. backoff\_policy: a budget of retries; the bound on retries rests on it.
  \<^item> status\_updater: what a client of the status files may rely on; the start of a run and the exit
    code rest on its interpretation.
  \<^item> step\_refinement: a step on concrete state that implements one on abstract state does so over
    sequences; the keys pending for removal refine sets of keys.

  \<^bold>\<open>What the lemmas show\<close>

  \<^item> Files: Close after Write is all or nothing under every pattern of faults; a run without faults
    installs the rendered file of every group and nothing else; a second run with the same values
    changes nothing; after a failed fetch, and with sanitizing on, files go exactly when the text of
    the error mentions 403, 404 or CSPFK068E, or when the answer lacks a value; groups are
    well-formed whatever the order of the annotations, and permissions are parsed exactly.
  \<^item> Kubernetes Secrets: the destination index stays consistent; the new data of every Secret is
    what destinations and values determine; repeated updates are silent; the variables asked for
    are exactly those that are named (the first three without fetch-all where they say so). On a cluster, seen as a store of Secrets (\<^const>\<open>kube_store\<close>),
    the recorded checksums always stand for data that the stored Secrets hold, whatever runs came
    before (\<^const>\<open>history\<close>, \<^const>\<open>synced\<close>): the text that is summed determines the data. So a run
    that succeeds delivers what the conjur-maps ask for, though it skips Secrets by their checksum;
    a failed one touches only keys that the provider manages.
  \<^item> The whole program: an init or application container that exits with code 0 has delivered the
    values of the Conjur server to the named Secrets, and changed nothing else in the cluster
    (\<^const>\<open>delivered\<close>), for every authenticator, either interface version, every map order and any
    number of failed attempts.
  \<^item> Conjur: a fetch returns what the server has under the names that were asked for, through either
    version; fetching everything is bounded; service identifiers are parsed exactly.
  \<^item> Informer and runner: which updates are queued; the provider does not wake itself; stopping
    drains the queue; in a fair run every event is served, by a timer that is due less than 10.2
    seconds after the first event; the pending keys are exactly the dropped ones; retries are bounded and return the right result; readiness, sentinel
    and exit code tell whether the secrets were provided.
  \<^item> Configuration: accepted settings give values within the documented bounds; the annotations
    file is read back exactly; the places that read the container mode agree.
  \<^item> Where the code does not do what it means to, the theorem or lemma states what it does: the
    destination emptied after a failed write, empty files after restored access, the panic on an
    invalid labelled Secret, the refresh spelling, the standalone mode that stops at its first
    error, the pending keys lost in a failed clean-up, the refusal of version 2 that hides its
    reason, the annotations after a long line, the exit code 0 when the server cannot listen, the
    annotation that cloud logins ignore, the retry limit that two goroutines do not keep, the retry interval that wraps around, messages
    whose arguments do not fit, and the overwritten value that later runs do not repair.

  \<^bold>\<open>Not modelled\<close>

  Log output and the spans of the single steps, which nothing reads back; serving HTTP beyond the two handlers; the delays inside the libraries; the clearing of
  token and secret buffers where the source only overwrites memory nobody reads again; main.go,
  which calls the entry point, mocks and the end-to-end tests. Memory after the
  process has exited is not part of the state of \<^const>\<open>startSecretsProviderWithDeps\<close>: an exit
  during the start-up leaves files and world as they were.
\<close>

end
